(* ===== verification/Prelude.thy ===== *)
theory Prelude
  imports
    Complex_Main
    "HOL-Library.Word"
    "HOL-Library.AList"
    "HOL-Library.Multiset"
begin

text \<open>
  What the components share: the names of Go's machine types, run-time panics as values,
  decimal printing and reading (package strconv), the few functions of package strings the
  program calls, Go maps as association lists together with the laws of the one operation
  that the language leaves open (the order in which \<^verbatim>\<open>range\<close> visits a map), and
  generic list lemmas.
\<close>

section \<open>Types and panics\<close>

type_synonym u32 = "32 word"
type_synonym u64 = "64 word"

text \<open>
  Go's \<^verbatim>\<open>int\<close> and \<^verbatim>\<open>int64\<close> are 64-bit two's complement numbers. They are
  modelled by \<^typ>\<open>int\<close>; a conversion to an unsigned type reduces modulo \<open>2 ^ 64\<close> as
  the language does, and \<open>in_int64\<close> says when a value is representable.
\<close>

definition in_int64 :: "int \<Rightarrow> bool" where
  "in_int64 i \<longleftrightarrow> - (2 ^ 63) \<le> i \<and> i < 2 ^ 63"

text \<open>The run-time panics a Go statement of the program can raise.\<close>

datatype panic =
    SliceBounds
  | NilDereference
  | BadTypeAssertion
  | NegativeWaitGroup
  | SendOnClosedChannel
  | CloseOfClosedChannel
  | NilMapWrite
  | DuplicatePattern

type_synonym 'a result = "panic + 'a"

text \<open>A loop whose body may panic.\<close>

fun fold_result :: "('a \<Rightarrow> 's \<Rightarrow> 's result) \<Rightarrow> 'a list \<Rightarrow> 's \<Rightarrow> 's result" where
  "fold_result f [] s = Inr s"
| "fold_result f (x # xs) s =
     (case f x s of Inl p \<Rightarrow> Inl p | Inr s' \<Rightarrow> fold_result f xs s')"

lemma fold_result_total:
  "(\<And>x s. x \<in> set xs \<Longrightarrow> f x s = Inr (g x s)) \<Longrightarrow> fold_result f xs s = Inr (fold g xs s)"
  by (induction xs arbitrary: s) auto

section \<open>Lemma collections\<close>

named_theorems gomap_simps \<open>lookup laws of association lists\<close>
named_theorems gostr_simps \<open>printing and reading of strings\<close>

section \<open>Go maps\<close>

text \<open>
  A Go map is an association list with distinct keys. The position of an entry is not
  observable by the program except through \<^verbatim>\<open>range\<close>, whose order the language leaves
  unspecified; a loop over a map therefore goes over \<open>ord m\<close> for some function \<open>ord\<close>
  that only permutes the entries.
\<close>

type_synonym ('k, 'v) gomap = "('k \<times> 'v) list"

abbreviation keys :: "('k, 'v) gomap \<Rightarrow> 'k list" where
  "keys m \<equiv> map fst m"

definition gomap :: "('k, 'v) gomap \<Rightarrow> bool" where
  "gomap m \<longleftrightarrow> distinct (keys m)"

definition range_order :: "('a list \<Rightarrow> 'a list) \<Rightarrow> bool" where
  "range_order ord \<longleftrightarrow> (\<forall>xs. mset (ord xs) = mset xs)"

lemma range_order_id [simp]: "range_order (\<lambda>xs. xs)"
  by (simp add: range_order_def)

lemma range_order_rev [simp]: "range_order rev"
  by (simp add: range_order_def)

lemma range_order_mset: "range_order ord \<Longrightarrow> mset (ord xs) = mset xs"
  by (simp add: range_order_def)

lemma range_order_set: "range_order ord \<Longrightarrow> set (ord xs) = set xs"
  by (metis range_order_def set_mset_mset)

lemma range_order_length: "range_order ord \<Longrightarrow> length (ord xs) = length xs"
  by (metis range_order_def size_mset)

lemma range_order_distinct: "range_order ord \<Longrightarrow> distinct (ord xs) = distinct xs"
  by (metis mset_eq_imp_distinct_iff range_order_def)

lemma range_order_keys:
  assumes "range_order ord"
  shows "mset (keys (ord m)) = mset (keys m)"
  using range_order_mset [OF assms, of m] by simp

lemma range_order_concat:
  assumes "range_order ord"
  shows "mset (concat (map f (ord m))) = mset (concat (map f m))"
proof -
  have "sum_mset (mset (map (mset \<circ> f) (ord m))) = sum_mset (mset (map (mset \<circ> f) m))"
    using range_order_mset [OF assms, of m] by simp
  then show ?thesis
    unfolding sum_mset_sum_list by (simp add: mset_concat)
qed

lemma gomap_range [simp]: "range_order ord \<Longrightarrow> gomap (ord m) = gomap m"
  unfolding gomap_def by (metis mset_eq_imp_distinct_iff range_order_keys)

lemma map_of_range [simp]:
  assumes "range_order ord" and "gomap m"
  shows "map_of (ord m) = map_of m"
proof -
  have "distinct (keys (ord m))" and "distinct (keys m)"
    using assms gomap_range by (auto simp: gomap_def)
  moreover have "set (ord m) = set m"
    by (rule range_order_set [OF assms(1)])
  ultimately show ?thesis
    by (rule map_of_inject_set [THEN iffD2])
qed

lemma gomap_Nil [simp]: "gomap []"
  by (simp add: gomap_def)

lemma gomap_update [simp]: "gomap m \<Longrightarrow> gomap (AList.update k v m)"
  by (simp add: gomap_def distinct_update)

lemma map_of_update_eq [gomap_simps]:
  "map_of (AList.update k v m) k' = (if k' = k then Some v else map_of m k')"
  by (simp add: update_conv')

lemma length_update_le: "length (AList.update k v m) \<le> Suc (length m)"
  by (induction m) auto

text \<open>Writing one entry per element, under distinct keys.\<close>

lemma map_of_fold_update:
  "distinct (map f xs) \<Longrightarrow>
   map_of (fold (\<lambda>x. AList.update (f x) (g x)) xs m) a =
     (case map_of (map (\<lambda>x. (f x, g x)) xs) a of None \<Rightarrow> map_of m a | Some v \<Rightarrow> Some v)"
proof (induction xs arbitrary: m)
  case (Cons x xs)
  have "map_of (map (\<lambda>x. (f x, g x)) xs) (f x) = None"
    using Cons.prems by (auto simp: map_of_eq_None_iff image_image)
  with Cons show ?case
    by (auto simp: map_of_update_eq split: option.splits)
qed simp

lemma map_of_fold_update_in:
  assumes "distinct (map f xs)" and "x \<in> set xs"
  shows "map_of (fold (\<lambda>x. AList.update (f x) (g x)) xs m) (f x) = Some (g x)"
proof -
  have "distinct (map fst (map (\<lambda>x. (f x, g x)) xs))"
    using assms(1) by (simp add: o_def)
  then have "map_of (map (\<lambda>x. (f x, g x)) xs) (f x) = Some (g x)"
    using assms(2) by simp
  then show ?thesis
    by (simp add: map_of_fold_update [OF assms(1)])
qed

lemma keys_fold_update:
  "fst ` set (fold (\<lambda>x. AList.update (f x) (g x)) xs m) = fst ` set m \<union> f ` set xs"
  by (induction xs arbitrary: m) (auto simp: dom_update)

lemma gomap_fold_update:
  "gomap m \<Longrightarrow> gomap (fold (\<lambda>x. AList.update (f x) (g x)) xs m)"
  by (induction xs arbitrary: m) auto

text \<open>\<^verbatim>\<open>m[k] = append(m[k], v)\<close> for a map of slices: a missing key reads as the empty slice.\<close>

definition map_append :: "'k \<Rightarrow> 'v \<Rightarrow> ('k, 'v list) gomap \<Rightarrow> ('k, 'v list) gomap" where
  "map_append k v m =
     AList.update k ((case map_of m k of None \<Rightarrow> [] | Some vs \<Rightarrow> vs) @ [v]) m"

definition map_slice :: "('k, 'v list) gomap \<Rightarrow> 'k \<Rightarrow> 'v list" where
  "map_slice m k = (case map_of m k of None \<Rightarrow> [] | Some vs \<Rightarrow> vs)"

lemma map_slice_Nil [simp]: "map_slice [] k = []"
  by (simp add: map_slice_def)

lemma map_slice_append [gomap_simps]:
  "map_slice (map_append k v m) k' = map_slice m k' @ (if k' = k then [v] else [])"
  by (simp add: map_slice_def map_append_def map_of_update_eq)

lemma gomap_append [simp]: "gomap m \<Longrightarrow> gomap (map_append k v m)"
  by (simp add: map_append_def)

lemma keys_append_set: "fst ` set (map_append k v m) = insert k (fst ` set m)"
  by (simp add: map_append_def dom_update)

text \<open>Appending the elements of a list one by one groups them by key, in order.\<close>

lemma map_slice_fold:
  "map_slice (fold (\<lambda>x. map_append (f x) (g x)) xs m) k =
     map_slice m k @ map g (filter (\<lambda>x. f x = k) xs)"
  by (induction xs arbitrary: m) (auto simp: map_slice_append)

lemma keys_fold_append:
  "fst ` set (fold (\<lambda>x. map_append (f x) (g x)) xs m) = fst ` set m \<union> f ` set xs"
  by (induction xs arbitrary: m) (auto simp: keys_append_set)

lemma gomap_fold_append:
  "gomap m \<Longrightarrow> gomap (fold (\<lambda>x. map_append (f x) (g x)) xs m)"
  by (induction xs arbitrary: m) auto

lemma gomap_map_slice: "gomap m \<Longrightarrow> (k, vs) \<in> set m \<Longrightarrow> map_slice m k = vs"
  by (simp add: gomap_def map_slice_def)

lemma map_of_keysD: "k \<in> set (keys m) \<Longrightarrow> \<exists>v. map_of m k = Some v"
  by (metis list.set_map map_of_eq_None_iff not_None_eq)

section \<open>Grouping\<close>

text \<open>Cutting a list into the groups of distinct keys and putting them together again.\<close>

lemma mset_groups:
  "distinct ks \<Longrightarrow> g ` set xs \<subseteq> set ks \<Longrightarrow>
   mset (concat (map (\<lambda>k. filter (\<lambda>x. g x = k) xs) ks)) = mset xs"
proof (induction ks arbitrary: xs)
  case (Cons k ks)
  let ?rest = "filter (\<lambda>x. g x \<noteq> k) xs"
  have "map (\<lambda>k'. filter (\<lambda>x. g x = k') xs) ks = map (\<lambda>k'. filter (\<lambda>x. g x = k') ?rest) ks"
    using Cons.prems(1) by (auto intro!: filter_cong)
  moreover have "mset (concat (map (\<lambda>k'. filter (\<lambda>x. g x = k') ?rest) ks)) = mset ?rest"
    using Cons.prems by (intro Cons.IH) auto
  ultimately show ?case
    by (simp del: mset_filter map_eq_conv) (metis mset_filter multiset_partition)
qed simp

section \<open>Decimal numbers\<close>

definition digit :: "int \<Rightarrow> char" where
  "digit d = char_of (48 + d)"

text \<open>The decimal digits of a number that is not negative.\<close>

function fmt_dec :: "int \<Rightarrow> string" where
  "fmt_dec n = (if n < 10 then [digit n] else fmt_dec (n div 10) @ [digit (n mod 10)])"
  by pat_completeness auto
termination
  by (relation "measure nat") auto

declare fmt_dec.simps [simp del]

text \<open>\<^verbatim>\<open>strconv.FormatUint(x, 10)\<close>, \<^verbatim>\<open>strconv.FormatInt(x, 10)\<close>, \<^verbatim>\<open>strconv.Itoa\<close> and \<^verbatim>\<open>strconv.FormatBool\<close>.\<close>

definition FormatUint :: "'a::len word \<Rightarrow> string" where
  "FormatUint w = fmt_dec (uint w)"

definition FormatInt :: "int \<Rightarrow> string" where
  "FormatInt i = (if i < 0 then CHR ''-'' # fmt_dec (- i) else fmt_dec i)"

abbreviation Itoa :: "int \<Rightarrow> string" where
  "Itoa i \<equiv> FormatInt i"

definition FormatBool :: "bool \<Rightarrow> string" where
  "FormatBool b = (if b then ''true'' else ''false'')"

definition is_digit :: "char \<Rightarrow> bool" where
  "is_digit c \<longleftrightarrow> 48 \<le> (of_char c :: int) \<and> (of_char c :: int) \<le> 57"

definition digit_val :: "char \<Rightarrow> int" where
  "digit_val c = of_char c - 48"

text \<open>The value of a digit string, most significant digit first.\<close>

fun read_dec :: "int \<Rightarrow> string \<Rightarrow> int option" where
  "read_dec acc [] = Some acc"
| "read_dec acc (c # cs) =
     (if is_digit c then read_dec (10 * acc + digit_val c) cs else None)"

text \<open>
  \<^verbatim>\<open>strconv.ParseUint(s, 10, bits)\<close> and \<^verbatim>\<open>strconv.Atoi\<close>: the empty string, a character that is
  not a digit and a value out of range are errors.
\<close>

definition ParseUint :: "nat \<Rightarrow> string \<Rightarrow> int option" where
  "ParseUint bits s =
     (if s = [] then None
      else case read_dec 0 s of
        None \<Rightarrow> None
      | Some n \<Rightarrow> if n < 2 ^ bits then Some n else None)"

definition Atoi :: "string \<Rightarrow> int option" where
  "Atoi s =
     (case s of
        [] \<Rightarrow> None
      | c # cs \<Rightarrow>
          (let neg = (c = CHR ''-''); ds = (if c = CHR ''-'' \<or> c = CHR ''+'' then cs else s)
           in if ds = [] then None
              else case read_dec 0 ds of
                None \<Rightarrow> None
              | Some n \<Rightarrow>
                  (let v = (if neg then - n else n)
                   in if in_int64 v then Some v else None)))"

lemma of_char_digit [simp]: "0 \<le> d \<Longrightarrow> d < 10 \<Longrightarrow> (of_char (digit d) :: int) = 48 + d"
  by (simp add: digit_def of_char_of)

lemma is_digit_digit [simp]: "0 \<le> d \<Longrightarrow> d < 10 \<Longrightarrow> is_digit (digit d)"
  by (simp add: is_digit_def)

lemma digit_val_digit [simp]: "0 \<le> d \<Longrightarrow> d < 10 \<Longrightarrow> digit_val (digit d) = d"
  by (simp add: digit_val_def)

lemma fmt_dec_nonempty [simp]: "fmt_dec n \<noteq> []"
  by (subst fmt_dec.simps) simp

lemma fmt_dec_digits: "0 \<le> n \<Longrightarrow> c \<in> set (fmt_dec n) \<Longrightarrow> is_digit c"
proof (induction n rule: fmt_dec.induct)
  case (1 n)
  then show ?case
    by (cases "n < 10") (auto simp: fmt_dec.simps [of n] pos_imp_zdiv_nonneg_iff)
qed

lemma read_dec_append:
  "read_dec acc (xs @ ys) =
     (case read_dec acc xs of None \<Rightarrow> None | Some a \<Rightarrow> read_dec a ys)"
  by (induction xs arbitrary: acc) auto

lemma read_fmt_dec [gostr_simps]: "0 \<le> n \<Longrightarrow> read_dec 0 (fmt_dec n) = Some n"
proof (induction n rule: fmt_dec.induct)
  case (1 n)
  then show ?case
    by (cases "n < 10")
       (simp_all add: fmt_dec.simps [of n] read_dec_append pos_imp_zdiv_nonneg_iff)
qed

lemma fmt_dec_inject: "0 \<le> m \<Longrightarrow> 0 \<le> n \<Longrightarrow> fmt_dec m = fmt_dec n \<longleftrightarrow> m = n"
  by (metis option.inject read_fmt_dec)

lemma FormatUint_inject [simp]:
  "FormatUint (a :: 'a::len word) = FormatUint (b :: 'a word) \<longleftrightarrow> a = b"
  by (simp add: FormatUint_def fmt_dec_inject word_uint_eq_iff)

lemma fmt_dec_hd: "0 \<le> n \<Longrightarrow> fmt_dec n = c # cs \<Longrightarrow> c \<noteq> CHR ''-'' \<and> c \<noteq> CHR ''+''"
  using fmt_dec_digits [of n c] by (auto simp: is_digit_def)

lemma FormatInt_inject [simp]: "FormatInt i = FormatInt j \<longleftrightarrow> i = j"
proof -
  have minus: "CHR ''-'' # s \<noteq> fmt_dec n" "fmt_dec n \<noteq> CHR ''-'' # s" if "0 \<le> n" for s n
    using fmt_dec_hd [OF that] by metis+
  then show ?thesis
    by (simp add: FormatInt_def fmt_dec_inject)
qed

text \<open>A 32-bit identifier prints the same through \<^verbatim>\<open>FormatUint\<close> and through \<^verbatim>\<open>Itoa(int(x))\<close>.\<close>

lemma Itoa_uint: "Itoa (uint w) = FormatUint w"
  by (simp add: FormatInt_def FormatUint_def)

lemma ParseUint_FormatUint [gostr_simps]:
  assumes "LENGTH('a) \<le> bits"
  shows "ParseUint bits (FormatUint (w :: 'a::len word)) = Some (uint w)"
proof -
  have "uint w < 2 ^ LENGTH('a)"
    by (rule unsigned_less)
  also have "(2::int) ^ LENGTH('a) \<le> 2 ^ bits"
    using assms by (simp add: power_increasing)
  finally show ?thesis
    by (simp add: ParseUint_def FormatUint_def read_fmt_dec)
qed

lemma Atoi_Itoa [gostr_simps]: "in_int64 i \<Longrightarrow> Atoi (Itoa i) = Some i"
proof (cases "i < 0")
  case True
  assume "in_int64 i"
  with True show ?thesis
    by (simp add: Atoi_def FormatInt_def read_fmt_dec)
next
  case False
  assume range: "in_int64 i"
  obtain c cs where eq: "fmt_dec i = c # cs"
    by (cases "fmt_dec i") auto
  have read: "read_dec 0 (c # cs) = Some i"
    using read_fmt_dec [of i] False unfolding eq by simp
  show ?thesis
    using False range fmt_dec_hd [OF _ eq] read
    by (simp add: Atoi_def FormatInt_def eq del: read_dec.simps)
qed

section \<open>Strings\<close>

text \<open>\<^verbatim>\<open>strings.Join\<close>, \<^verbatim>\<open>strings.TrimSuffix\<close> and \<^verbatim>\<open>strings.Split\<close> (non-empty separator).\<close>

fun Join :: "string list \<Rightarrow> string \<Rightarrow> string" where
  "Join [] sep = []"
| "Join [s] sep = s"
| "Join (s # t # ss) sep = s @ sep @ Join (t # ss) sep"

definition has_suffix :: "'a list \<Rightarrow> 'a list \<Rightarrow> bool" where
  "has_suffix s suf \<longleftrightarrow>
     length suf \<le> length s \<and> drop (length s - length suf) s = suf"

definition TrimSuffix :: "string \<Rightarrow> string \<Rightarrow> string" where
  "TrimSuffix s suf = (if has_suffix s suf then take (length s - length suf) s else s)"

function Split_acc :: "string \<Rightarrow> string \<Rightarrow> string \<Rightarrow> string list" where
  "Split_acc sep cur [] = [rev cur]"
| "Split_acc sep cur (c # cs) =
     (if sep \<noteq> [] \<and> take (length sep) (c # cs) = sep
      then rev cur # Split_acc sep [] (drop (length sep) (c # cs))
      else Split_acc sep (c # cur) cs)"
  by pat_completeness auto
termination
  by (relation "measure (\<lambda>(sep, cur, s). length s)")
     (auto simp: Suc_le_eq)

definition Split :: "string \<Rightarrow> string \<Rightarrow> string list" where
  "Split s sep = Split_acc sep [] s"

lemma Split_acc_nonempty [simp]: "Split_acc sep cur s \<noteq> []"
  by (induction sep cur s rule: Split_acc.induct) auto

lemma Split_nonempty [simp]: "Split s sep \<noteq> []"
  by (simp add: Split_def)

lemma Join_append:
  "xs \<noteq> [] \<Longrightarrow> ys \<noteq> [] \<Longrightarrow> Join (xs @ ys) sep = Join xs sep @ sep @ Join ys sep"
proof (induction xs sep rule: Join.induct)
  case (2 s sep)
  then show ?case by (cases ys) simp_all
qed simp_all

text \<open>A Go slice expression \<^verbatim>\<open>s[i:j]\<close> panics when the bounds do not fit.\<close>

definition slice :: "'a list \<Rightarrow> int \<Rightarrow> int \<Rightarrow> 'a list result" where
  "slice s i j =
     (if 0 \<le> i \<and> i \<le> j \<and> j \<le> int (length s)
      then Inr (take (nat j - nat i) (drop (nat i) s)) else Inl SliceBounds)"

section \<open>Sorting\<close>

text \<open>\<^verbatim>\<open>sort.SliceStable\<close> with the order \<^verbatim>\<open>>\<close> on numbers: equal numbers are the same value, so
  stability cannot be observed.\<close>

definition sort_desc :: "'a::linorder list \<Rightarrow> 'a list" where
  "sort_desc xs = rev (sort xs)"

lemma sort_desc_props:
  "mset (sort_desc xs) = mset xs \<and> sorted_wrt (\<ge>) (sort_desc xs)"
  by (simp add: sort_desc_def sorted_wrt_rev)

lemma set_sort_desc [simp]: "set (sort_desc xs) = set xs"
  by (simp add: sort_desc_def)

lemma distinct_sort_desc [simp]: "distinct (sort_desc xs) = distinct xs"
  by (simp add: sort_desc_def)

lemma sort_desc_strict:
  assumes "distinct xs"
  shows "sorted_wrt (>) (sort_desc xs)"
proof -
  have "sorted_wrt (<) (sort xs)"
    using assms by (simp add: strict_sorted_iff)
  then show ?thesis
    by (simp add: sort_desc_def sorted_wrt_rev)
qed

lemma concat_singletons: "concat (map (\<lambda>x. if P x then [f x] else []) xs) = map f (filter P xs)"
  by (induction xs) auto

end
