(* ===== verification/Float64.thy ===== *)
theory Float64
  imports Prelude "HOL-Library.Log_Nat"
begin

text \<open>
  Go's \<^verbatim>\<open>float64\<close> where the program uses it: percentages of connected peers and the lengths of
  time intervals. A value is the rational number it denotes, and every operation is the exact
  one followed by \<open>fl\<close>, rounding to the nearest number with a 53-bit significand, ties to even
  (IEEE 754 binary64; the magnitudes that occur are far from overflow and underflow).
\<close>

section \<open>Rounding\<close>

definition pow2 :: "int \<Rightarrow> rat" where
  "pow2 e = (if 0 \<le> e then 2 ^ nat e else 1 / 2 ^ nat (- e))"

text \<open>The exponent of a positive number: \<open>pow2 (flog2 x) \<le> x < pow2 (flog2 x + 1)\<close>.\<close>

definition flog2 :: "rat \<Rightarrow> int" where
  "flog2 x =
     (let (n, d) = quotient_of x; k = bitlen n - bitlen d
      in if pow2 k \<le> x then k else k - 1)"

text \<open>The nearest integer, the even one of two equally near.\<close>

definition round_even :: "rat \<Rightarrow> int" where
  "round_even x =
     (let f = \<lfloor>x\<rfloor>; r = x - of_int f
      in if r < 1 / 2 \<or> (r = 1 / 2 \<and> even f) then f else f + 1)"

definition flpos :: "rat \<Rightarrow> rat" where
  "flpos x = (let u = pow2 (flog2 x - 52) in of_int (round_even (x / u)) * u)"

definition fl :: "rat \<Rightarrow> rat" where
  "fl x = (if x = 0 then 0 else if x < 0 then - flpos (- x) else flpos x)"

text \<open>
  Conversions: \<^verbatim>\<open>float64(i)\<close>; \<^verbatim>\<open>int(x)\<close> and \<^verbatim>\<open>uint64(x)\<close> drop the fraction. Outside the
  range of \<^verbatim>\<open>int64\<close> the language leaves \<^verbatim>\<open>int(x)\<close> to the implementation; the value is the one
  amd64 gives.
\<close>

definition float_of_int :: "int \<Rightarrow> rat" where
  "float_of_int i = fl (of_int i)"

definition trunc :: "rat \<Rightarrow> int" where
  "trunc x = (if x < 0 then - \<lfloor>- x\<rfloor> else \<lfloor>x\<rfloor>)"

definition int_of_float :: "rat \<Rightarrow> int" where
  "int_of_float x = (if in_int64 (trunc x) then trunc x else - (2 ^ 63))"

definition u64_of_float :: "rat \<Rightarrow> u64" where
  "u64_of_float x = word_of_int (trunc x)"

section \<open>Laws of rounding\<close>

lemma pow2_pos [simp]: "0 < pow2 e"
  by (simp add: pow2_def)

lemma pow2_add: "pow2 (a + b) = pow2 a * pow2 b"
proof -
  have "pow2 e = 2 powi e" for e
    by (simp add: pow2_def power_int_def field_simps)
  then show ?thesis by (simp add: power_int_add)
qed

lemma pow2_nat [simp]: "pow2 (int n) = 2 ^ n"
  by (simp add: pow2_def)

lemma pow2_0 [simp]: "pow2 0 = 1"
  by (simp add: pow2_def)

lemma pow2_mono: "a \<le> b \<Longrightarrow> pow2 a \<le> pow2 b"
proof -
  assume "a \<le> b"
  then have "pow2 b = pow2 a * 2 ^ nat (b - a)"
    using pow2_add [of a "b - a"] by (simp add: pow2_def)
  then show ?thesis by simp
qed

lemma flog2_bounds:
  assumes "0 < x"
  shows "pow2 (flog2 x) \<le> x \<and> x < pow2 (flog2 x + 1)"
proof -
  obtain n d where q: "quotient_of x = (n, d)" by fastforce
  have x: "x = of_int n / of_int d" and d: "0 < d"
    using quotient_of_div [OF q] quotient_of_denom_pos [OF q] by auto
  with assms have n: "0 < n" by (simp add: zero_less_divide_iff)
  have bits: "2 ^ nat (bitlen m - 1) \<le> m \<and> m < 2 ^ nat (bitlen m)" "0 < bitlen m"
    if "0 < m" for m :: int
    using bitlen_bounds [OF that] bitlen_eq_zero_iff [of m] bitlen_nonneg [of m] that
    by linarith+
  have r: "pow2 (bitlen m - 1) \<le> of_int m \<and> of_int m < pow2 (bitlen m)" if "0 < m" for m :: int
  proof -
    have "of_int (2 ^ nat (bitlen m - 1)) \<le> (of_int m :: rat)"
      and "(of_int m :: rat) < of_int (2 ^ nat (bitlen m))"
      using bits(1) [OF that] by (simp_all only: of_int_le_iff of_int_less_iff)
    with bits(2) [OF that] show ?thesis by (simp add: pow2_def)
  qed
  let ?k = "bitlen n - bitlen d"
  have low: "pow2 (?k - 1) < x"
  proof -
    have "pow2 (?k - 1) * of_int d < pow2 (?k - 1) * pow2 (bitlen d)"
      using r [OF d] by simp
    also have "\<dots> = pow2 (bitlen n - 1)"
      by (simp flip: pow2_add)
    also have "\<dots> \<le> of_int n" using r [OF n] by simp
    finally show ?thesis using d by (simp add: x pos_less_divide_eq)
  qed
  have high: "x < pow2 (?k + 1)"
  proof -
    have "of_int n < pow2 (bitlen n)" using r [OF n] by simp
    also have "\<dots> = pow2 (?k + 1) * pow2 (bitlen d - 1)"
      by (simp flip: pow2_add)
    also have "\<dots> \<le> pow2 (?k + 1) * of_int d"
      using r [OF d] by simp
    finally show ?thesis using d by (simp add: x pos_divide_less_eq)
  qed
  show ?thesis
    using low high by (auto simp: flog2_def q Let_def)
qed

lemma flog2_unique:
  assumes "pow2 e \<le> x" and "x < pow2 (e + 1)"
  shows "flog2 x = e"
proof -
  have pos: "0 < x" using assms(1) pow2_pos [of e] by linarith
  note b = flog2_bounds [OF pos]
  have "\<not> flog2 x + 1 \<le> e"
    using b assms(1) pow2_mono [of "flog2 x + 1" e] by linarith
  moreover have "\<not> e + 1 \<le> flog2 x"
    using b assms(2) pow2_mono [of "e + 1" "flog2 x"] by linarith
  ultimately show ?thesis by linarith
qed

lemma flog2_mono: "0 < x \<Longrightarrow> x \<le> y \<Longrightarrow> flog2 x \<le> flog2 y"
  using flog2_bounds [of x] flog2_bounds [of y] pow2_mono [of "flog2 y + 1" "flog2 x"]
  by linarith

subsection \<open>The nearest integer\<close>

lemma round_even_int [simp]: "round_even (of_int i) = i"
  by (simp add: round_even_def Let_def)

lemma round_even_error: "\<bar>of_int (round_even x) - x\<bar> \<le> 1 / 2"
proof -
  have "of_int \<lfloor>x\<rfloor> \<le> x" "x < of_int \<lfloor>x\<rfloor> + 1" by linarith+
  then show ?thesis
    by (auto simp: round_even_def Let_def abs_le_iff)
qed

lemma round_even_mono: "x \<le> y \<Longrightarrow> round_even x \<le> round_even y"
proof (cases "\<lfloor>x\<rfloor> = \<lfloor>y\<rfloor>")
  case True
  assume "x \<le> y"
  with True show ?thesis by (auto simp: round_even_def Let_def)
next
  case False
  assume "x \<le> y"
  with False have "\<lfloor>x\<rfloor> + 1 \<le> \<lfloor>y\<rfloor>" using floor_mono [of x y] by linarith
  then show ?thesis by (auto simp: round_even_def Let_def)
qed

subsection \<open>Rounding is exact on small integers, monotone and near\<close>

lemma flpos_pow2_bounds:
  assumes "0 < x"
  shows "pow2 (flog2 x) \<le> flpos x \<and> flpos x \<le> pow2 (flog2 x + 1)"
proof -
  let ?u = "pow2 (flog2 x - 52)"
  have up: "pow2 (flog2 x) = of_int (2 ^ 52) * ?u"
    "pow2 (flog2 x + 1) = of_int (2 ^ 53) * ?u"
    using pow2_add [of 52 "flog2 x - 52"] pow2_add [of 53 "flog2 x - 52"]
      pow2_nat [of 52] pow2_nat [of 53] by (simp_all add: add.commute)
  have "of_int (2 ^ 52) \<le> x / ?u" "x / ?u \<le> of_int (2 ^ 53)"
    using flog2_bounds [OF assms] unfolding up by (simp_all add: field_simps)
  then have "2 ^ 52 \<le> round_even (x / ?u)" "round_even (x / ?u) \<le> 2 ^ 53"
    using round_even_mono round_even_int by metis+
  then have "of_int (2 ^ 52) \<le> (of_int (round_even (x / ?u)) :: rat)"
    "(of_int (round_even (x / ?u)) :: rat) \<le> of_int (2 ^ 53)"
    by (simp_all only: of_int_le_iff)
  then show ?thesis
    unfolding flpos_def Let_def up by (simp add: mult_right_mono)
qed

lemma flpos_mono: "0 < x \<Longrightarrow> x \<le> y \<Longrightarrow> flpos x \<le> flpos y"
proof (cases "flog2 x = flog2 y")
  case True
  assume "0 < x" "x \<le> y"
  have "x / pow2 (flog2 y - 52) \<le> y / pow2 (flog2 y - 52)"
    using \<open>x \<le> y\<close> by (simp add: divide_right_mono less_imp_le)
  then show ?thesis
    using round_even_mono True by (simp add: flpos_def Let_def)
next
  case False
  assume *: "0 < x" "x \<le> y"
  then have "flog2 x + 1 \<le> flog2 y" using flog2_mono [OF *] False by linarith
  then have "flpos x \<le> pow2 (flog2 y)"
    using flpos_pow2_bounds [OF *(1)] pow2_mono by (meson order_trans)
  also have "\<dots> \<le> flpos y" using flpos_pow2_bounds [of y] * by simp
  finally show ?thesis .
qed

lemma flpos_pos: "0 < x \<Longrightarrow> 0 < flpos x"
  using flpos_pow2_bounds [of x] pow2_pos [of "flog2 x"] by linarith

lemma fl_0 [simp]: "fl 0 = 0"
  by (simp add: fl_def)

lemma fl_nonneg: "0 \<le> x \<Longrightarrow> 0 \<le> fl x"
  using flpos_pos [of x] by (auto simp: fl_def)

lemma fl_mono: "0 \<le> x \<Longrightarrow> x \<le> y \<Longrightarrow> fl x \<le> fl y"
  using flpos_mono [of x y] flpos_pos [of y] by (auto simp: fl_def)

lemma fl_error: "0 < x \<Longrightarrow> \<bar>fl x - x\<bar> \<le> pow2 (flog2 x - 53)"
proof -
  assume "0 < x"
  let ?u = "pow2 (flog2 x - 52)"
  have "fl x - x = (of_int (round_even (x / ?u)) - x / ?u) * ?u"
    using \<open>0 < x\<close> pow2_pos [of "flog2 x - 52"]
    by (simp add: fl_def flpos_def Let_def left_diff_distrib less_imp_neq [symmetric])
  then have "\<bar>fl x - x\<bar> \<le> 1 / 2 * ?u"
    using mult_right_mono [OF round_even_error [of "x / ?u"], of ?u] less_imp_le [OF pow2_pos]
    by (simp add: abs_mult)
  also have "1 / 2 * ?u = pow2 (flog2 x - 53)"
    using pow2_add [of "-1" "flog2 x - 52"] by (simp add: pow2_def [of "-1"])
  finally show ?thesis .
qed

lemma fl_int [simp]:
  assumes "0 \<le> i" and "i \<le> 2 ^ 53"
  shows "fl (of_int i) = of_int i"
proof (cases "i = 0 \<or> i = 2 ^ 53")
  case True
  then show ?thesis
  proof
    assume i: "i = 2 ^ 53"
    have "flog2 (of_int i) = 53"
      using pow2_nat [of 53] pow2_nat [of 54] by (intro flog2_unique) (simp_all add: i)
    then have "flpos (of_int i) = of_int (round_even (of_int (2 ^ 52))) * pow2 1"
      using pow2_nat [of 1] by (simp add: flpos_def Let_def i)
    then show ?thesis using pow2_nat [of 1] unfolding round_even_int by (simp add: fl_def i)
  qed simp
next
  case False
  with assms have i: "0 < i" "i < 2 ^ 53" by auto
  define u where "u = pow2 (flog2 (of_int i) - 52)"
  have "flog2 (of_int i) \<le> 52"
  proof -
    have "of_int i < pow2 53"
      using i pow2_nat [of 53] by (metis of_int_less_iff of_int_numeral of_int_power of_nat_numeral)
    then have "\<not> 53 \<le> flog2 (of_int i)"
      using flog2_bounds [of "of_int i"] i pow2_mono [of 53 "flog2 (of_int i)"] by auto
    then show ?thesis by simp
  qed
  then have u: "u = 1 / 2 ^ nat (52 - flog2 (of_int i))"
    unfolding u_def pow2_def by auto
  have "of_int i / u = of_int (i * 2 ^ nat (52 - flog2 (of_int i)))"
    by (simp add: u)
  then have "round_even (of_int i / u) = i * 2 ^ nat (52 - flog2 (of_int i))"
    by (simp only: round_even_int)
  then show ?thesis
    using i by (simp add: fl_def flpos_def Let_def u flip: u_def)
qed

end
