(* ===== verification/GoTime.thy ===== *)
theory GoTime
  imports Float64
begin

text \<open>
  Package time where the program uses it. An instant is the number of nanoseconds since the
  Unix epoch, a \<^verbatim>\<open>time.Duration\<close> a number of nanoseconds that fits 64 bits.
\<close>

section \<open>Durations\<close>

abbreviation (input) "second_ns \<equiv> (1000000000 :: int)"
abbreviation (input) "minute_ns \<equiv> (60000000000 :: int)"

text \<open>\<^verbatim>\<open>time.Unix(sec, 0)\<close> and \<^verbatim>\<open>t.Sub(u)\<close>, which saturates.\<close>

definition time_Unix :: "int \<Rightarrow> int" where
  "time_Unix sec = sec * second_ns"

definition time_Sub :: "int \<Rightarrow> int \<Rightarrow> int" where
  "time_Sub t u = max (- (2 ^ 63)) (min (2 ^ 63 - 1) (t - u))"

text \<open>Division of the language truncates towards zero.\<close>

definition quot :: "int \<Rightarrow> int \<Rightarrow> int" where
  "quot a b = (if a < 0 then - (- a div b) else a div b)"

definition rem :: "int \<Rightarrow> int \<Rightarrow> int" where
  "rem a b = a - quot a b * b"

text \<open>\<^verbatim>\<open>d.Seconds()\<close> and \<^verbatim>\<open>d.Minutes()\<close>: whole units plus the fraction, each rounded.\<close>

definition duration_Seconds :: "int \<Rightarrow> rat" where
  "duration_Seconds d =
     fl (float_of_int (quot d second_ns) + fl (float_of_int (rem d second_ns) / 1000000000))"

definition duration_Minutes :: "int \<Rightarrow> rat" where
  "duration_Minutes d =
     fl (float_of_int (quot d minute_ns) + fl (float_of_int (rem d minute_ns) / 60000000000))"

lemma time_Sub_exact: "in_int64 (t - u) \<Longrightarrow> time_Sub t u = t - u"
  by (auto simp: time_Sub_def in_int64_def)

lemma time_Sub_nonneg: "u \<le> t \<Longrightarrow> 0 \<le> time_Sub t u"
  by (simp add: time_Sub_def)

lemma time_Sub_range: "in_int64 (time_Sub t u)"
  by (auto simp: time_Sub_def in_int64_def)

lemma seconds_parts:
  assumes "0 \<le> d" and "d < 2 ^ 63"
  defines "s \<equiv> d div second_ns" and "r \<equiv> d mod second_ns"
  shows "duration_Seconds d = fl (of_int s + fl (of_int r / 1000000000))"
proof -
  have "0 \<le> s" "s \<le> 2 ^ 53" "0 \<le> r" "r < second_ns"
    using assms by (auto simp: pos_imp_zdiv_nonneg_iff)
  then have "float_of_int s = of_int s" "float_of_int r = of_int r"
    by (auto simp: float_of_int_def)
  moreover have "quot d second_ns = s" "rem d second_ns = r"
    using assms by (simp_all add: quot_def rem_def minus_div_mult_eq_mod)
  ultimately show ?thesis by (simp add: duration_Seconds_def)
qed

text \<open>The fraction of a second stays below one second, by more than the rounding can add.\<close>

lemma fraction_bound:
  assumes "0 \<le> r" and "r < second_ns"
  shows "0 \<le> fl (of_int r / 1000000000) \<and> fl (of_int r / 1000000000) \<le> 1 - 9 / 10 ^ 10"
proof -
  let ?x = "of_int r / 1000000000 :: rat"
  have x: "0 \<le> ?x" "?x \<le> 999999999 / 1000000000"
    using assms by (simp_all add: divide_right_mono)
  have "flog2 (999999999 / 1000000000) = - 1"
    by (rule flog2_unique) (simp_all add: pow2_def)
  then have "fl (999999999 / 1000000000) \<le> 999999999 / 1000000000 + pow2 (- 54)"
    using fl_error [of "999999999 / 1000000000"] by (simp add: abs_le_iff)
  moreover have "fl ?x \<le> fl (999999999 / 1000000000)"
    by (rule fl_mono [OF x])
  ultimately have "fl ?x \<le> 1 - 9 / 10 ^ 10"
    by (simp add: pow2_def)
  with fl_nonneg [OF x(1)] show ?thesis by simp
qed

text \<open>
  The number of whole seconds the program computes with \<^verbatim>\<open>uint64(d.Seconds())\<close> is exact for
  intervals below \<open>2 ^ 22\<close> seconds (48 days) and at most one too large beyond.
\<close>

text \<open>Below 2 to the 22 seconds the rounded sum stays below the next whole second.\<close>

lemma fl_below_next:
  assumes "0 \<le> s" and "s < 2 ^ 22" and "0 \<le> f" and "f \<le> 1 - 9 / 10 ^ 10"
  shows "fl (of_int s + f) < of_int s + 1"
proof (cases "of_int s + f = 0")
  case True
  then show ?thesis using assms(1) by simp
next
  case False
  then have pos: "0 < of_int s + f" using assms(1,3) by (simp add: less_le)
  have "of_int s \<le> (of_int (2 ^ 22 - 1) :: rat)"
    using assms(2) by (simp only: of_int_le_iff)
  then have "of_int s + f < pow2 22"
    using assms(4) pow2_nat [of 22] by simp
  then have "\<not> 22 \<le> flog2 (of_int s + f)"
    using flog2_bounds [OF pos] pow2_mono [of 22 "flog2 (of_int s + f)"] by auto
  then have "pow2 (flog2 (of_int s + f) - 53) \<le> pow2 (- 32)"
    by (intro pow2_mono) simp
  also have "\<dots> \<le> 3 / 10 ^ 10" by (simp add: pow2_def)
  finally have "fl (of_int s + f) \<le> of_int s + f + 3 / 10 ^ 10"
    using fl_error [OF pos] by (simp add: abs_le_iff)
  with assms(4) show ?thesis by simp
qed

lemma trunc_seconds:
  assumes "0 \<le> d" and "d < 2 ^ 63"
  shows "d div second_ns \<le> trunc (duration_Seconds d)"
    and "trunc (duration_Seconds d) \<le> d div second_ns + 1"
    and "d div second_ns < 2 ^ 22 \<Longrightarrow> trunc (duration_Seconds d) = d div second_ns"
proof -
  define s r where "s = d div second_ns" and "r = d mod second_ns"
  define f where "f = fl (of_int r / 1000000000)"
  have sr: "0 \<le> s" "s + 1 \<le> 2 ^ 53" "0 \<le> r" "r < second_ns"
    using assms by (auto simp: s_def r_def pos_imp_zdiv_nonneg_iff)
  have f: "0 \<le> f" "f \<le> 1 - 9 / 10 ^ 10"
    using fraction_bound [of r] sr by (simp_all add: f_def)
  have sec: "duration_Seconds d = fl (of_int s + f)"
    using seconds_parts [OF assms] by (simp add: s_def r_def f_def)
  have low: "of_int s \<le> fl (of_int s + f)"
    using fl_mono [of "of_int s" "of_int s + f"] f sr by simp
  have "fl (of_int s + f) \<le> fl (of_int (s + 1))"
    using sr f by (intro fl_mono) simp_all
  also have "\<dots> = of_int (s + 1)" using sr by (intro fl_int) simp_all
  finally have high: "fl (of_int s + f) \<le> of_int (s + 1)" .
  have nonneg: "0 \<le> duration_Seconds d"
    using low sr unfolding sec by (metis of_int_0_le_iff order_trans)
  then have tr: "trunc (duration_Seconds d) = \<lfloor>fl (of_int s + f)\<rfloor>"
    by (simp add: trunc_def sec)
  show "d div second_ns \<le> trunc (duration_Seconds d)"
    using low by (simp add: tr le_floor_iff flip: s_def)
  show "trunc (duration_Seconds d) \<le> d div second_ns + 1"
    using high by (simp add: tr floor_le_iff flip: s_def)
  assume small: "d div second_ns < 2 ^ 22"
  have "fl (of_int s + f) < of_int s + 1"
    by (rule fl_below_next) (use sr f small in \<open>simp_all flip: s_def\<close>)
  with low show "trunc (duration_Seconds d) = d div second_ns"
    by (simp add: tr floor_eq_iff flip: s_def)
qed

section \<open>Formatting an instant\<close>

definition two_digits :: "int \<Rightarrow> string" where
  "two_digits n = (if n < 10 then CHR ''0'' # fmt_dec n else fmt_dec n)"

definition month_name :: "int \<Rightarrow> string" where
  "month_name m =
     [''Jan'', ''Feb'', ''Mar'', ''Apr'', ''May'', ''Jun'', ''Jul'', ''Aug'', ''Sep'', ''Oct'',
      ''Nov'', ''Dec''] ! nat (m - 1)"

text \<open>Month (1 to 12) and day (1 to 31) of a day number counted from 1 January 1970.\<close>

definition month_day :: "int \<Rightarrow> int \<times> int" where
  "month_day days =
     (let z = days + 719468;
          doe = z mod 146097;
          yoe = (doe - doe div 1460 + doe div 36524 - doe div 146096) div 365;
          doy = doe - (365 * yoe + yoe div 4 - yoe div 100);
          mp = (5 * doy + 2) div 153
      in (if mp < 10 then mp + 3 else mp - 9, doy - (153 * mp + 2) div 5 + 1))"

text \<open>\<^verbatim>\<open>t.Format("15:04:05 Jan _2 MST")\<close> of an instant in UTC.\<close>

definition format_time :: "int \<Rightarrow> string" where
  "format_time t =
     (let secs = t div second_ns; days = secs div 86400; sod = secs mod 86400;
          (m, d) = month_day days
      in two_digits (sod div 3600) @ '':'' @ two_digits (sod mod 3600 div 60) @ '':'' @
         two_digits (sod mod 60) @ '' '' @ month_name m @ '' '' @
         (if d < 10 then '' '' else []) @ fmt_dec d @ '' UTC'')"

text \<open>\<^verbatim>\<open>uint64(d.Seconds())\<close> is the number of whole seconds, below \<open>2 ^ 22\<close> seconds.\<close>

lemma seconds_word:
  assumes "0 \<le> d" and "d < 2 ^ 22 * 1000000000"
  shows "uint (u64_of_float (duration_Seconds d)) = d div 1000000000"
proof -
  have s: "d div 1000000000 < 2 ^ 22" "0 \<le> d div 1000000000"
    using assms by (simp_all add: div_less_iff_less_mult pos_imp_zdiv_nonneg_iff)
  have "trunc (duration_Seconds d) = d div 1000000000"
    by (rule trunc_seconds(3) [OF assms(1) _ s(1)]) (use assms(2) in simp)
  then show ?thesis
    using s by (simp add: u64_of_float_def uint_word_of_int_eq take_bit_int_eq_self_iff)
qed

end
