(* ===== verification/Alerts.thy ===== *)
theory Alerts
  imports GoTime
begin

text \<open>
  \<^verbatim>\<open>alerts.go\<close> (the message formats), \<^verbatim>\<open>pager.go\<close> (the event handed to PagerDuty) and the
  part of \<^verbatim>\<open>fmt.Sprintf\<close> they use. The PagerDuty client is the parameter \<open>pd\<close>: the error its
  \<^verbatim>\<open>ManageEvent\<close> returns for an event, if any.
\<close>

section \<open>fmt.Sprintf\<close>

text \<open>An operand: a string, an integer with the name of its Go type, or a float64.\<close>

datatype fmtarg = AStr string | AInt string int | AFloat rat

text \<open>\<^verbatim>\<open>%f\<close>: six decimals, correctly rounded.\<close>

definition fmt_f :: "rat \<Rightarrow> string" where
  "fmt_f x =
     (let q = round_even (\<bar>x\<bar> * 1000000); frac = fmt_dec (q mod 1000000)
      in (if x < 0 then ''-'' else []) @ fmt_dec (q div 1000000) @ ''.'' @
         replicate (6 - length frac) (CHR ''0'') @ frac)"

fun type_value :: "fmtarg \<Rightarrow> string" where
  "type_value (AStr s) = ''string='' @ s"
| "type_value (AInt ty i) = ty @ ''='' @ FormatInt i"
| "type_value (AFloat x) = ''float64='' @ fmt_f x"

text \<open>
  One operand under one verb. An operand that does not fit the verb prints as
  \<^verbatim>\<open>%!verb(type=value)\<close>. (No format of the program gives a float to another verb than
  \<^verbatim>\<open>%f\<close>, so the rendering of a float in that case is never used: \<open>alert_formats_ok\<close>.)
\<close>

definition fmt_verb :: "char \<Rightarrow> fmtarg \<Rightarrow> string" where
  "fmt_verb v a =
     (case a of
        AStr s \<Rightarrow> if v = CHR ''s'' \<or> v = CHR ''v'' then s else ''%!'' @ [v] @ ''('' @ type_value a @ '')''
      | AInt ty i \<Rightarrow>
          if v = CHR ''d'' \<or> v = CHR ''v'' then FormatInt i
          else ''%!'' @ [v] @ ''('' @ type_value a @ '')''
      | AFloat x \<Rightarrow>
          if v = CHR ''f'' then fmt_f x else ''%!'' @ [v] @ ''('' @ type_value a @ '')'')"

fun Sprintf :: "string \<Rightarrow> fmtarg list \<Rightarrow> string" where
  "Sprintf [] [] = []"
| "Sprintf [] (a # as) = ''%!(EXTRA '' @ Join (map type_value (a # as)) '', '' @ '')''"
| "Sprintf [c] as = (if c = CHR ''%'' then ''%!(NOVERB)'' else [c]) @ Sprintf [] as"
| "Sprintf (c # v # cs) as =
     (if c \<noteq> CHR ''%'' then c # Sprintf (v # cs) as
      else if v = CHR ''%'' then CHR ''%'' # Sprintf cs as
      else case as of
        [] \<Rightarrow> ''%!'' @ [v] @ ''(MISSING)'' @ Sprintf cs []
      | a # as' \<Rightarrow> fmt_verb v a @ Sprintf cs as')"

text \<open>The verbs of a format in order, and whether a list of operands fits them.\<close>

fun verbs :: "string \<Rightarrow> char list" where
  "verbs [] = []"
| "verbs [c] = []"
| "verbs (c # v # cs) =
     (if c \<noteq> CHR ''%'' then verbs (v # cs)
      else if v = CHR ''%'' then verbs cs else v # verbs cs)"

fun fits :: "char \<Rightarrow> fmtarg \<Rightarrow> bool" where
  "fits v (AStr s) = (v = CHR ''s'' \<or> v = CHR ''v'')"
| "fits v (AInt ty i) = (v = CHR ''d'' \<or> v = CHR ''v'')"
| "fits v (AFloat x) = (v = CHR ''f'')"

definition format_ok :: "string \<Rightarrow> fmtarg list \<Rightarrow> bool" where
  "format_ok f as \<longleftrightarrow> list_all2 fits (verbs f) as"

section \<open>Messages\<close>

definition consensusMessage :: string where
  "consensusMessage =
    ''\<newline>Consensus stuck on shard %s!\<newline>\<newline>Block height stuck at %d starting at %s\<newline>\<newline>Block Hash: %s\<newline>\<newline>Leader: %s\<newline>\<newline>ViewID: %d\<newline>\<newline>Epoch: %d\<newline>\<newline>Block Timestamp: %s\<newline>\<newline>LastCommitSig: %s\<newline>\<newline>LastCommitBitmap: %s\<newline>\<newline>Time since last new block: %d seconds (%f minutes)\<newline>\<newline>See: http://watchdog.hmny.io/report-%s\<newline>''"

definition crossShardTransactionMessage :: string where
  "crossShardTransactionMessage =
    ''\<newline>Cx Transaction Pool too large on shard %d!\<newline>\<newline>Count: %d\<newline>''"

definition crossLinkMessage :: string where
  "crossLinkMessage =
    ''\<newline>Haven't processed a cross link for shard %d in a while!\<newline>\<newline>Cross Link Hash: %s\<newline>\<newline>Shard %d Block: %d\<newline>\<newline>Shard %d Epoch: %d\<newline>\<newline>Signature: %s\<newline>\<newline>Signature Bitmap: %s\<newline>\<newline>Time since last processed cross link: %f seconds (%f minutes)\<newline>''"

definition blockHeightMessage :: string where
  "blockHeightMessage =
    ''\<newline>%s at block height %d, but shard height %d.\<newline>\<newline>Shard: %d\<newline>\<newline>Chain: %s\<newline>''"

definition p2pMessage :: string where
  "p2pMessage = ''\<newline>Shard: %s\<newline>\<newline>Avg Connectivity: %d\<newline>''"

definition beaconSyncMessage :: string where
  "beaconSyncMessage =
    ''\<newline>%s beacon at block height %d, but beacon height %d.\<newline>\<newline>Shard: %d\<newline>\<newline>Chain: %s\<newline>''"

lemmas alert_messages = consensusMessage_def crossShardTransactionMessage_def
  crossLinkMessage_def blockHeightMessage_def p2pMessage_def beaconSyncMessage_def

text \<open>The verbs of each format.\<close>

lemma verbs_consensus: "verbs consensusMessage = ''sdsssddsssdfs''"
  by (simp add: consensusMessage_def)

lemma verbs_cx: "verbs crossShardTransactionMessage = ''dd''"
  by (simp add: crossShardTransactionMessage_def)

lemma verbs_crossLink: "verbs crossLinkMessage = ''dsddddssff''"
  by (simp add: crossLinkMessage_def)

lemma verbs_blockHeight: "verbs blockHeightMessage = ''sddds''"
  by (simp add: blockHeightMessage_def)

lemma verbs_p2p: "verbs p2pMessage = ''sd''"
  by (simp add: p2pMessage_def)

lemma verbs_beaconSync: "verbs beaconSyncMessage = ''sddds''"
  by (simp add: beaconSyncMessage_def)

lemmas message_verbs = verbs_consensus verbs_cx verbs_crossLink verbs_blockHeight verbs_p2p
  verbs_beaconSync

text \<open>
  All formats but \<^verbatim>\<open>p2pMessage\<close> fit the operands that the monitors give them; that one is given two
  integers.
\<close>

lemma alert_formats_ok:
  "format_ok consensusMessage [AStr s1, AInt t2 i2, AStr s3, AStr s4, AStr s5, AInt t6 i6, AInt t7 i7, AStr s8, AStr s9,
     AStr s10, AInt t11 i11, AFloat x12, AStr s13]"
  "format_ok crossShardTransactionMessage [AInt t1 i1, AInt t2 i2]"
  "format_ok crossLinkMessage [AInt t1 i1, AStr s2, AInt t3 i3, AInt t4 i4, AInt t5 i5, AInt t6 i6, AStr s7, AStr s8,
     AFloat x9, AFloat x10]"
  "format_ok blockHeightMessage [AStr s1, AInt t2 i2, AInt t3 i3, AInt t4 i4, AStr s5]"
  "format_ok beaconSyncMessage [AStr s1, AInt t2 i2, AInt t3 i3, AInt t4 i4, AStr s5]"
  "\<not> format_ok p2pMessage [AInt t1 i1, AInt t2 i2]"
  by (simp_all add: format_ok_def message_verbs)

section \<open>Events\<close>

record V2Payload =
  v2_Summary :: string
  v2_Source :: string
  v2_Severity :: string
  v2_Details :: string

record V2Event =
  v2_RoutingKey :: string
  v2_Action :: string
  v2_DedupKey :: string
  v2_Payload :: V2Payload

definition notify :: "string \<Rightarrow> string \<Rightarrow> string \<Rightarrow> string \<Rightarrow> V2Event" where
  "notify serviceKey incidentKey chain msg =
     \<lparr>v2_RoutingKey = serviceKey, v2_Action = ''trigger'', v2_DedupKey = incidentKey,
      v2_Payload = \<lparr>v2_Summary = incidentKey, v2_Source = chain, v2_Severity = ''critical'',
        v2_Details = msg\<rparr>\<rparr>"

text \<open>
  What a monitor does to the outside world: it hands an event to PagerDuty and writes to one
  of the two logs.
\<close>

datatype action = Notify V2Event | ErrLog string | StdLog string

text \<open>
  The idiom of every monitor: notify, then log the error or the success (\<open>sent\<close> is the
  monitor's own prefix of the success message).
\<close>

definition raise_alert ::
  "(V2Event \<Rightarrow> string option) \<Rightarrow> string \<Rightarrow> string \<Rightarrow> string \<Rightarrow> string \<Rightarrow> string \<Rightarrow> action list" where
  "raise_alert pd sent serviceKey incidentKey chain msg =
     (let ev = notify serviceKey incidentKey chain msg
      in [Notify ev, (case pd ev of Some err \<Rightarrow> ErrLog err | None \<Rightarrow> StdLog (sent @ incidentKey))])"

text \<open>The events among a list of actions.\<close>

definition alerts :: "action list \<Rightarrow> V2Event list" where
  "alerts acts = concat (map (\<lambda>a. case a of Notify ev \<Rightarrow> [ev] | _ \<Rightarrow> []) acts)"

lemma alerts_Nil [simp]: "alerts [] = []"
  by (simp add: alerts_def)

lemma alerts_append [simp]: "alerts (xs @ ys) = alerts xs @ alerts ys"
  by (simp add: alerts_def)

lemma alerts_concat: "alerts (concat xss) = concat (map alerts xss)"
  by (induction xss) simp_all

lemma alerts_raise [simp]:
  "alerts (raise_alert pd sent key ik chain msg) = [notify key ik chain msg]"
  by (simp add: raise_alert_def alerts_def Let_def split: option.splits)

lemma notify_simps [simp]:
  "v2_DedupKey (notify key ik chain msg) = ik"
  "v2_RoutingKey (notify key ik chain msg) = key"
  "v2_Details (v2_Payload (notify key ik chain msg)) = msg"
  by (simp_all add: notify_def)

section \<open>Well-typed formats print every operand\<close>

text \<open>
  The literal pieces of a format around its verbs: a format with \<open>n\<close> verbs has \<open>n + 1\<close> of
  them.
\<close>

fun pieces :: "string \<Rightarrow> string list" where
  "pieces [] = [[]]"
| "pieces [c] = [[c]]"
| "pieces (c # v # cs) =
     (if c \<noteq> CHR ''%'' then (case pieces (v # cs) of p # ps \<Rightarrow> (c # p) # ps | [] \<Rightarrow> [[c]])
      else if v = CHR ''%'' then (case pieces cs of p # ps \<Rightarrow> (c # p) # ps | [] \<Rightarrow> [[c]])
      else [] # pieces cs)"

fun weave :: "string list \<Rightarrow> string list \<Rightarrow> string" where
  "weave (p # ps) (x # xs) = p @ x @ weave ps xs"
| "weave (p # ps) [] = p"
| "weave [] xs = []"

text \<open>What an operand prints as under a verb that fits it.\<close>

fun print_arg :: "fmtarg \<Rightarrow> string" where
  "print_arg (AStr s) = s"
| "print_arg (AInt ty i) = FormatInt i"
| "print_arg (AFloat x) = fmt_f x"

lemma fmt_verb_fits: "fits v a \<Longrightarrow> fmt_verb v a = print_arg a"
  by (cases a) (auto simp: fmt_verb_def)

lemma pieces_nonempty [simp]: "pieces f \<noteq> []"
  by (induction f rule: pieces.induct) (auto split: list.splits)

lemma weave_Cons_hd:
  "ps \<noteq> [] \<Longrightarrow> weave (case ps of p # qs \<Rightarrow> (c # p) # qs | [] \<Rightarrow> [[c]]) xs = c # weave ps xs"
  by (cases ps; cases xs) auto

lemma Sprintf_ok:
  "format_ok f as \<Longrightarrow> last f \<noteq> CHR ''%'' \<or> f = [] \<Longrightarrow>
   Sprintf f as = weave (pieces f) (map print_arg as)"
proof (induction f as rule: Sprintf.induct)
  case (4 c v cs as)
  note IH = 4(1-4)
  show ?case
  proof (cases "c = CHR ''%'' \<and> v \<noteq> CHR ''%''")
    case False
    with 4 show ?thesis
      by (auto simp: format_ok_def weave_Cons_hd split: if_splits)
  next
    case True
    then obtain a as' where "as = a # as'" "fits v a" "format_ok cs as'"
      using 4(5) by (cases as) (auto simp: format_ok_def)
    with True 4 show ?thesis
      by (auto simp: fmt_verb_fits format_ok_def split: if_splits)
  qed
qed (auto simp: format_ok_def)

end
