(* ===== verification/Stall.thy ===== *)
theory Stall
  imports Alerts
begin

text \<open>
  What \<^verbatim>\<open>consensusMonitor\<close> and \<^verbatim>\<open>crossLinkMonitor\<close> have in common: both remember a height per
  shard, go over the observations of a tick, and alert when a height has not grown for too long.
  \<open>watch\<close> is the loop, \<open>stall_monitor\<close> the contract of its body.
\<close>

fun watch :: "('o \<Rightarrow> 'st \<Rightarrow> 'st \<times> action list) \<Rightarrow> 'o list \<Rightarrow> 'st \<Rightarrow> 'st \<times> action list" where
  "watch check [] st = (st, [])"
| "watch check (x # xs) st =
     (let (st, acts) = check x st; (st, acts') = watch check xs st in (st, acts @ acts'))"

lemma watch_append:
  "watch check (xs @ ys) st =
     (let (st, acts) = watch check xs st; (st, acts') = watch check ys st in (st, acts @ acts'))"
  by (induction xs arbitrary: st) (simp_all add: case_prod_beta Let_def)

text \<open>The deduplication keys of the alerts among some actions.\<close>

definition topics :: "action list \<Rightarrow> string list" where
  "topics acts = map v2_DedupKey (alerts acts)"

lemma topics_simps [simp]:
  "topics [] = []"
  "topics (acts @ acts') = topics acts @ topics acts'"
  "topics (raise_alert pd sent key ik chain msg) = [ik]"
  by (simp_all add: topics_def)

text \<open>
  The observations of one key grow: each is above the height that was recorded before it, if
  there was one.
\<close>

fun growing :: "('o \<Rightarrow> 'k) \<Rightarrow> ('o \<Rightarrow> 'h::linorder) \<Rightarrow> 'k \<Rightarrow> 'h option \<Rightarrow> 'o list \<Rightarrow> bool" where
  "growing key height k prev [] = True"
| "growing key height k prev (x # xs) =
     (if key x = k
      then (case prev of None \<Rightarrow> True | Some h \<Rightarrow> h < height x) \<and>
           growing key height k (Some (height x)) xs
      else growing key height k prev xs)"

locale stall_monitor =
  fixes check :: "'o \<Rightarrow> 'st \<Rightarrow> 'st \<times> action list"
    and key :: "'o \<Rightarrow> 'k"
    and height :: "'o \<Rightarrow> 'h::linorder"
    and recorded :: "'st \<Rightarrow> 'k \<Rightarrow> 'h option"
    and topic :: "'k \<Rightarrow> string"
  assumes frame: "k \<noteq> key x \<Longrightarrow> recorded (fst (check x st)) k = recorded st k"
    and progress: "(case recorded st (key x) of None \<Rightarrow> True | Some h \<Rightarrow> h < height x) \<Longrightarrow>
      topics (snd (check x st)) = [] \<and> recorded (fst (check x st)) (key x) = Some (height x)"
    and alarm: "topics (snd (check x st)) \<noteq> [] \<Longrightarrow>
      topics (snd (check x st)) = [topic (key x)] \<and>
      recorded (fst (check x st)) (key x) = recorded st (key x)"
    and topic_inject: "topic k = topic k' \<Longrightarrow> k = k'"
begin

lemma check_topics: "set (topics (snd (check x st))) \<subseteq> {topic (key x)}"
  using alarm [of x st] by (cases "topics (snd (check x st)) = []") auto

text \<open>Keys that are not observed stay as they are and raise no alert.\<close>

lemma unobserved:
  "k \<notin> key ` set xs \<Longrightarrow>
   recorded (fst (watch check xs st)) k = recorded st k \<and> topic k \<notin> set (topics (snd (watch check xs st)))"
proof (induction xs arbitrary: st)
  case (Cons x xs)
  have "topic k \<notin> set (topics (snd (check x st)))"
    using check_topics [of x st] topic_inject [of k "key x"] Cons.prems by auto
  then show ?case
    using Cons.IH [of "fst (check x st)"] Cons.prems frame [of k x st]
    by (simp add: case_prod_beta Let_def)
qed simp

text \<open>A key whose height grows at every observation is never reported.\<close>

lemma growing_no_alert:
  "growing key height k (recorded st k) xs \<Longrightarrow> topic k \<notin> set (topics (snd (watch check xs st)))"
proof (induction xs arbitrary: st)
  case (Cons x xs)
  let ?st = "fst (check x st)"
  show ?case
  proof (cases "key x = k")
    case True
    then have p: "topics (snd (check x st)) = []" "recorded ?st k = Some (height x)"
      using progress [where st = st and x = x] Cons.prems by auto
    then have "growing key height k (recorded ?st k) xs"
      using Cons.prems True by simp
    from Cons.IH [OF this] p show ?thesis by (simp add: case_prod_beta Let_def)
  next
    case False
    then have "topic k \<notin> set (topics (snd (check x st)))"
      using check_topics [of x st] topic_inject [of k "key x"] by auto
    moreover have "topic k \<notin> set (topics (snd (watch check xs ?st)))"
      using Cons.IH [of ?st] Cons.prems False frame [of k x st] by simp
    ultimately show ?thesis by (simp add: case_prod_beta Let_def)
  qed
qed simp

end

text \<open>
  \<open>view\<close> is everything the body keeps about one key: what the body does to a key depends on the
  view of that key only.
\<close>

locale stall_view = stall_monitor +
  fixes view :: "'b \<Rightarrow> 'c \<Rightarrow> 'v"
  assumes view_frame: "k \<noteq> key x \<Longrightarrow> view (fst (check x st)) k = view st k"
    and view_local: "view st (key x) = view st' (key x) \<Longrightarrow>
      topics (snd (check x st)) = topics (snd (check x st')) \<and>
      view (fst (check x st)) (key x) = view (fst (check x st')) (key x)"
begin

lemma view_keep: "k \<notin> key ` set xs \<Longrightarrow> view (fst (watch check xs st)) k = view st k"
  by (induction xs arbitrary: st) (auto simp: case_prod_beta Let_def view_frame)

text \<open>With one observation per key, each observation is judged on the state at the start.\<close>

lemma watch_distinct:
  assumes dist: "distinct (map key xs)"
  shows "topics (snd (watch check xs st)) = concat (map (\<lambda>x. topics (snd (check x st))) xs) \<and>
    (\<forall>x \<in> set xs. view (fst (watch check xs st)) (key x) = view (fst (check x st)) (key x))"
  using dist
proof (induction xs arbitrary: st)
  case (Cons x xs)
  let ?st = "fst (check x st)"
  have same: "topics (snd (check y ?st)) = topics (snd (check y st)) \<and>
      view (fst (check y ?st)) (key y) = view (fst (check y st)) (key y)" if "y \<in> set xs" for y
  proof -
    have "key y \<noteq> key x" using that Cons.prems by (auto simp: image_iff)
    then show ?thesis using view_frame [of "key y" x st] by (intro view_local) simp
  qed
  have IH: "topics (snd (watch check xs ?st)) = concat (map (\<lambda>x. topics (snd (check x ?st))) xs)"
    "\<forall>y \<in> set xs. view (fst (watch check xs ?st)) (key y) = view (fst (check y ?st)) (key y)"
    using Cons by simp_all
  have "view (fst (watch check xs ?st)) (key x) = view ?st (key x)"
    using Cons.prems by (intro view_keep) auto
  then show ?case
    using IH same by (simp add: case_prod_beta Let_def cong: map_cong)
qed simp

end

end
