(* ===== verification/Json.thy ===== *)
theory Json
  imports Prelude "HOL-Library.List_Lexorder" "HOL-Library.Char_ord"
begin

text \<open>
  The part of package encoding/json that the program calls: \<^verbatim>\<open>json.Unmarshal\<close> (a parser of
  JSON texts and decoders that store a JSON value into a Go value) and \<^verbatim>\<open>json.Marshal\<close> on the
  values of a request and of a report. Texts are byte strings; in both directions a byte that
  is not part of a UTF-8 sequence becomes U+FFFD. A syntax error leaves the destination
  untouched; a value of the wrong JSON type, or a number that does not fit, leaves that field
  untouched and decoding goes on, which is what the program relies on when it ignores the
  error. Not modelled: non-ASCII case folding of member names.
\<close>

datatype json =
    JNull
  | JBool bool
  | JNum string
  | JStr string
  | JArr "json list"
  | JObj "(string \<times> json) list"

section \<open>UTF-8\<close>

text \<open>
  What the first byte of a character says: the number of bytes that follow and the range of the
  first of them.
\<close>

definition utf8_lead :: "nat \<Rightarrow> (nat \<times> nat \<times> nat) option" where
  "utf8_lead n =
     (if n < 128 then Some (0, 0, 0)
      else if n < 194 then None
      else if n < 224 then Some (1, 128, 191)
      else if n = 224 then Some (2, 160, 191)
      else if n = 237 then Some (2, 128, 159)
      else if n < 240 then Some (2, 128, 191)
      else if n = 240 then Some (3, 144, 191)
      else if n < 244 then Some (3, 128, 191)
      else if n = 244 then Some (3, 128, 143)
      else None)"

definition is_cont :: "char \<Rightarrow> bool" where
  "is_cont c \<longleftrightarrow> 128 \<le> (of_char c :: nat) \<and> (of_char c :: nat) \<le> 191"

text \<open>\<^verbatim>\<open>utf8.DecodeRune\<close>: how many bytes of \<open>cs\<close> belong to the character that starts with \<open>c\<close>.\<close>

definition rune_tail :: "char \<Rightarrow> string \<Rightarrow> nat option" where
  "rune_tail c cs =
     (case utf8_lead (of_char c) of
        None \<Rightarrow> None
      | Some (k, lo, hi) \<Rightarrow>
          if k \<le> length cs \<and> list_all is_cont (take k cs) \<and>
             (k = 0 \<or> lo \<le> (of_char (hd cs) :: nat) \<and> (of_char (hd cs) :: nat) \<le> hi)
          then Some k else None)"

text \<open>The characters of a byte string; a byte that starts none is \<open>None\<close>.\<close>

function runes :: "string \<Rightarrow> string option list" where
  "runes [] = []"
| "runes (c # cs) =
     (case rune_tail c cs of
        None \<Rightarrow> None # runes cs
      | Some k \<Rightarrow> Some (c # take k cs) # runes (drop k cs))"
  by pat_completeness auto
termination
  by (relation "measure length") auto

text \<open>U+FFFD, which replaces a byte that starts no character.\<close>

definition replacement :: string where
  "replacement = [CHR 0xEF, CHR 0xBF, CHR 0xBD]"

definition repair :: "string \<Rightarrow> string" where
  "repair s = concat (map (\<lambda>r. case r of None \<Rightarrow> replacement | Some t \<Rightarrow> t) (runes s))"

section \<open>Lexical level\<close>

definition is_space :: "char \<Rightarrow> bool" where
  "is_space c \<longleftrightarrow> c = CHR '' '' \<or> c = CHR 0x09 \<or> c = CHR 0x0A \<or> c = CHR 0x0D"

definition skip_ws :: "string \<Rightarrow> string" where
  "skip_ws s = dropWhile is_space s"

definition hex_val :: "char \<Rightarrow> nat option" where
  "hex_val c =
     (let n = of_char c in
      if 48 \<le> n \<and> n \<le> 57 then Some (n - 48)
      else if 65 \<le> n \<and> n \<le> 70 then Some (n - 55)
      else if 97 \<le> n \<and> n \<le> 102 then Some (n - 87)
      else None)"

text \<open>The four hexadecimal digits after \<^verbatim>\<open>\u\<close>.\<close>

fun hex4 :: "string \<Rightarrow> (nat \<times> string) option" where
  "hex4 (a # b # c # d # s) =
     (case (hex_val a, hex_val b, hex_val c, hex_val d) of
        (Some w, Some x, Some y, Some z) \<Rightarrow> Some (((w * 16 + x) * 16 + y) * 16 + z, s)
      | _ \<Rightarrow> None)"
| "hex4 _ = None"

text \<open>The UTF-8 encoding of a code point.\<close>

definition utf8 :: "nat \<Rightarrow> string" where
  "utf8 n =
     (if n < 128 then [char_of n]
      else if n < 2048 then [char_of (192 + n div 64), char_of (128 + n mod 64)]
      else if n < 65536 then
        [char_of (224 + n div 4096), char_of (128 + n div 64 mod 64), char_of (128 + n mod 64)]
      else
        [char_of (240 + n div 262144), char_of (128 + n div 4096 mod 64),
         char_of (128 + n div 64 mod 64), char_of (128 + n mod 64)])"

text \<open>
  What \<^verbatim>\<open>\uXXXX\<close> stands for: a high surrogate followed by a low one is one code point, a lone
  surrogate is U+FFFD.
\<close>

definition read_unicode :: "string \<Rightarrow> (string \<times> string) option" where
  "read_unicode s =
     (case hex4 s of
        None \<Rightarrow> None
      | Some (n, r) \<Rightarrow>
          if n < 55296 \<or> 57344 \<le> n then Some (utf8 n, r)
          else
            (case (if take 2 r = [CHR 0x5C, CHR ''u''] then hex4 (drop 2 r) else None) of
               Some (m, r') \<Rightarrow>
                 if n < 56320 \<and> 56320 \<le> m \<and> m < 57344
                 then Some (utf8 (65536 + (n - 55296) * 1024 + (m - 56320)), r')
                 else Some (utf8 65533, r)
             | None \<Rightarrow> Some (utf8 65533, r)))"

definition simple_escape :: "char \<Rightarrow> char option" where
  "simple_escape c =
     (if c = CHR 0x22 \<or> c = CHR 0x5C \<or> c = CHR ''/'' then Some c
      else if c = CHR ''b'' then Some (CHR 0x08)
      else if c = CHR ''f'' then Some (CHR 0x0C)
      else if c = CHR ''n'' then Some (CHR 0x0A)
      else if c = CHR ''r'' then Some (CHR 0x0D)
      else if c = CHR ''t'' then Some (CHR 0x09)
      else None)"

lemma hex4_length: "hex4 s = Some (n, r) \<Longrightarrow> length r < length s"
  by (induction s rule: hex4.induct) (auto split: option.splits prod.splits)

lemma read_unicode_length: "read_unicode s = Some (u, r) \<Longrightarrow> length r < length s"
proof -
  assume *: "read_unicode s = Some (u, r)"
  then obtain n r1 where h: "hex4 s = Some (n, r1)"
    by (auto simp: read_unicode_def split: option.splits)
  have "length r \<le> length r1"
    using * h hex4_length [of "drop 2 r1"]
    by (fastforce simp: read_unicode_def split: option.splits prod.splits if_splits)
  with hex4_length [OF h] show ?thesis by simp
qed

text \<open>The rest of a string literal after its opening quote: the decoded bytes and what follows.\<close>

function read_str :: "string \<Rightarrow> string \<Rightarrow> (string \<times> string) option" where
  "read_str acc [] = None"
| "read_str acc (c # cs) =
     (if c = CHR 0x22 then Some (rev acc, cs)
      else if c = CHR 0x5C then
        (case cs of
           [] \<Rightarrow> None
         | e # ds \<Rightarrow>
             if e = CHR ''u'' then
               (case read_unicode ds of
                  None \<Rightarrow> None
                | Some (u, r) \<Rightarrow> read_str (rev u @ acc) r)
             else
               (case simple_escape e of
                  None \<Rightarrow> None
                | Some d \<Rightarrow> read_str (d # acc) ds))
      else if (of_char c :: nat) < 32 then None
      else
        (case rune_tail c cs of
           None \<Rightarrow> read_str (rev replacement @ acc) cs
         | Some k \<Rightarrow> read_str (rev (take k cs) @ c # acc) (drop k cs)))"
  by pat_completeness auto
termination
  by (relation "measure (\<lambda>(acc, s). length s)")
     (auto dest: read_unicode_length)

definition take_digits :: "string \<Rightarrow> string \<times> string" where
  "take_digits s = (takeWhile is_digit s, dropWhile is_digit s)"

text \<open>
  A number literal: \<^verbatim>\<open>-?(0|[1-9][0-9]*)(\.[0-9]+)?([eE][+-]?[0-9]+)?\<close>, kept as it is
  spelled.
\<close>

definition read_frac :: "string \<Rightarrow> (string \<times> string) option" where
  "read_frac s =
     (case s of
        c # cs \<Rightarrow>
          if c = CHR ''.'' then
            (let (ds, r) = take_digits cs in if ds = [] then None else Some (c # ds, r))
          else Some ([], s)
      | [] \<Rightarrow> Some ([], s))"

definition read_exp :: "string \<Rightarrow> (string \<times> string) option" where
  "read_exp s =
     (case s of
        c # cs \<Rightarrow>
          if c = CHR ''e'' \<or> c = CHR ''E'' then
            (let (sg, t) = (case cs of
                   d # es \<Rightarrow> if d = CHR ''+'' \<or> d = CHR ''-'' then ([d], es) else ([], cs)
                 | [] \<Rightarrow> ([], cs));
                 (ds, r) = take_digits t
             in if ds = [] then None else Some (c # sg @ ds, r))
          else Some ([], s)
      | [] \<Rightarrow> Some ([], s))"

definition read_num :: "string \<Rightarrow> (string \<times> string) option" where
  "read_num s =
     (let (sg, t) = (case s of
            c # cs \<Rightarrow> if c = CHR ''-'' then ([c], cs) else ([], s)
          | [] \<Rightarrow> ([], s));
          (ds, u) = (case t of
            c # cs \<Rightarrow> if c = CHR ''0'' then ([c], cs) else take_digits t
          | [] \<Rightarrow> ([], t))
      in if ds = [] then None
         else case read_frac u of
           None \<Rightarrow> None
         | Some (fs, v) \<Rightarrow>
             (case read_exp v of
                None \<Rightarrow> None
              | Some (es, r) \<Rightarrow> Some (sg @ ds @ fs @ es, r)))"

definition read_word :: "string \<Rightarrow> json \<Rightarrow> string \<Rightarrow> (json \<times> string) option" where
  "read_word w j s = (if take (length w) s = w then Some (j, drop (length w) s) else None)"

section \<open>Parser\<close>

text \<open>
  The parser spends one unit of fuel per value, element or member. \<open>parse_fuel\<close> below shows
  that any amount above twice the length of the text gives the same result, so running out of
  fuel is never what makes \<open>parse_json\<close> fail.
\<close>

definition next_tok :: "string \<Rightarrow> (char \<times> string) option" where
  "next_tok s = (case skip_ws s of [] \<Rightarrow> None | c # cs \<Rightarrow> Some (c, cs))"

text \<open>A member name and the colon after it.\<close>

definition pkey :: "string \<Rightarrow> (string \<times> string) option" where
  "pkey s =
     (case next_tok s of
        None \<Rightarrow> None
      | Some (q, qs) \<Rightarrow>
          if q = CHR 0x22 then
            (case read_str [] qs of
               None \<Rightarrow> None
             | Some (k, r) \<Rightarrow>
                 (case next_tok r of
                    None \<Rightarrow> None
                  | Some (d, ds) \<Rightarrow> if d = CHR '':'' then Some (k, ds) else None))
          else None)"

text \<open>The values that hold no other value: \<open>c\<close> is the first character, \<open>cs\<close> what follows it.\<close>

definition pscalar :: "char \<Rightarrow> string \<Rightarrow> (json \<times> string) option" where
  "pscalar c cs =
     (if c = CHR 0x22 then map_option (\<lambda>(x, r). (JStr x, r)) (read_str [] cs)
      else if c = CHR ''t'' then read_word ''true'' (JBool True) (c # cs)
      else if c = CHR ''f'' then read_word ''false'' (JBool False) (c # cs)
      else if c = CHR ''n'' then read_word ''null'' JNull (c # cs)
      else map_option (\<lambda>(x, r). (JNum x, r)) (read_num (c # cs)))"

text \<open>Whether the text goes on with the given closing bracket.\<close>

definition closes :: "char \<Rightarrow> string \<Rightarrow> bool" where
  "closes c s \<longleftrightarrow> map_option fst (next_tok s) = Some c"

fun pvalue :: "nat \<Rightarrow> string \<Rightarrow> (json \<times> string) option"
  and pelems :: "nat \<Rightarrow> string \<Rightarrow> (json list \<times> string) option"
  and pmembers :: "nat \<Rightarrow> string \<Rightarrow> ((string \<times> json) list \<times> string) option"
where
  "pvalue 0 s = None"
| "pvalue (Suc n) s =
     (case next_tok s of
        None \<Rightarrow> None
      | Some (c, cs) \<Rightarrow>
          if c = CHR ''{'' then
            (if closes (CHR ''}'') cs then Some (JObj [], snd (the (next_tok cs)))
             else map_option (\<lambda>(ms, r). (JObj ms, r)) (pmembers n cs))
          else if c = CHR ''['' then
            (if closes (CHR '']'') cs then Some (JArr [], snd (the (next_tok cs)))
             else map_option (\<lambda>(es, r). (JArr es, r)) (pelems n cs))
          else pscalar c cs)"
| "pelems 0 s = None"
| "pelems (Suc n) s =
     (case pvalue n s of
        None \<Rightarrow> None
      | Some (v, r) \<Rightarrow>
          (case next_tok r of
             None \<Rightarrow> None
           | Some (c, cs) \<Rightarrow>
               if c = CHR '','' then map_option (\<lambda>(es, t). (v # es, t)) (pelems n cs)
               else if c = CHR '']'' then Some ([v], cs)
               else None))"
| "pmembers 0 s = None"
| "pmembers (Suc n) s =
     (case pkey s of
        None \<Rightarrow> None
      | Some (k, ds) \<Rightarrow>
          (case pvalue n ds of
             None \<Rightarrow> None
           | Some (v, r) \<Rightarrow>
               (case next_tok r of
                  None \<Rightarrow> None
                | Some (c, cs) \<Rightarrow>
                    if c = CHR '','' then
                      map_option (\<lambda>(ms, u). ((k, v) # ms, u)) (pmembers n cs)
                    else if c = CHR ''}'' then Some ([(k, v)], cs)
                    else None)))"

definition parse_json :: "string \<Rightarrow> json option" where
  "parse_json s =
     (case pvalue (Suc (2 * length s)) s of
        None \<Rightarrow> None
      | Some (j, r) \<Rightarrow> if skip_ws r = [] then Some j else None)"


subsection \<open>Every reader consumes input\<close>

lemma skip_ws_length: "length (skip_ws s) \<le> length s"
  by (simp add: skip_ws_def length_dropWhile_le)

lemma skip_ws_Cons: "skip_ws s = c # cs \<Longrightarrow> length cs < length s"
  using skip_ws_length [of s] by simp

lemma read_str_length: "read_str acc s = Some (x, r) \<Longrightarrow> length r < length s"
proof (induction acc s rule: read_str.induct)
  case (1 acc)
  then show ?case by simp
next
  case (2 acc c cs)
  note unicode = 2(1) and escape = 2(2) and bad = 2(3) and plain = 2(4)
  consider (quote) "c = CHR 0x22" | (esc) "c = CHR 0x5C" | (other) "c \<noteq> CHR 0x22" "c \<noteq> CHR 0x5C"
    by blast
  then show ?case
  proof cases
    case quote
    with 2(5) show ?thesis by simp
  next
    case other
    show ?thesis
    proof (cases "rune_tail c cs")
      case None
      with 2(5) other have "read_str (rev replacement @ acc) cs = Some (x, r)" and n: "\<not> (of_char c :: nat) < 32"
        by (simp_all split: if_splits)
      then show ?thesis using bad [OF other n None] by simp
    next
      case (Some k)
      with 2(5) other have "read_str (rev (take k cs) @ c # acc) (drop k cs) = Some (x, r)" and n: "\<not> (of_char c :: nat) < 32"
        by (simp_all split: if_splits)
      then show ?thesis using plain [OF other n Some] by simp
    qed
  next
    case esc
    with 2(5) obtain e ds where cs: "cs = e # ds"
      by (cases cs) auto
    show ?thesis
    proof (cases "e = CHR ''u''")
      case True
      with 2(5) esc cs obtain u t where t: "read_unicode ds = Some (u, t)"
        and rest: "read_str (rev u @ acc) t = Some (x, r)"
        by (auto split: option.splits)
      have "length r < length t"
        using unicode [OF _ esc cs True t] rest esc by simp
      with read_unicode_length [OF t] cs show ?thesis by simp
    next
      case False
      with 2(5) esc cs obtain d where d: "simple_escape e = Some d"
        and rest: "read_str (d # acc) ds = Some (x, r)"
        by (auto split: option.splits)
      have "length r < length ds"
        using escape [OF _ esc cs False d] rest esc by simp
      with cs show ?thesis by simp
    qed
  qed
qed

lemma take_digits_length: "take_digits s = (ds, r) \<Longrightarrow> length s = length ds + length r"
  unfolding take_digits_def
  by (metis Pair_inject length_append takeWhile_dropWhile_id)

lemma read_frac_length: "read_frac s = Some (fs, r) \<Longrightarrow> length r \<le> length s"
  by (auto simp: read_frac_def split: list.splits if_splits prod.splits dest: take_digits_length)

lemma read_exp_length: "read_exp s = Some (es, r) \<Longrightarrow> length r \<le> length s"
  by (auto simp: read_exp_def split: list.splits if_splits prod.splits dest!: take_digits_length)

lemma read_num_length: "read_num s = Some (x, r) \<Longrightarrow> length r < length s"
proof -
  assume *: "read_num s = Some (x, r)"
  obtain sg t where sg: "(case s of
            c # cs \<Rightarrow> if c = CHR ''-'' then ([c], cs) else ([], s)
          | [] \<Rightarrow> ([], s)) = (sg, t)" by fastforce
  obtain ds u where ds: "(case t of
            c # cs \<Rightarrow> if c = CHR ''0'' then ([c], cs) else take_digits t
          | [] \<Rightarrow> ([], t)) = (ds, u)" by fastforce
  from * sg ds have ne: "ds \<noteq> []"
    by (auto simp: read_num_def Let_def split: if_splits)
  with * sg ds obtain fs v es where "read_frac u = Some (fs, v)" "read_exp v = Some (es, r)"
    by (auto simp: read_num_def Let_def split: if_splits option.splits)
  then have "length r \<le> length u"
    by (meson le_trans read_exp_length read_frac_length)
  also have "length u < length t"
    using ds ne by (auto split: list.splits if_splits dest!: take_digits_length)
  also have "length t \<le> length s"
    using sg by (auto split: list.splits if_splits)
  finally show ?thesis .
qed

lemma read_word_length: "w \<noteq> [] \<Longrightarrow> read_word w j s = Some (x, r) \<Longrightarrow> length r < length s"
  by (cases s) (auto simp: read_word_def split: if_splits)

lemma next_tok_length: "next_tok s = Some (c, cs) \<Longrightarrow> length cs < length s"
  by (auto simp: next_tok_def dest: skip_ws_Cons split: list.splits)

lemma pkey_length: "pkey s = Some (k, r) \<Longrightarrow> length r < length s"
  by (fastforce simp: pkey_def split: option.splits if_splits
      dest!: next_tok_length read_str_length)

lemma pscalar_length: "pscalar c cs = Some (v, r) \<Longrightarrow> length r \<le> length cs"
  unfolding pscalar_def
  by (auto split: if_splits
      dest!: read_str_length read_num_length read_word_length [rotated])

lemma closes_length: "closes c s \<Longrightarrow> length (snd (the (next_tok s))) < length s"
  by (auto simp: closes_def dest: next_tok_length)

lemmas reader_lengths = next_tok_length pkey_length pscalar_length closes_length

lemma parser_consumes:
  "pvalue n s = Some (v, r) \<Longrightarrow> length r < length s"
  "pelems n s = Some (vs, r) \<Longrightarrow> length r < length s"
  "pmembers n s = Some (ms, r) \<Longrightarrow> length r < length s"
proof (induction n s and n s and n s arbitrary: v r and vs r and ms r
    rule: pvalue_pelems_pmembers.induct)
  case (2 n s)
  then show ?case
    by (fastforce split: if_splits option.splits dest!: reader_lengths)
next
  case (4 n s)
  then show ?case
    by (fastforce split: if_splits option.splits dest!: reader_lengths)
next
  case (6 n s)
  then show ?case
    by (fastforce split: if_splits option.splits dest!: reader_lengths)
qed simp_all

subsection \<open>The fuel is enough\<close>

text \<open>Two amounts of fuel agree on a text if they agree on every shorter one.\<close>

lemma pvalue_agree:
  assumes "\<And>t. length t < length s \<Longrightarrow> pelems n t = pelems k t"
    and "\<And>t. length t < length s \<Longrightarrow> pmembers n t = pmembers k t"
  shows "pvalue (Suc n) s = pvalue (Suc k) s"
  using assms by (auto split: option.splits dest: next_tok_length)

lemma pelems_agree:
  assumes "pvalue n s = pvalue k s"
    and "\<And>t. length t < length s \<Longrightarrow> pelems n t = pelems k t"
  shows "pelems (Suc n) s = pelems (Suc k) s"
proof -
  have "pelems n cs = pelems k cs"
    if "pvalue k s = Some (v, r)" and "next_tok r = Some (c, cs)" for v r c cs
    using assms(2) parser_consumes(1) [OF that(1)] next_tok_length [OF that(2)] by simp
  then show ?thesis
    by (auto simp: assms(1) split: option.splits)
qed

lemma pmembers_agree:
  assumes "\<And>t. length t < length s \<Longrightarrow> pvalue n t = pvalue k t"
    and "\<And>t. length t < length s \<Longrightarrow> pmembers n t = pmembers k t"
  shows "pmembers (Suc n) s = pmembers (Suc k) s"
proof -
  have v: "pvalue n ds = pvalue k ds" if "pkey s = Some (x, ds)" for x ds
    using assms(1) pkey_length [OF that] by simp
  have "pmembers n cs = pmembers k cs"
    if "pkey s = Some (x, ds)" "pvalue k ds = Some (v, r)" "next_tok r = Some (c, cs)"
    for x ds v r c cs
    using assms(2) pkey_length [OF that(1)] parser_consumes(1) [OF that(2)]
      next_tok_length [OF that(3)] by simp
  with v show ?thesis
    by (auto split: option.splits)
qed

lemma parser_fuel:
  "(\<forall>s m. 2 * length s < n \<longrightarrow> 2 * length s < m \<longrightarrow> pvalue n s = pvalue m s) \<and>
   (\<forall>s m. 2 * length s + 1 < n \<longrightarrow> 2 * length s + 1 < m \<longrightarrow> pelems n s = pelems m s) \<and>
   (\<forall>s m. 2 * length s + 1 < n \<longrightarrow> 2 * length s + 1 < m \<longrightarrow> pmembers n s = pmembers m s)"
proof (induction n)
  case 0
  then show ?case by simp
next
  case (Suc n)
  note IH = Suc.IH [THEN conjunct1, rule_format]
    Suc.IH [THEN conjunct2, THEN conjunct1, rule_format]
    Suc.IH [THEN conjunct2, THEN conjunct2, rule_format]
  have "pvalue (Suc n) s = pvalue m s" if len: "2 * length s < Suc n" "2 * length s < m" for s m
  proof -
    obtain k where m: "m = Suc k" using len by (cases m) auto
    show ?thesis
      unfolding m by (rule pvalue_agree; rule IH(2) IH(3)) (use len m in linarith)+
  qed
  moreover have "pelems (Suc n) s = pelems m s"
    if len: "2 * length s + 1 < Suc n" "2 * length s + 1 < m" for s m
  proof -
    obtain k where m: "m = Suc k" using len by (cases m) auto
    show ?thesis
      unfolding m by (rule pelems_agree; rule IH(1) IH(2)) (use len m in linarith)+
  qed
  moreover have "pmembers (Suc n) s = pmembers m s"
    if len: "2 * length s + 1 < Suc n" "2 * length s + 1 < m" for s m
  proof -
    obtain k where m: "m = Suc k" using len by (cases m) auto
    show ?thesis
      unfolding m by (rule pmembers_agree; rule IH(1) IH(3)) (use len m in linarith)+
  qed
  ultimately show ?case by blast
qed

corollary parse_fuel:
  "2 * length s < n \<Longrightarrow> pvalue n s = pvalue (Suc (2 * length s)) s"
  by (rule parser_fuel [THEN conjunct1, rule_format]) simp_all

section \<open>Decoding into Go values\<close>

text \<open>
  A decoder stores a JSON value into a destination that already has a value: JSON null and a
  value of another kind leave a string, boolean, number or struct as it is.
\<close>

type_synonym 'a decoder = "json \<Rightarrow> 'a \<Rightarrow> 'a"

definition dec_string :: "string decoder" where
  "dec_string j old = (case j of JStr s \<Rightarrow> s | _ \<Rightarrow> old)"

definition dec_bool :: "bool decoder" where
  "dec_bool j old = (case j of JBool b \<Rightarrow> b | _ \<Rightarrow> old)"

definition dec_uint :: "('a::len word) decoder" where
  "dec_uint j old =
     (case j of
        JNum s \<Rightarrow>
          (case ParseUint LENGTH('a) s of None \<Rightarrow> old | Some n \<Rightarrow> word_of_int n)
      | _ \<Rightarrow> old)"

definition dec_int :: "int decoder" where
  "dec_int j old =
     (case j of
        JNum s \<Rightarrow> (case Atoi s of None \<Rightarrow> old | Some n \<Rightarrow> n)
      | _ \<Rightarrow> old)"

text \<open>A slice is refilled from its start; an element beyond the old length starts from zero.\<close>

definition dec_slice :: "'a \<Rightarrow> 'a decoder \<Rightarrow> 'a list decoder" where
  "dec_slice zero d j old =
     (case j of
        JArr xs \<Rightarrow>
          map (\<lambda>(i, x). d x (if i < length old then old ! i else zero)) (enumerate 0 xs)
      | JNull \<Rightarrow> []
      | _ \<Rightarrow> old)"

text \<open>An object decoded into a map adds its members to the map.\<close>

definition dec_map :: "'a \<Rightarrow> 'a decoder \<Rightarrow> (string, 'a) gomap decoder" where
  "dec_map zero d j old =
     (case j of
        JObj kvs \<Rightarrow> fold (\<lambda>(k, v). AList.update k (d v zero)) kvs old
      | JNull \<Rightarrow> []
      | _ \<Rightarrow> old)"

definition to_lower :: "char \<Rightarrow> char" where
  "to_lower c =
     (if 65 \<le> (of_char c :: nat) \<and> (of_char c :: nat) \<le> 90 then char_of (of_char c + 32 :: nat) else c)"

definition equal_fold :: "string \<Rightarrow> string \<Rightarrow> bool" where
  "equal_fold s t \<longleftrightarrow> map to_lower s = map to_lower t"

text \<open>A member goes to the field of that name, or else to the first one equal up to case.\<close>

definition find_field :: "(string \<times> 'a decoder) list \<Rightarrow> string \<Rightarrow> 'a decoder option" where
  "find_field fs k =
     (case map_of fs k of
        Some d \<Rightarrow> Some d
      | None \<Rightarrow> map_option snd (find (\<lambda>f. equal_fold (fst f) k) fs))"

definition dec_member :: "(string \<times> 'a decoder) list \<Rightarrow> string \<times> json \<Rightarrow> 'a \<Rightarrow> 'a" where
  "dec_member fs kv x = (case find_field fs (fst kv) of None \<Rightarrow> x | Some d \<Rightarrow> d (snd kv) x)"

definition dec_struct :: "(string \<times> 'a decoder) list \<Rightarrow> 'a decoder" where
  "dec_struct fs j old = (case j of JObj kvs \<Rightarrow> fold (dec_member fs) kvs old | _ \<Rightarrow> old)"

definition Unmarshal :: "'a decoder \<Rightarrow> string \<Rightarrow> 'a \<Rightarrow> 'a" where
  "Unmarshal d s old = (case parse_json s of None \<Rightarrow> old | Some j \<Rightarrow> d j old)"

text \<open>\<^verbatim>\<open>type r struct { Result T `json:"result"` }\<close>: the reply envelope of every RPC.\<close>

definition dec_result :: "'a decoder \<Rightarrow> 'a decoder" where
  "dec_result d = dec_struct [(''result'', d)]"

section \<open>Encoding\<close>

definition hex_digit :: "nat \<Rightarrow> char" where
  "hex_digit n = (if n < 10 then char_of (48 + n) else char_of (87 + n))"

text \<open>
  Marshal escapes the quote, the backslash, control characters, the three HTML characters, U+2028
  and U+2029.
\<close>

definition escape :: "char \<Rightarrow> string" where
  "escape c =
     (if c = CHR 0x22 \<or> c = CHR 0x5C then [CHR 0x5C, c]
      else if c = CHR 0x0A then [CHR 0x5C, CHR ''n'']
      else if c = CHR 0x0D then [CHR 0x5C, CHR ''r'']
      else if c = CHR 0x09 then [CHR 0x5C, CHR ''t'']
      else if (of_char c :: nat) < 32 \<or> c = CHR ''<'' \<or> c = CHR ''>'' \<or> c = CHR ''&'' then
        [CHR 0x5C, CHR ''u'', CHR ''0'', CHR ''0'',
         hex_digit (of_char c div 16), hex_digit (of_char c mod 16)]
      else [c])"

definition escape_rune :: "string option \<Rightarrow> string" where
  "escape_rune r =
     (case r of
        None \<Rightarrow> [CHR 0x5C] @ ''ufffd''
      | Some t \<Rightarrow>
          if length t = 1 then escape (hd t)
          else if t = [CHR 0xE2, CHR 0x80, CHR 0xA8] then [CHR 0x5C] @ ''u2028''
          else if t = [CHR 0xE2, CHR 0x80, CHR 0xA9] then [CHR 0x5C] @ ''u2029''
          else t)"

definition quote_json :: "string \<Rightarrow> string" where
  "quote_json s = CHR 0x22 # concat (map escape_rune (runes s)) @ [CHR 0x22]"

fun print_json :: "json \<Rightarrow> string" where
  "print_json JNull = ''null''"
| "print_json (JBool b) = FormatBool b"
| "print_json (JNum s) = s"
| "print_json (JStr s) = quote_json s"
| "print_json (JArr xs) = ''['' @ Join (map print_json xs) '','' @ '']''"
| "print_json (JObj kvs) =
     ''{'' @ Join (map (\<lambda>kv. quote_json (fst kv) @ '':'' @ print_json (snd kv)) kvs) '','' @ ''}''"

text \<open>A Go map with string keys is written with its keys in increasing order.\<close>

definition json_of_map :: "(string, json) gomap \<Rightarrow> json" where
  "json_of_map m = JObj (sort_key fst m)"

end
