(* ===== verification/Rpc.thy ===== *)
theory Rpc
  imports Json
begin

text \<open>
  \<^verbatim>\<open>rpc.go\<close>: the names of the RPCs, the reply structures with their JSON decoders (one decoder
  entry per field, under the name its tag gives), and the request every RPC sends.
\<close>

section \<open>Names\<close>

definition NodeMetadataRPC :: string where "NodeMetadataRPC = ''hmy_getNodeMetadata''"
definition BlockHeaderRPC :: string where "BlockHeaderRPC = ''hmy_latestHeader''"
definition PendingCXRPC :: string where "PendingCXRPC = ''hmy_getPendingCXReceipts''"
definition SuperCommitteeRPC :: string where "SuperCommitteeRPC = ''hmy_getSuperCommittees''"
definition LastCrossLinkRPC :: string where "LastCrossLinkRPC = ''hmy_getLastCrossLinks''"
definition LatestHeadersRPC :: string where "LatestHeadersRPC = ''hmy_getLatestChainHeaders''"
definition JSONVersion :: string where "JSONVersion = ''2.0''"

lemmas rpc_names = NodeMetadataRPC_def BlockHeaderRPC_def PendingCXRPC_def
  SuperCommitteeRPC_def LastCrossLinkRPC_def LatestHeadersRPC_def

section \<open>Node metadata\<close>

record ChainConfig =
  cc_ChainID :: int
  cc_CrossLinkEpoch :: int
  cc_CrossTxEpoch :: int
  cc_Eip155Epoch :: int
  cc_PreStakingEpoch :: int
  cc_S3Epoch :: int
  cc_StakingEpoch :: int

record P2PConnectivity =
  p2p_Connected :: int
  p2p_NotConnected :: int
  p2p_TotalKnown :: int

record NodeMetadataReply =
  nm_BLSPublicKey :: "string list"
  nm_Version :: string
  nm_NetworkType :: string
  nm_IsLeader :: bool
  nm_ShardID :: u32
  nm_NodeRole :: string
  nm_BlocksPerEpoch :: int
  nm_DNSZone :: string
  nm_ArchivalNode :: bool
  nm_NodeStartTime :: int
  nm_ChainConfig :: ChainConfig
  nm_P2PConnectivity :: P2PConnectivity

record NodeMetadata =
  md_Payload :: NodeMetadataReply
  md_IP :: string

definition zero_ChainConfig :: ChainConfig where
  "zero_ChainConfig = \<lparr>cc_ChainID = 0, cc_CrossLinkEpoch = 0, cc_CrossTxEpoch = 0,
     cc_Eip155Epoch = 0, cc_PreStakingEpoch = 0, cc_S3Epoch = 0, cc_StakingEpoch = 0\<rparr>"

definition zero_P2P :: P2PConnectivity where
  "zero_P2P = \<lparr>p2p_Connected = 0, p2p_NotConnected = 0, p2p_TotalKnown = 0\<rparr>"

definition zero_NodeMetadataReply :: NodeMetadataReply where
  "zero_NodeMetadataReply = \<lparr>nm_BLSPublicKey = [], nm_Version = [], nm_NetworkType = [],
     nm_IsLeader = False, nm_ShardID = 0, nm_NodeRole = [], nm_BlocksPerEpoch = 0,
     nm_DNSZone = [], nm_ArchivalNode = False, nm_NodeStartTime = 0,
     nm_ChainConfig = zero_ChainConfig, nm_P2PConnectivity = zero_P2P\<rparr>"

definition dec_ChainConfig :: "ChainConfig decoder" where
  "dec_ChainConfig = dec_struct
    [(''chain-id'', \<lambda>j x. x\<lparr>cc_ChainID := dec_int j (cc_ChainID x)\<rparr>),
     (''cross-link-epoch'', \<lambda>j x. x\<lparr>cc_CrossLinkEpoch := dec_int j (cc_CrossLinkEpoch x)\<rparr>),
     (''cross-tx-epoch'', \<lambda>j x. x\<lparr>cc_CrossTxEpoch := dec_int j (cc_CrossTxEpoch x)\<rparr>),
     (''eip155-epoch'', \<lambda>j x. x\<lparr>cc_Eip155Epoch := dec_int j (cc_Eip155Epoch x)\<rparr>),
     (''prestaking-epoch'', \<lambda>j x. x\<lparr>cc_PreStakingEpoch := dec_int j (cc_PreStakingEpoch x)\<rparr>),
     (''s3-epoch'', \<lambda>j x. x\<lparr>cc_S3Epoch := dec_int j (cc_S3Epoch x)\<rparr>),
     (''staking-epoch'', \<lambda>j x. x\<lparr>cc_StakingEpoch := dec_int j (cc_StakingEpoch x)\<rparr>)]"

definition dec_P2P :: "P2PConnectivity decoder" where
  "dec_P2P = dec_struct
    [(''connected'', \<lambda>j x. x\<lparr>p2p_Connected := dec_int j (p2p_Connected x)\<rparr>),
     (''not-connected'', \<lambda>j x. x\<lparr>p2p_NotConnected := dec_int j (p2p_NotConnected x)\<rparr>),
     (''total-known-peers'', \<lambda>j x. x\<lparr>p2p_TotalKnown := dec_int j (p2p_TotalKnown x)\<rparr>)]"

definition dec_NodeMetadataReply :: "NodeMetadataReply decoder" where
  "dec_NodeMetadataReply = dec_struct
    [(''blskey'', \<lambda>j x. x\<lparr>nm_BLSPublicKey := dec_slice [] dec_string j (nm_BLSPublicKey x)\<rparr>),
     (''version'', \<lambda>j x. x\<lparr>nm_Version := dec_string j (nm_Version x)\<rparr>),
     (''network'', \<lambda>j x. x\<lparr>nm_NetworkType := dec_string j (nm_NetworkType x)\<rparr>),
     (''is-leader'', \<lambda>j x. x\<lparr>nm_IsLeader := dec_bool j (nm_IsLeader x)\<rparr>),
     (''shard-id'', \<lambda>j x. x\<lparr>nm_ShardID := dec_uint j (nm_ShardID x)\<rparr>),
     (''role'', \<lambda>j x. x\<lparr>nm_NodeRole := dec_string j (nm_NodeRole x)\<rparr>),
     (''blocks-per-epoch'', \<lambda>j x. x\<lparr>nm_BlocksPerEpoch := dec_int j (nm_BlocksPerEpoch x)\<rparr>),
     (''dns-zone'', \<lambda>j x. x\<lparr>nm_DNSZone := dec_string j (nm_DNSZone x)\<rparr>),
     (''is-archival'', \<lambda>j x. x\<lparr>nm_ArchivalNode := dec_bool j (nm_ArchivalNode x)\<rparr>),
     (''node-unix-start-time'', \<lambda>j x. x\<lparr>nm_NodeStartTime := dec_int j (nm_NodeStartTime x)\<rparr>),
     (''chain-config'', \<lambda>j x. x\<lparr>nm_ChainConfig := dec_ChainConfig j (nm_ChainConfig x)\<rparr>),
     (''p2p-connectivity'', \<lambda>j x. x\<lparr>nm_P2PConnectivity := dec_P2P j (nm_P2PConnectivity x)\<rparr>)]"

section \<open>Block headers\<close>

record BlockHeaderReply =
  bh_BlockHash :: string
  bh_BlockNumber :: u64
  bh_ShardID :: u32
  bh_Leader :: string
  bh_ViewID :: u64
  bh_Epoch :: u64
  bh_Timestamp :: string
  bh_UnixTime :: int
  bh_LastCommitSig :: string
  bh_LastCommitBitmap :: string

record BlockHeader =
  hd_Payload :: BlockHeaderReply
  hd_IP :: string

definition zero_BlockHeaderReply :: BlockHeaderReply where
  "zero_BlockHeaderReply = \<lparr>bh_BlockHash = [], bh_BlockNumber = 0, bh_ShardID = 0,
     bh_Leader = [], bh_ViewID = 0, bh_Epoch = 0, bh_Timestamp = [], bh_UnixTime = 0,
     bh_LastCommitSig = [], bh_LastCommitBitmap = []\<rparr>"

definition dec_BlockHeaderReply :: "BlockHeaderReply decoder" where
  "dec_BlockHeaderReply = dec_struct
    [(''blockHash'', \<lambda>j x. x\<lparr>bh_BlockHash := dec_string j (bh_BlockHash x)\<rparr>),
     (''blockNumber'', \<lambda>j x. x\<lparr>bh_BlockNumber := dec_uint j (bh_BlockNumber x)\<rparr>),
     (''shardID'', \<lambda>j x. x\<lparr>bh_ShardID := dec_uint j (bh_ShardID x)\<rparr>),
     (''leader'', \<lambda>j x. x\<lparr>bh_Leader := dec_string j (bh_Leader x)\<rparr>),
     (''viewID'', \<lambda>j x. x\<lparr>bh_ViewID := dec_uint j (bh_ViewID x)\<rparr>),
     (''epoch'', \<lambda>j x. x\<lparr>bh_Epoch := dec_uint j (bh_Epoch x)\<rparr>),
     (''timestamp'', \<lambda>j x. x\<lparr>bh_Timestamp := dec_string j (bh_Timestamp x)\<rparr>),
     (''unixtime'', \<lambda>j x. x\<lparr>bh_UnixTime := dec_int j (bh_UnixTime x)\<rparr>),
     (''lastCommitSig'', \<lambda>j x. x\<lparr>bh_LastCommitSig := dec_string j (bh_LastCommitSig x)\<rparr>),
     (''lastCommitBitmap'', \<lambda>j x. x\<lparr>bh_LastCommitBitmap := dec_string j (bh_LastCommitBitmap x)\<rparr>)]"

section \<open>Committees\<close>

record CommitteeMember =
  cm_Address :: string
  cm_IsHarmonyNode :: bool
  cm_BLSKey :: string
  cm_RawPercent :: string
  cm_VotingPower :: string
  cm_EffectiveStake :: string

record CommitteeInfo =
  ci_PolicyType :: string
  ci_MemberCount :: int
  ci_Externals :: int
  ci_Committee :: "CommitteeMember list"
  ci_HarmonyPower :: string
  ci_StakedPower :: string
  ci_TotalRawStake :: string

record QuorumCommittee =
  qc_Deciders :: "(string, CommitteeInfo) gomap"
  qc_ExternalCount :: int

record SuperCommitteeReply =
  sc_PreviousCommittee :: QuorumCommittee
  sc_CurrentCommittee :: QuorumCommittee

definition zero_CommitteeMember :: CommitteeMember where
  "zero_CommitteeMember = \<lparr>cm_Address = [], cm_IsHarmonyNode = False, cm_BLSKey = [],
     cm_RawPercent = [], cm_VotingPower = [], cm_EffectiveStake = []\<rparr>"

definition zero_CommitteeInfo :: CommitteeInfo where
  "zero_CommitteeInfo = \<lparr>ci_PolicyType = [], ci_MemberCount = 0, ci_Externals = 0,
     ci_Committee = [], ci_HarmonyPower = [], ci_StakedPower = [], ci_TotalRawStake = []\<rparr>"

definition zero_QuorumCommittee :: QuorumCommittee where
  "zero_QuorumCommittee = \<lparr>qc_Deciders = [], qc_ExternalCount = 0\<rparr>"

definition zero_SuperCommitteeReply :: SuperCommitteeReply where
  "zero_SuperCommitteeReply = \<lparr>sc_PreviousCommittee = zero_QuorumCommittee,
     sc_CurrentCommittee = zero_QuorumCommittee\<rparr>"

definition dec_CommitteeMember :: "CommitteeMember decoder" where
  "dec_CommitteeMember = dec_struct
    [(''earning-account'', \<lambda>j x. x\<lparr>cm_Address := dec_string j (cm_Address x)\<rparr>),
     (''is-harmony-slot'', \<lambda>j x. x\<lparr>cm_IsHarmonyNode := dec_bool j (cm_IsHarmonyNode x)\<rparr>),
     (''bls-public-key'', \<lambda>j x. x\<lparr>cm_BLSKey := dec_string j (cm_BLSKey x)\<rparr>),
     (''voting-power-unnormalized'', \<lambda>j x. x\<lparr>cm_RawPercent := dec_string j (cm_RawPercent x)\<rparr>),
     (''voting-power-%'', \<lambda>j x. x\<lparr>cm_VotingPower := dec_string j (cm_VotingPower x)\<rparr>),
     (''effective-stake'', \<lambda>j x. x\<lparr>cm_EffectiveStake := dec_string j (cm_EffectiveStake x)\<rparr>)]"

definition dec_CommitteeInfo :: "CommitteeInfo decoder" where
  "dec_CommitteeInfo = dec_struct
    [(''policy'', \<lambda>j x. x\<lparr>ci_PolicyType := dec_string j (ci_PolicyType x)\<rparr>),
     (''count'', \<lambda>j x. x\<lparr>ci_MemberCount := dec_int j (ci_MemberCount x)\<rparr>),
     (''external-validator-slot-count'', \<lambda>j x. x\<lparr>ci_Externals := dec_int j (ci_Externals x)\<rparr>),
     (''committee-members'', \<lambda>j x. x\<lparr>ci_Committee :=
        dec_slice zero_CommitteeMember dec_CommitteeMember j (ci_Committee x)\<rparr>),
     (''hmy-voting-power'', \<lambda>j x. x\<lparr>ci_HarmonyPower := dec_string j (ci_HarmonyPower x)\<rparr>),
     (''staked-voting-power'', \<lambda>j x. x\<lparr>ci_StakedPower := dec_string j (ci_StakedPower x)\<rparr>),
     (''total-raw-staked'', \<lambda>j x. x\<lparr>ci_TotalRawStake := dec_string j (ci_TotalRawStake x)\<rparr>)]"

definition dec_QuorumCommittee :: "QuorumCommittee decoder" where
  "dec_QuorumCommittee = dec_struct
    [(''quorum-deciders'', \<lambda>j x. x\<lparr>qc_Deciders :=
        dec_map zero_CommitteeInfo dec_CommitteeInfo j (qc_Deciders x)\<rparr>),
     (''external-slot-count'', \<lambda>j x. x\<lparr>qc_ExternalCount := dec_int j (qc_ExternalCount x)\<rparr>)]"

definition dec_SuperCommitteeReply :: "SuperCommitteeReply decoder" where
  "dec_SuperCommitteeReply = dec_struct
    [(''previous'', \<lambda>j x. x\<lparr>sc_PreviousCommittee :=
        dec_QuorumCommittee j (sc_PreviousCommittee x)\<rparr>),
     (''current'', \<lambda>j x. x\<lparr>sc_CurrentCommittee :=
        dec_QuorumCommittee j (sc_CurrentCommittee x)\<rparr>)]"

section \<open>Cross links and header pairs\<close>

record CrossLink =
  cl_Hash :: string
  cl_BlockNumber :: int
  cl_Signature :: string
  cl_SignatureBitmap :: string
  cl_ShardID :: int
  cl_EpochNumber :: int

record LastCrossLinkReply =
  lc_CrossLinks :: "CrossLink list"

record Header =
  h_Hash :: string
  h_Number :: u64
  h_Epoch :: u64
  h_ShardID :: u32
  h_ViewID :: u64

record HeaderPair =
  hp_Beacon :: Header
  hp_AuxShard :: Header

definition zero_CrossLink :: CrossLink where
  "zero_CrossLink = \<lparr>cl_Hash = [], cl_BlockNumber = 0, cl_Signature = [],
     cl_SignatureBitmap = [], cl_ShardID = 0, cl_EpochNumber = 0\<rparr>"

definition zero_Header :: Header where
  "zero_Header = \<lparr>h_Hash = [], h_Number = 0, h_Epoch = 0, h_ShardID = 0, h_ViewID = 0\<rparr>"

definition zero_HeaderPair :: HeaderPair where
  "zero_HeaderPair = \<lparr>hp_Beacon = zero_Header, hp_AuxShard = zero_Header\<rparr>"

definition dec_CrossLink :: "CrossLink decoder" where
  "dec_CrossLink = dec_struct
    [(''hash'', \<lambda>j x. x\<lparr>cl_Hash := dec_string j (cl_Hash x)\<rparr>),
     (''block-number'', \<lambda>j x. x\<lparr>cl_BlockNumber := dec_int j (cl_BlockNumber x)\<rparr>),
     (''signature'', \<lambda>j x. x\<lparr>cl_Signature := dec_string j (cl_Signature x)\<rparr>),
     (''signature-bitmap'', \<lambda>j x. x\<lparr>cl_SignatureBitmap := dec_string j (cl_SignatureBitmap x)\<rparr>),
     (''shard-id'', \<lambda>j x. x\<lparr>cl_ShardID := dec_int j (cl_ShardID x)\<rparr>),
     (''epoch-number'', \<lambda>j x. x\<lparr>cl_EpochNumber := dec_int j (cl_EpochNumber x)\<rparr>)]"

definition dec_LastCrossLinkReply :: "LastCrossLinkReply decoder" where
  "dec_LastCrossLinkReply = dec_struct
    [(''result'', \<lambda>j x. x\<lparr>lc_CrossLinks :=
        dec_slice zero_CrossLink dec_CrossLink j (lc_CrossLinks x)\<rparr>)]"

definition dec_Header :: "Header decoder" where
  "dec_Header = dec_struct
    [(''block-header-hash'', \<lambda>j x. x\<lparr>h_Hash := dec_string j (h_Hash x)\<rparr>),
     (''block-number'', \<lambda>j x. x\<lparr>h_Number := dec_uint j (h_Number x)\<rparr>),
     (''epoch'', \<lambda>j x. x\<lparr>h_Epoch := dec_uint j (h_Epoch x)\<rparr>),
     (''shard-id'', \<lambda>j x. x\<lparr>h_ShardID := dec_uint j (h_ShardID x)\<rparr>),
     (''view-id'', \<lambda>j x. x\<lparr>h_ViewID := dec_uint j (h_ViewID x)\<rparr>)]"

definition dec_HeaderPair :: "HeaderPair decoder" where
  "dec_HeaderPair = dec_struct
    [(''beacon-chain-header'', \<lambda>j x. x\<lparr>hp_Beacon := dec_Header j (hp_Beacon x)\<rparr>),
     (''shard-chain-header'', \<lambda>j x. x\<lparr>hp_AuxShard := dec_Header j (hp_AuxShard x)\<rparr>)]"

section \<open>Requests\<close>

definition getRPCRequest :: "string \<Rightarrow> (string, json) gomap" where
  "getRPCRequest rpc =
     [(''jsonrpc'', JStr JSONVersion), (''method'', JStr rpc), (''params'', JArr []),
      (''id'', JStr ''1'')]"

text \<open>The request body: \<^verbatim>\<open>json.Marshal(requestFields)\<close>.\<close>

definition marshal_fields :: "(string, json) gomap \<Rightarrow> string" where
  "marshal_fields m = print_json (json_of_map m)"

end
