(* ===== verification/Server_Types.thy ===== *)
theory Server_Types
  imports Rpc
begin

text \<open>
  The types of \<^verbatim>\<open>reporting-server.go\<close>: the state shared by every goroutine (\<^verbatim>\<open>monitor\<close>), the
  containers it holds, the messages between the monitors and their workers, and the values
  that the summaries store behind \<^verbatim>\<open>interface{}\<close>.
\<close>

record noReply =
  nr_IP :: string
  nr_FailureReason :: string
  nr_RPCPayload :: string
  nr_ShardID :: int

record MetadataContainer =
  mc_TS :: int
  mc_Nodes :: "NodeMetadata list"
  mc_Down :: "noReply list"

record BlockHeaderContainer =
  bc_TS :: int
  bc_Nodes :: "BlockHeader list"
  bc_Down :: "noReply list"

record work =
  wk_address :: string
  wk_rpc :: string
  wk_body :: string

text \<open>\<^verbatim>\<open>reply\<close>; the last field is the error's text, if there is an error.\<close>

record reply =
  rp_address :: string
  rp_rpc :: string
  rp_rpcPayload :: string
  rp_rpcResult :: string
  rp_oops :: "string option"

section \<open>Values behind interface{}\<close>

text \<open>
  The dynamic types the program stores: \<open>VAny\<close> is a map of the named type \<^verbatim>\<open>any\<close> and \<open>VMap\<close>
  a plain \<^verbatim>\<open>map[string]interface{}\<close>; a type assertion distinguishes the two. \<open>VSlice\<close> is a
  \<^verbatim>\<open>[]interface{}\<close>.
\<close>

datatype ival =
    VNil
  | VBool bool
  | VInt int
  | VUint u64
  | VStr string
  | VUints "u64 list"
  | VStrs "string list"
  | VHeader BlockHeader
  | VMeta NodeMetadata
  | VSlice "ival list"
  | VAny "(string \<times> ival) list"
  | VMap "(string \<times> ival) list"

text \<open>Type assertions \<^verbatim>\<open>v.(T)\<close>; each panics on any other dynamic type.\<close>

definition as_any :: "ival \<Rightarrow> (string, ival) gomap result" where
  "as_any v = (case v of VAny m \<Rightarrow> Inr m | _ \<Rightarrow> Inl BadTypeAssertion)"

definition as_map :: "ival \<Rightarrow> (string, ival) gomap result" where
  "as_map v = (case v of VMap m \<Rightarrow> Inr m | _ \<Rightarrow> Inl BadTypeAssertion)"

definition as_slice :: "ival \<Rightarrow> ival list result" where
  "as_slice v = (case v of VSlice xs \<Rightarrow> Inr xs | _ \<Rightarrow> Inl BadTypeAssertion)"

definition as_uint :: "ival \<Rightarrow> u64 result" where
  "as_uint v = (case v of VUint w \<Rightarrow> Inr w | _ \<Rightarrow> Inl BadTypeAssertion)"

definition as_header :: "ival \<Rightarrow> BlockHeader result" where
  "as_header v = (case v of VHeader h \<Rightarrow> Inr h | _ \<Rightarrow> Inl BadTypeAssertion)"

definition as_meta :: "ival \<Rightarrow> NodeMetadata result" where
  "as_meta v = (case v of VMeta d \<Rightarrow> Inr d | _ \<Rightarrow> Inl BadTypeAssertion)"

lemmas assertions = as_any_def as_map_def as_slice_def as_uint_def as_header_def as_meta_def

text \<open>\<^verbatim>\<open>m[k]\<close> of a map of interface values: a missing key reads as nil.\<close>

definition iget :: "(string, ival) gomap \<Rightarrow> string \<Rightarrow> ival" where
  "iget m k = (case map_of m k of None \<Rightarrow> VNil | Some v \<Rightarrow> v)"

type_synonym summary = "(string, (string, ival) gomap) gomap"

text \<open>\<^verbatim>\<open>sum[key]\<close>: a missing key reads as the nil map, which has no entries.\<close>

definition sget :: "summary \<Rightarrow> string \<Rightarrow> (string, ival) gomap" where
  "sget s key = (case map_of s key of None \<Rightarrow> [] | Some m \<Rightarrow> m)"

text \<open>\<^verbatim>\<open>sum[key][k] = v\<close>, where \<^verbatim>\<open>sum[key]\<close> was made before.\<close>

definition sput :: "string \<Rightarrow> string \<Rightarrow> ival \<Rightarrow> summary \<Rightarrow> summary" where
  "sput key k v s = AList.update key (AList.update k v (sget s key)) s"

lemma iget_update [gomap_simps]:
  "iget (AList.update k v m) k' = (if k' = k then v else iget m k')"
  by (simp add: iget_def map_of_update_eq)

lemma sget_sput [gomap_simps]:
  "sget (sput key k v s) key' = (if key' = key then AList.update k v (sget s key) else sget s key')"
  by (simp add: sget_def sput_def map_of_update_eq)

section \<open>The monitor\<close>

text \<open>
  \<^verbatim>\<open>inUse\<close> is a mutex; the flag says whether it is held. A goroutine that panics while it
  holds the lock never releases it.
\<close>

record monitor =
  m_chain :: string
  m_inUse :: bool
  m_WorkingMetadata :: MetadataContainer
  m_WorkingBlockHeader :: BlockHeaderContainer
  m_MetadataSnapshot :: MetadataContainer
  m_BlockHeaderSnapshot :: BlockHeaderContainer
  m_SuperCommittee :: SuperCommitteeReply
  m_LastCrossLinks :: LastCrossLinkReply
  m_SummarySnapshot :: summary
  m_NoReplySnapshot :: "noReply list"
  m_consensusProgress :: "(string, bool) gomap"

text \<open>The zero \<^verbatim>\<open>time.Time\<close>, 1 January of year 1, in nanoseconds since the Unix epoch.\<close>

definition zero_time :: int where
  "zero_time = - 62135596800 * 1000000000"

definition zero_Metadata :: MetadataContainer where
  "zero_Metadata = \<lparr>mc_TS = zero_time, mc_Nodes = [], mc_Down = []\<rparr>"

definition zero_BlockHeaders :: BlockHeaderContainer where
  "zero_BlockHeaders = \<lparr>bc_TS = zero_time, bc_Nodes = [], bc_Down = []\<rparr>"

text \<open>The monitor that \<^verbatim>\<open>doMonitor\<close> creates: only the chain and an empty progress map are set.\<close>

definition new_monitor :: "string \<Rightarrow> monitor" where
  "new_monitor chain =
     \<lparr>m_chain = chain, m_inUse = False,
      m_WorkingMetadata = zero_Metadata, m_WorkingBlockHeader = zero_BlockHeaders,
      m_MetadataSnapshot = zero_Metadata, m_BlockHeaderSnapshot = zero_BlockHeaders,
      m_SuperCommittee = zero_SuperCommitteeReply, m_LastCrossLinks = \<lparr>lc_CrossLinks = []\<rparr>,
      m_SummarySnapshot = [], m_NoReplySnapshot = [], m_consensusProgress = []\<rparr>"

text \<open>
  \<^verbatim>\<open>m.inUse.Lock()\<close> and \<^verbatim>\<open>m.inUse.Unlock()\<close>. \<open>None\<close> stands for waiting forever: outside a
  critical section the lock is free unless the goroutine that took it died inside one.
\<close>

definition lock :: "monitor \<Rightarrow> monitor option" where
  "lock m = (if m_inUse m then None else Some (m\<lparr>m_inUse := True\<rparr>))"

definition unlock :: "monitor \<Rightarrow> monitor" where
  "unlock m = m\<lparr>m_inUse := False\<rparr>"

lemma lock_simps [simp]:
  "\<not> m_inUse m \<Longrightarrow> lock m = Some (m\<lparr>m_inUse := True\<rparr>)"
  "m_inUse m \<Longrightarrow> lock m = None"
  by (simp_all add: lock_def)

section \<open>Goroutines\<close>

text \<open>
  The calls behind \<^verbatim>\<open>go\<close>. A function that starts goroutines returns the list of these calls
  with their arguments. The table \<^verbatim>\<open>shardMap\<close> is never changed after \<^verbatim>\<open>update\<close> built it.
\<close>

type_synonym shardMap = "(string, int) gomap"

datatype call =
    Go_worker
  | Go_manager int int shardMap string string string
  | Go_stakingCommitteeUpdate string
  | Go_consensusMonitor u64 u64 u64 int string string shardMap
  | Go_cxMonitor u64 u64 int string string shardMap
  | Go_crossLinkMonitor u64 u64 int string string shardMap
  | Go_p2pMonitor int string string MetadataContainer
  | Go_checkShardHeight BlockHeaderContainer u64 u64 string string
  | Go_beaconSyncMonitor u64 u64 u64 int string string shardMap
  | Go_checkSync string string string u64 u64 u64
  | Go_checkBeaconSync u64 u64 u64 u64 string string string

text \<open>\<^verbatim>\<open>shardMap[a]\<close>: an address that is not in the table reads as shard 0.\<close>

definition shard_of :: "shardMap \<Rightarrow> string \<Rightarrow> int" where
  "shard_of sm a = (case map_of sm a of None \<Rightarrow> 0 | Some k \<Rightarrow> k)"

end
