(* ===== verification/Request.thy ===== *)
theory Request
  imports Server_Types
begin

text \<open>
  One RPC: \<^verbatim>\<open>request\<close> and the body of \<^verbatim>\<open>worker\<close> (\<^verbatim>\<open>reporting-server.go\<close>). The HTTP client
  (github.com/valyala/fasthttp) is the parameter \<open>http\<close>: the error that \<^verbatim>\<open>client.Do\<close> returns for
  a request, or the status code and the body of the response. It may answer differently each
  time it is asked, so every use has its own \<open>http\<close>.
\<close>

section \<open>Definitions\<close>

record http_request =
  rq_method :: string
  rq_contentType :: string
  rq_uri :: string
  rq_body :: string

type_synonym http = "http_request \<Rightarrow> string + int \<times> string"

text \<open>The three results: the reply, the request body of a failed request, the error.\<close>

definition request :: "http \<Rightarrow> string \<Rightarrow> string \<Rightarrow> string \<times> string \<times> string option" where
  "request http node requestBody =
     (case http \<lparr>rq_method = ''POST'', rq_contentType = ''application/json'', rq_uri = node,
                 rq_body = requestBody\<rparr> of
        Inl err \<Rightarrow> ([], requestBody, Some err)
      | Inr (c, body) \<Rightarrow>
          if c \<noteq> 200
          then ([], requestBody, Some (''http status code not 200, received: '' @ FormatInt c))
          else if body = [] then ([], requestBody, Some ''empty reply received'')
          else (body, [], None))"

text \<open>What a worker puts on the reply channel for one job.\<close>

definition serve :: "http \<Rightarrow> work \<Rightarrow> reply" where
  "serve http j =
     (let (rpcResult, rpcPayload, err) = request http (''http://'' @ wk_address j) (wk_body j)
      in \<lparr>rp_address = wk_address j, rp_rpc = wk_rpc j, rp_rpcPayload = rpcPayload,
          rp_rpcResult = rpcResult, rp_oops = err\<rparr>)"

text \<open>The body of a request for an RPC without parameters.\<close>

definition rpc_body :: "string \<Rightarrow> string" where
  "rpc_body rpc = marshal_fields (getRPCRequest rpc)"

text \<open>The jobs of one round: one per address.\<close>

definition jobs_for :: "string \<Rightarrow> string list \<Rightarrow> work list" where
  "jobs_for rpc nodes = map (\<lambda>n. \<lparr>wk_address = n, wk_rpc = rpc, wk_body = rpc_body rpc\<rparr>) nodes"

section \<open>The contract of a reply\<close>

text \<open>
  A reply names the address and RPC of its job; it carries either a result that is not empty,
  or an error and the body that was sent.
\<close>

definition answers :: "work \<Rightarrow> reply \<Rightarrow> bool" where
  "answers j r \<longleftrightarrow>
     rp_address r = wk_address j \<and> rp_rpc r = wk_rpc j \<and>
     (case rp_oops r of
        None \<Rightarrow> rp_rpcResult r \<noteq> [] \<and> rp_rpcPayload r = []
      | Some _ \<Rightarrow> rp_rpcResult r = [] \<and> rp_rpcPayload r = wk_body j)"

lemma serve_answers: "answers j (serve http j)"
  by (simp add: serve_def answers_def request_def split: sum.splits)

lemma serve_all: "list_all2 answers ws (map (serve http) ws)"
  by (induction ws) (simp_all add: serve_answers)

text \<open>The contract says no more than the code: every such reply is served by some client.\<close>

lemma answers_served:
  assumes "answers j r"
  shows "\<exists>http. r = serve http j"
proof (cases "rp_oops r")
  case None
  then have "r = serve (\<lambda>_. Inr (200, rp_rpcResult r)) j"
    using assms by (cases r) (simp add: answers_def serve_def request_def)
  then show ?thesis by blast
next
  case (Some err)
  then have "r = serve (\<lambda>_. Inl err) j"
    using assms by (cases r) (simp add: answers_def serve_def request_def)
  then show ?thesis by blast
qed

lemma answers_iff_served: "answers j r \<longleftrightarrow> (\<exists>http. r = serve http j)"
  using answers_served serve_answers by blast

lemma answers_address: "answers j r \<Longrightarrow> rp_address r = wk_address j"
  by (simp add: answers_def)

lemma jobs_for_simps [simp]:
  "map wk_address (jobs_for rpc ns) = ns"
  "length (jobs_for rpc ns) = length ns"
  by (auto simp: jobs_for_def o_def)

lemma jobs_for_rpc: "j \<in> set (jobs_for rpc ns) \<Longrightarrow> wk_rpc j = rpc \<and> wk_body j = rpc_body rpc"
  by (auto simp: jobs_for_def)

section \<open>Collecting the replies of a round\<close>

text \<open>
  What the monitors rely on when they hand a list of jobs to a pool and read its reply channel:
  when the channel has been closed and read, it held exactly one answer per job, in any order.
  \<open>c\<close> is the pool's configuration; \<open>accepts c ws\<close> says which rounds it is made for, and every
  way of answering such a round can happen.
\<close>

locale collector =
  fixes accepts :: "'c \<Rightarrow> work list \<Rightarrow> bool"
    and collects :: "'c \<Rightarrow> work list \<Rightarrow> reply list \<Rightarrow> bool"
  assumes answered: "collects c ws cs \<Longrightarrow> rel_mset answers (mset ws) (mset cs)"
    and possible: "accepts c ws \<Longrightarrow> list_all2 answers ws cs \<Longrightarrow> collects c ws cs"
begin

lemma pairs:
  assumes "collects c ws cs"
  obtains rs where "list_all2 answers ws rs" and "mset rs = mset cs"
proof -
  obtain xs ys where "mset xs = mset ws" "mset ys = mset cs" "list_all2 answers xs ys"
    using answered [OF assms] by (auto simp: rel_mset_def)
  then show ?thesis
    using that list_all2_reorder_left_invariance by metis
qed

lemma addresses:
  assumes "collects c ws cs"
  shows "mset (map rp_address cs) = mset (map wk_address ws)"
proof -
  obtain rs where rs: "list_all2 answers ws rs" "mset rs = mset cs"
    by (rule pairs [OF assms])
  have "map rp_address rs = map wk_address ws"
    using rs(1) by (induction rule: list_all2_induct) (auto simp: answers_address)
  then show ?thesis using rs(2) by (metis mset_map)
qed

lemma distinct_addresses:
  "collects c ws cs \<Longrightarrow> distinct (map wk_address ws) \<Longrightarrow> distinct (map rp_address cs)"
  by (metis addresses mset_eq_imp_distinct_iff)

lemma replies_length: "collects c ws cs \<Longrightarrow> length cs = length ws"
  using addresses by (metis length_map size_mset)

lemma reply_origin:
  assumes "collects c ws cs" and "r \<in> set cs"
  shows "\<exists>w \<in> set ws. answers w r"
proof -
  obtain rs where rs: "list_all2 answers ws rs" "mset rs = mset cs"
    by (rule pairs [OF assms(1)])
  then have "r \<in> set rs" using assms(2) by (metis set_mset_mset)
  with rs(1) show ?thesis by (metis list_all2_conv_all_nth in_set_conv_nth)
qed

end

end
