(* ===== verification/Pool.thy ===== *)
theory Pool
  imports Request
begin

text \<open>
  The worker pool of \<^verbatim>\<open>reporting-server.go\<close>, shared by \<^verbatim>\<open>update\<close>, \<^verbatim>\<open>consensusMonitor\<close>,
  \<^verbatim>\<open>cxMonitor\<close> and \<^verbatim>\<open>crossLinkMonitor\<close>: a bounded job channel, workers that run
  \<^verbatim>\<open>worker\<close>, and per RPC a reply channel, a WaitGroup and one goroutine that sends the jobs of
  a round, waits, closes the reply channel and drains it (the dispatch part of \<^verbatim>\<open>manager\<close> and
  of the three monitors). One step is one channel or WaitGroup operation; steps of different
  goroutines interleave freely.
\<close>

section \<open>State\<close>

text \<open>
  Where a worker is in its loop: waiting for a job, holding one it has not answered, or between
  the send of the reply and \<^verbatim>\<open>Done\<close>.
\<close>

datatype wstate = WIdle | WBusy work | WSent work

text \<open>
  Where a dispatcher is in its round. \<open>MSend sent todo\<close> is the head of the sending loop,
  \<open>MAdd sent todo\<close> the point between \<^verbatim>\<open>jobs <- work\<close> and \<^verbatim>\<open>group.Add(1)\<close>, \<open>MClose ws\<close> the point
  after \<^verbatim>\<open>Wait\<close> returned, \<open>MDrain ws\<close> the loop over the closed channel, for the jobs \<open>ws\<close>.
\<close>

datatype mstate =
    MIdle
  | MSend "work list" "work list"
  | MAdd "work list" "work list"
  | MClose "work list"
  | MDrain "work list"

record pool =
  p_jobs :: "work list"
  p_jobcap :: nat
  p_workers :: "wstate list"
  p_group :: "string \<Rightarrow> int"
  p_chan :: "string \<Rightarrow> reply list"
  p_chancap :: nat
  p_closed :: "string \<Rightarrow> bool"
  p_mgr :: "string \<Rightarrow> mstate"
  p_panic :: "panic option"

definition new_pool :: "nat \<Rightarrow> nat \<Rightarrow> pool" where
  "new_pool poolSize nodes =
     \<lparr>p_jobs = [], p_jobcap = nodes, p_workers = replicate poolSize WIdle,
      p_group = (\<lambda>_. 0), p_chan = (\<lambda>_. []), p_chancap = nodes, p_closed = (\<lambda>_. False),
      p_mgr = (\<lambda>_. MIdle), p_panic = None\<rparr>"

section \<open>Steps\<close>

datatype event =
    ETick string "work list"
  | ESend string
  | EAdd string
  | EWait string
  | EClose string
  | EDrain string
  | ETake nat
  | EReply nat reply
  | EDone nat

text \<open>
  \<open>pstep e s\<close> is the state after \<open>e\<close>, or \<open>None\<close> when \<open>e\<close> is not possible in \<open>s\<close> (the goroutine is
  elsewhere, or blocks). A panic stops the program.
\<close>

definition mgr_step :: "string \<Rightarrow> event \<Rightarrow> pool \<Rightarrow> pool option" where
  "mgr_step r e s =
     (case (e, p_mgr s r) of
        (ETick _ ws, MIdle) \<Rightarrow>
          if (\<forall>w \<in> set ws. wk_rpc w = r) \<and> length ws \<le> p_chancap s
          then Some (s\<lparr>p_mgr := (p_mgr s)(r := MSend [] ws)\<rparr>) else None
      | (ESend _, MSend sent (w # todo)) \<Rightarrow>
          if length (p_jobs s) < p_jobcap s
          then Some (s\<lparr>p_jobs := p_jobs s @ [w], p_mgr := (p_mgr s)(r := MAdd (sent @ [w]) todo)\<rparr>)
          else None
      | (EAdd _, MAdd sent todo) \<Rightarrow>
          Some (s\<lparr>p_group := (p_group s)(r := p_group s r + 1),
                  p_mgr := (p_mgr s)(r := MSend sent todo)\<rparr>)
      | (EWait _, MSend sent []) \<Rightarrow>
          if p_group s r = 0 then Some (s\<lparr>p_mgr := (p_mgr s)(r := MClose sent)\<rparr>) else None
      | (EClose _, MClose ws) \<Rightarrow>
          Some (s\<lparr>p_closed := (p_closed s)(r := True), p_mgr := (p_mgr s)(r := MDrain ws)\<rparr>)
      | (EDrain _, MDrain ws) \<Rightarrow>
          Some (s\<lparr>p_closed := (p_closed s)(r := False), p_chan := (p_chan s)(r := []),
                  p_mgr := (p_mgr s)(r := MIdle)\<rparr>)
      | _ \<Rightarrow> None)"

definition worker_step :: "nat \<Rightarrow> event \<Rightarrow> pool \<Rightarrow> pool option" where
  "worker_step i e s =
     (if length (p_workers s) \<le> i then None
      else case (e, p_workers s ! i) of
        (ETake _, WIdle) \<Rightarrow>
          (case p_jobs s of
             [] \<Rightarrow> None
           | j # js \<Rightarrow> Some (s\<lparr>p_jobs := js, p_workers := (p_workers s)[i := WBusy j]\<rparr>))
      | (EReply _ result, WBusy j) \<Rightarrow>
          if \<not> answers j result then None
          else if p_closed s (wk_rpc j) then Some (s\<lparr>p_panic := Some SendOnClosedChannel\<rparr>)
          else if length (p_chan s (wk_rpc j)) < p_chancap s
          then Some (s\<lparr>p_chan := (p_chan s)(wk_rpc j := p_chan s (wk_rpc j) @ [result]),
                       p_workers := (p_workers s)[i := WSent j]\<rparr>)
          else None
      | (EDone _, WSent j) \<Rightarrow>
          if p_group s (wk_rpc j) - 1 < 0 then Some (s\<lparr>p_panic := Some NegativeWaitGroup\<rparr>)
          else Some (s\<lparr>p_group := (p_group s)(wk_rpc j := p_group s (wk_rpc j) - 1),
                       p_workers := (p_workers s)[i := WIdle]\<rparr>)
      | _ \<Rightarrow> None)"

definition pstep :: "event \<Rightarrow> pool \<Rightarrow> pool option" where
  "pstep e s =
     (if p_panic s \<noteq> None then None
      else case e of
        ETick r ws \<Rightarrow> mgr_step r e s
      | ESend r \<Rightarrow> mgr_step r e s
      | EAdd r \<Rightarrow> mgr_step r e s
      | EWait r \<Rightarrow> mgr_step r e s
      | EClose r \<Rightarrow> mgr_step r e s
      | EDrain r \<Rightarrow> mgr_step r e s
      | ETake i \<Rightarrow> worker_step i e s
      | EReply i result \<Rightarrow> worker_step i e s
      | EDone i \<Rightarrow> worker_step i e s)"

fun prun :: "event list \<Rightarrow> pool \<Rightarrow> pool option" where
  "prun [] s = Some s"
| "prun (e # es) s = (case pstep e s of None \<Rightarrow> None | Some s' \<Rightarrow> prun es s')"

inductive reach :: "nat \<Rightarrow> nat \<Rightarrow> pool \<Rightarrow> bool" for poolSize nodes where
  reach_init: "reach poolSize nodes (new_pool poolSize nodes)"
| reach_step: "reach poolSize nodes s \<Longrightarrow> pstep e s = Some s' \<Longrightarrow> reach poolSize nodes s'"

text \<open>The case analysis of a step, as an inductive relation.\<close>

inductive pool_step :: "pool \<Rightarrow> event \<Rightarrow> pool \<Rightarrow> bool" where
  tick: "p_panic s = None \<Longrightarrow> p_mgr s r = MIdle \<Longrightarrow> \<forall>w \<in> set ws. wk_rpc w = r \<Longrightarrow>
    length ws \<le> p_chancap s \<Longrightarrow>
    pool_step s (ETick r ws) (s\<lparr>p_mgr := (p_mgr s)(r := MSend [] ws)\<rparr>)"
| send: "p_panic s = None \<Longrightarrow> p_mgr s r = MSend sent (w # todo) \<Longrightarrow>
    length (p_jobs s) < p_jobcap s \<Longrightarrow>
    pool_step s (ESend r)
      (s\<lparr>p_jobs := p_jobs s @ [w], p_mgr := (p_mgr s)(r := MAdd (sent @ [w]) todo)\<rparr>)"
| add: "p_panic s = None \<Longrightarrow> p_mgr s r = MAdd sent todo \<Longrightarrow>
    pool_step s (EAdd r)
      (s\<lparr>p_group := (p_group s)(r := p_group s r + 1), p_mgr := (p_mgr s)(r := MSend sent todo)\<rparr>)"
| wait: "p_panic s = None \<Longrightarrow> p_mgr s r = MSend sent [] \<Longrightarrow> p_group s r = 0 \<Longrightarrow>
    pool_step s (EWait r) (s\<lparr>p_mgr := (p_mgr s)(r := MClose sent)\<rparr>)"
| close: "p_panic s = None \<Longrightarrow> p_mgr s r = MClose ws \<Longrightarrow>
    pool_step s (EClose r)
      (s\<lparr>p_closed := (p_closed s)(r := True), p_mgr := (p_mgr s)(r := MDrain ws)\<rparr>)"
| drain: "p_panic s = None \<Longrightarrow> p_mgr s r = MDrain ws \<Longrightarrow>
    pool_step s (EDrain r)
      (s\<lparr>p_closed := (p_closed s)(r := False), p_chan := (p_chan s)(r := []),
         p_mgr := (p_mgr s)(r := MIdle)\<rparr>)"
| take: "p_panic s = None \<Longrightarrow> i < length (p_workers s) \<Longrightarrow> p_workers s ! i = WIdle \<Longrightarrow>
    p_jobs s = j # js \<Longrightarrow>
    pool_step s (ETake i) (s\<lparr>p_jobs := js, p_workers := (p_workers s)[i := WBusy j]\<rparr>)"
| reply: "p_panic s = None \<Longrightarrow> i < length (p_workers s) \<Longrightarrow> p_workers s ! i = WBusy j \<Longrightarrow>
    answers j result \<Longrightarrow> \<not> p_closed s (wk_rpc j) \<Longrightarrow> length (p_chan s (wk_rpc j)) < p_chancap s \<Longrightarrow>
    pool_step s (EReply i result)
      (s\<lparr>p_chan := (p_chan s)(wk_rpc j := p_chan s (wk_rpc j) @ [result]),
         p_workers := (p_workers s)[i := WSent j]\<rparr>)"
| reply_closed: "p_panic s = None \<Longrightarrow> i < length (p_workers s) \<Longrightarrow> p_workers s ! i = WBusy j \<Longrightarrow>
    answers j result \<Longrightarrow> p_closed s (wk_rpc j) \<Longrightarrow>
    pool_step s (EReply i result) (s\<lparr>p_panic := Some SendOnClosedChannel\<rparr>)"
| finish: "p_panic s = None \<Longrightarrow> i < length (p_workers s) \<Longrightarrow> p_workers s ! i = WSent j \<Longrightarrow>
    0 \<le> p_group s (wk_rpc j) - 1 \<Longrightarrow>
    pool_step s (EDone i)
      (s\<lparr>p_group := (p_group s)(wk_rpc j := p_group s (wk_rpc j) - 1),
         p_workers := (p_workers s)[i := WIdle]\<rparr>)"
| finish_neg: "p_panic s = None \<Longrightarrow> i < length (p_workers s) \<Longrightarrow> p_workers s ! i = WSent j \<Longrightarrow>
    p_group s (wk_rpc j) - 1 < 0 \<Longrightarrow>
    pool_step s (EDone i) (s\<lparr>p_panic := Some NegativeWaitGroup\<rparr>)"

lemma pstep_iff: "pstep e s = Some s' \<longleftrightarrow> pool_step s e s'"
proof
  show "pstep e s = Some s' \<Longrightarrow> pool_step s e s'"
    by (auto simp: pstep_def mgr_step_def worker_step_def not_le intro: pool_step.intros
        split: event.splits if_splits mstate.splits wstate.splits list.splits)
  show "pool_step s e s' \<Longrightarrow> pstep e s = Some s'"
    by (induction rule: pool_step.induct) (simp_all add: pstep_def mgr_step_def worker_step_def)
qed

inductive_simps pool_step_simps:
  "pool_step s (ETick r ws) s'" "pool_step s (ESend r) s'" "pool_step s (EAdd r) s'"
  "pool_step s (EWait r) s'" "pool_step s (EClose r) s'" "pool_step s (EDrain r) s'"
  "pool_step s (ETake i) s'" "pool_step s (EReply i result) s'" "pool_step s (EDone i) s'"

section \<open>The invariant\<close>

fun sent_of :: "mstate \<Rightarrow> work list" where
  "sent_of MIdle = []"
| "sent_of (MSend sent todo) = sent"
| "sent_of (MAdd sent todo) = sent"
| "sent_of (MClose ws) = ws"
| "sent_of (MDrain ws) = ws"

fun todo_of :: "mstate \<Rightarrow> work list" where
  "todo_of (MSend sent todo) = todo"
| "todo_of (MAdd sent todo) = todo"
| "todo_of _ = []"

text \<open>The sends that \<^verbatim>\<open>Add\<close> has not counted yet.\<close>

fun uncounted :: "mstate \<Rightarrow> int" where
  "uncounted (MAdd sent todo) = 1"
| "uncounted _ = 0"

fun finished :: "mstate \<Rightarrow> bool" where
  "finished (MSend sent todo) = False"
| "finished (MAdd sent todo) = False"
| "finished _ = True"

fun draining :: "mstate \<Rightarrow> bool" where
  "draining (MDrain ws) = True"
| "draining _ = False"

definition of_rpc :: "string \<Rightarrow> work \<Rightarrow> work multiset" where
  "of_rpc r w = (if wk_rpc w = r then {#w#} else {#})"

fun busy_work :: "string \<Rightarrow> wstate \<Rightarrow> work multiset" where
  "busy_work r (WBusy w) = of_rpc r w"
| "busy_work r _ = {#}"

fun sent_work :: "string \<Rightarrow> wstate \<Rightarrow> work multiset" where
  "sent_work r (WSent w) = of_rpc r w"
| "sent_work r _ = {#}"

text \<open>The jobs of one RPC in the queue, in the hands of workers, and replied to but not \<^verbatim>\<open>Done\<close>.\<close>

definition queued :: "string \<Rightarrow> pool \<Rightarrow> work multiset" where
  "queued r s = sum_list (map (of_rpc r) (p_jobs s))"

definition busy :: "string \<Rightarrow> pool \<Rightarrow> work multiset" where
  "busy r s = sum_list (map (busy_work r) (p_workers s))"

definition undone :: "string \<Rightarrow> pool \<Rightarrow> work multiset" where
  "undone r s = sum_list (map (sent_work r) (p_workers s))"

text \<open>
  The invariant of one RPC: every job sent in this round is in the queue, with a worker, or has
  exactly one reply in the channel; and the counter of the WaitGroup is the number of jobs not
  yet done, less a send that is not counted yet.
\<close>

definition conserved :: "string \<Rightarrow> pool \<Rightarrow> bool" where
  "conserved r s \<longleftrightarrow>
     (\<exists>W. mset (sent_of (p_mgr s r)) = queued r s + busy r s + W \<and>
          rel_mset answers W (mset (p_chan s r)))"

definition counted :: "string \<Rightarrow> pool \<Rightarrow> bool" where
  "counted r s \<longleftrightarrow>
     0 \<le> p_group s r \<and>
     p_group s r + uncounted (p_mgr s r) =
       int (size (queued r s)) + int (size (busy r s)) + int (size (undone r s)) \<and>
     (finished (p_mgr s r) \<longrightarrow> p_group s r = 0)"

definition round_ok :: "string \<Rightarrow> pool \<Rightarrow> bool" where
  "round_ok r s \<longleftrightarrow>
     (p_closed s r \<longleftrightarrow> draining (p_mgr s r)) \<and>
     (\<forall>w \<in> set (sent_of (p_mgr s r) @ todo_of (p_mgr s r)). wk_rpc w = r) \<and>
     length (sent_of (p_mgr s r) @ todo_of (p_mgr s r)) \<le> p_chancap s"

definition pool_inv :: "pool \<Rightarrow> bool" where
  "pool_inv s \<longleftrightarrow> (\<forall>r. conserved r s \<and> counted r s \<and> round_ok r s)"

lemma sum_list_upd:
  "i < length xs \<Longrightarrow> sum_list (map f (xs[i := v])) + f (xs ! i) = sum_list (map f xs) + (f v :: 'b::comm_monoid_add)"
proof (induction xs arbitrary: i)
  case (Cons x xs)
  then show ?case by (cases i) (auto simp: ac_simps)
qed simp

text \<open>What a worker's move changes in the three places a job can be.\<close>

lemma worker_moves:
  assumes "i < length (p_workers s)"
  shows "p_workers s ! i = WIdle \<Longrightarrow>
      busy r (s\<lparr>p_jobs := js, p_workers := (p_workers s)[i := WBusy j]\<rparr>) = busy r s + of_rpc r j"
    and "p_workers s ! i = WIdle \<Longrightarrow>
      undone r (s\<lparr>p_jobs := js, p_workers := (p_workers s)[i := WBusy j]\<rparr>) = undone r s"
    and "p_workers s ! i = WBusy j \<Longrightarrow>
      busy r s = busy r (s\<lparr>p_chan := c, p_workers := (p_workers s)[i := WSent j]\<rparr>) + of_rpc r j"
    and "p_workers s ! i = WBusy j \<Longrightarrow>
      undone r (s\<lparr>p_chan := c, p_workers := (p_workers s)[i := WSent j]\<rparr>) = undone r s + of_rpc r j"
    and "p_workers s ! i = WSent j \<Longrightarrow>
      busy r (s\<lparr>p_group := g, p_workers := (p_workers s)[i := WIdle]\<rparr>) = busy r s"
    and "p_workers s ! i = WSent j \<Longrightarrow>
      undone r s = undone r (s\<lparr>p_group := g, p_workers := (p_workers s)[i := WIdle]\<rparr>) + of_rpc r j"
  using sum_list_upd [OF assms, of "busy_work r"] sum_list_upd [OF assms, of "sent_work r"]
  by (simp_all add: busy_def undone_def)

lemma queued_simps [simp]:
  "queued r (s\<lparr>p_jobs := js, p_mgr := m\<rparr>) = queued r (s\<lparr>p_jobs := js\<rparr>)"
  "queued r (s\<lparr>p_mgr := m\<rparr>) = queued r s"
  by (simp_all add: queued_def)

lemma counted_zero:
  "counted r s \<Longrightarrow> finished (p_mgr s r) \<Longrightarrow> queued r s = {#} \<and> busy r s = {#} \<and> undone r s = {#}"
proof -
  assume c: "counted r s" and f: "finished (p_mgr s r)"
  have "uncounted (p_mgr s r) = 0" using f by (cases "p_mgr s r") simp_all
  then have "int (size (queued r s)) + int (size (busy r s)) + int (size (undone r s)) = 0"
    using c f by (simp add: counted_def)
  then have "size (queued r s) = 0" "size (busy r s) = 0" "size (undone r s) = 0"
    by linarith+
  then show ?thesis by simp
qed

lemma inv_new_pool: "pool_inv (new_pool poolSize nodes)"
proof -
  have "sum_list (map (busy_work r) (replicate n WIdle)) = {#}"
    "sum_list (map (sent_work r) (replicate n WIdle)) = {#}" for r n
    by (induction n) simp_all
  then show ?thesis
    by (simp add: pool_inv_def conserved_def counted_def round_ok_def queued_def busy_def undone_def
        new_pool_def rel_mset_Zero)
qed

lemma of_rpc_eq [simp]: "wk_rpc j = r \<Longrightarrow> of_rpc r j = {#j#}" "wk_rpc j \<noteq> r \<Longrightarrow> of_rpc r j = {#}"
  by (auto simp: of_rpc_def)

lemma conservedI:
  "mset (sent_of (p_mgr s r)) = queued r s + busy r s + W \<Longrightarrow>
   rel_mset answers W (mset (p_chan s r)) \<Longrightarrow> conserved r s"
  by (auto simp: conserved_def)

lemma busy_simps [simp]:
  "busy r (s\<lparr>p_mgr := m\<rparr>) = busy r s" "undone r (s\<lparr>p_mgr := m\<rparr>) = undone r s"
  "busy r (s\<lparr>p_jobs := js\<rparr>) = busy r s" "undone r (s\<lparr>p_jobs := js\<rparr>) = undone r s"
  "busy r (s\<lparr>p_group := g\<rparr>) = busy r s" "undone r (s\<lparr>p_group := g\<rparr>) = undone r s"
  "busy r (s\<lparr>p_closed := c\<rparr>) = busy r s" "undone r (s\<lparr>p_closed := c\<rparr>) = undone r s"
  "busy r (s\<lparr>p_chan := h\<rparr>) = busy r s" "undone r (s\<lparr>p_chan := h\<rparr>) = undone r s"
  "queued r (s\<lparr>p_group := g\<rparr>) = queued r s" "queued r (s\<lparr>p_closed := c\<rparr>) = queued r s"
  "queued r (s\<lparr>p_chan := h\<rparr>) = queued r s" "queued r (s\<lparr>p_workers := ws\<rparr>) = queued r s"
  by (simp_all add: busy_def undone_def queued_def)

lemma queued_send [simp]:
  "queued r (s\<lparr>p_jobs := p_jobs s @ [w]\<rparr>) = queued r s + of_rpc r w"
  by (simp add: queued_def)

lemma queued_take:
  "p_jobs s = j # js \<Longrightarrow> queued r s = of_rpc r j + queued r (s\<lparr>p_jobs := js\<rparr>)"
  by (simp add: queued_def)

lemma drain_conserved:
  assumes "counted r s" and "p_mgr s r' = MDrain ws" and "r' = r"
  shows "conserved r (s\<lparr>p_closed := (p_closed s)(r' := False), p_chan := (p_chan s)(r' := []), p_mgr := (p_mgr s)(r' := MIdle)\<rparr>)"
proof -
  have "queued r s = {#}" "busy r s = {#}" using counted_zero [OF assms(1)] assms(2,3) by simp_all
  then show ?thesis using assms(3) by (intro conservedI [where W = "{#}"]) (simp_all add: rel_mset_Zero)
qed

lemma reply_conserved:
  assumes W: "mset (sent_of (p_mgr s r)) = queued r s + busy r s + W" and rel: "rel_mset answers W (mset (p_chan s r))"
    and i: "i < length (p_workers s)" "p_workers s ! i = WBusy j" and a: "answers j result"
  shows "conserved r (s\<lparr>p_chan := (p_chan s)(wk_rpc j := p_chan s (wk_rpc j) @ [result]), p_workers := (p_workers s)[i := WSent j]\<rparr>)"
proof -
  note b = worker_moves(3) [OF i, of r "(p_chan s)(wk_rpc j := p_chan s (wk_rpc j) @ [result])"]
  show ?thesis
  proof (cases "r = wk_rpc j")
    case True
    then have "rel_mset answers (add_mset j W) (mset (p_chan s r @ [result]))"
      using rel_mset_Plus [OF a rel] by simp
    with True show ?thesis using W b by (intro conservedI [where W = "add_mset j W"]) simp_all
  next
    case False
    then show ?thesis using W rel b by (intro conservedI [where W = W]) simp_all
  qed
qed

lemma step_conserved:
  assumes step: "pool_step s e s'" and ok: "p_panic s' = None" and inv: "pool_inv s"
  shows "conserved r s'"
proof -
  obtain W where W: "mset (sent_of (p_mgr s r)) = queued r s + busy r s + W"
    and rel: "rel_mset answers W (mset (p_chan s r))"
    using inv by (auto simp: pool_inv_def conserved_def)
  have cnt: "counted r s" and rnd: "round_ok r s" using inv by (simp_all add: pool_inv_def)
  from step show ?thesis
  proof cases
    case (tick r' ws)
    then show ?thesis using W rel by (intro conservedI [where W = W]) (cases "r' = r"; simp)+
  next
    case (send r' sent w todo)
    have "wk_rpc w = r'" using inv send by (auto simp: pool_inv_def round_ok_def)
    then show ?thesis using W rel send
      by (intro conservedI [where W = W]) (cases "r' = r"; simp)+
  next
    case (add r' sent todo)
    then show ?thesis using W rel by (intro conservedI [where W = W]) (cases "r' = r"; simp)+
  next
    case (wait r' sent)
    then show ?thesis using W rel by (intro conservedI [where W = W]) (cases "r' = r"; simp)+
  next
    case (close r' ws)
    then show ?thesis using W rel by (intro conservedI [where W = W]) (cases "r' = r"; simp)+
  next
    case (drain r' ws)
    then show ?thesis using drain_conserved [OF cnt, of r' ws] W rel
      by (cases "r' = r") (auto intro: conservedI [where W = W])
  next
    case (take i j js)
    then show ?thesis using W rel queued_take [OF take(6), of r]
      by (intro conservedI [where W = W]) (simp_all add: worker_moves queued_def)
  next
    case (reply i j result)
    then show ?thesis using reply_conserved [OF W rel] by simp
  next
    case (finish i j)
    then show ?thesis using W rel
      by (intro conservedI [where W = W]) (simp_all add: worker_moves)
  qed (use ok in simp_all)
qed

lemma step_counted:
  assumes step: "pool_step s e s'" and ok: "p_panic s' = None" and inv: "pool_inv s"
  shows "counted r s'"
proof -
  have cnt: "counted r s" using inv by (simp add: pool_inv_def)
  from step show ?thesis
  proof cases
    case (send r' sent w todo)
    have "wk_rpc w = r'" using inv send by (auto simp: pool_inv_def round_ok_def)
    then show ?thesis using cnt send by (cases "r' = r") (simp_all add: counted_def)
  next
    case (take i j js)
    then show ?thesis using cnt queued_take [OF take(6), of r]
      by (simp add: counted_def worker_moves queued_def)
  next
    case (reply i j result)
    note b = worker_moves(3) [OF reply(4,5), of r "(p_chan s)(wk_rpc j := p_chan s (wk_rpc j) @ [result])"]
    show ?thesis using cnt b reply by (simp add: counted_def worker_moves)
  next
    case (finish i j)
    note u = worker_moves(6) [OF finish(4,5), of r "(p_group s)(wk_rpc j := p_group s (wk_rpc j) - 1)"]
    have "r = wk_rpc j \<Longrightarrow> \<not> finished (p_mgr s r)"
      using counted_zero [OF cnt] u by auto
    then show ?thesis using cnt u finish by (cases "r = wk_rpc j") (simp_all add: counted_def worker_moves)
  qed (use cnt ok in \<open>auto simp: counted_def\<close>)
qed

lemma step_round_ok:
  assumes "pool_step s e s'" and "p_panic s' = None" and "pool_inv s"
  shows "round_ok r s'"
proof -
  have "round_ok r s" using assms(3) by (simp add: pool_inv_def)
  with assms(1) show ?thesis by cases (auto simp: round_ok_def)
qed

section \<open>Reachable states\<close>

lemma inv_step:
  assumes "pool_step s e s'" and "pool_inv s"
  shows "pool_inv s'"
proof (cases "p_panic s'")
  case None
  then show ?thesis
    using assms step_conserved step_counted step_round_ok by (simp add: pool_inv_def)
next
  case (Some p)
  with assms show ?thesis
    by cases (simp_all add: pool_inv_def conserved_def counted_def round_ok_def queued_def
        busy_def undone_def)
qed

lemma reach_inv: "reach poolSize nodes s \<Longrightarrow> pool_inv s"
  by (induction rule: reach.induct) (auto simp: inv_new_pool pstep_iff intro: inv_step)

lemma round_length:
  "pool_inv s \<Longrightarrow> length (sent_of (p_mgr s r)) + length (todo_of (p_mgr s r)) \<le> p_chancap s"
  by (simp add: pool_inv_def round_ok_def)

lemma reach_sizes:
  "reach poolSize nodes s \<Longrightarrow>
   length (p_workers s) = poolSize \<and> p_jobcap s = nodes \<and> p_chancap s = nodes"
proof (induction rule: reach.induct)
  case (reach_step s e s')
  then have "pool_step s e s'" by (simp add: pstep_iff)
  then show ?case using reach_step.IH by cases auto
qed (simp add: new_pool_def)

text \<open>A worker that holds a job or has just replied keeps the dispatcher of its RPC waiting.\<close>

lemma held_unfinished:
  assumes inv: "pool_inv s" and i: "i < length (p_workers s)"
    and j: "p_workers s ! i = WBusy j \<or> p_workers s ! i = WSent j"
  shows "\<not> finished (p_mgr s (wk_rpc j))"
proof
  assume f: "finished (p_mgr s (wk_rpc j))"
  have "counted (wk_rpc j) s" using inv by (simp add: pool_inv_def)
  then have "busy (wk_rpc j) s = {#}" "undone (wk_rpc j) s = {#}"
    using counted_zero [OF _ f] by simp_all
  with j worker_moves(3,6) [OF i, of j "wk_rpc j"] show False by auto
qed

lemma reach_panics: "reach poolSize nodes s \<Longrightarrow> p_panic s = None \<or> p_panic s = Some NegativeWaitGroup"
proof (induction rule: reach.induct)
  case (reach_step s e s')
  then have step: "pool_step s e s'" and inv: "pool_inv s"
    by (auto simp: pstep_iff reach_inv)
  from step show ?case
  proof cases
    case (reply_closed i j result)
    have "draining (p_mgr s (wk_rpc j))"
      using inv reply_closed by (simp add: pool_inv_def round_ok_def)
    then have "finished (p_mgr s (wk_rpc j))" by (cases "p_mgr s (wk_rpc j)") simp_all
    then show ?thesis using held_unfinished [OF inv] reply_closed by blast
  qed (use reach_step.IH in auto)
qed (simp add: new_pool_def)

lemma drained:
  assumes "reach poolSize nodes s" and m: "p_mgr s r = MDrain ws"
  shows "rel_mset answers (mset ws) (mset (p_chan s r))"
proof -
  have "counted r s" "conserved r s"
    using reach_inv [OF assms(1)] by (simp_all add: pool_inv_def)
  then show ?thesis
    using counted_zero [of r s] m by (auto simp: conserved_def)
qed

section \<open>Progress\<close>

fun is_tick :: "event \<Rightarrow> bool" where
  "is_tick (ETick r ws) = True"
| "is_tick _ = False"

text \<open>Some goroutine can move without a new tick.\<close>

definition can_step :: "pool \<Rightarrow> bool" where
  "can_step s \<longleftrightarrow> (\<exists>e s'. \<not> is_tick e \<and> pool_step s e s')"

lemma can_stepI: "pool_step s e s' \<Longrightarrow> \<not> is_tick e \<Longrightarrow> can_step s"
  by (auto simp: can_step_def)

text \<open>A reply exists for every job.\<close>

definition some_reply :: "work \<Rightarrow> reply" where
  "some_reply j = serve (\<lambda>_. Inl ''dialing timed out'') j"

text \<open>As long as a job is in flight some worker can move.\<close>

lemma reply_room:
  assumes inv: "pool_inv s" and i: "i < length (p_workers s)" and j: "p_workers s ! i = WBusy j"
  shows "length (p_chan s (wk_rpc j)) < p_chancap s"
proof -
  let ?r = "wk_rpc j"
  obtain W where W: "mset (sent_of (p_mgr s ?r)) = queued ?r s + busy ?r s + W"
    "rel_mset answers W (mset (p_chan s ?r))"
    using inv by (auto simp: pool_inv_def conserved_def)
  have "busy ?r s \<noteq> {#}"
    using worker_moves(3) [OF i j, of ?r] by auto
  then have "0 < size (busy ?r s)" by (simp add: nonempty_has_size)
  moreover have "size W = length (p_chan s ?r)"
    using W(2) by (metis rel_mset_size size_mset)
  moreover have "length (sent_of (p_mgr s ?r)) = size (queued ?r s) + size (busy ?r s) + size W"
    using W(1) by (metis size_mset size_union)
  moreover have "length (sent_of (p_mgr s ?r)) \<le> p_chancap s"
    using round_length [OF inv, of ?r] by simp
  ultimately show ?thesis by linarith
qed

lemma worker_can_move:
  assumes inv: "pool_inv s" and ok: "p_panic s = None" and i: "i < length (p_workers s)"
    and w: "p_workers s ! i \<noteq> WIdle \<or> p_jobs s \<noteq> []"
  shows "can_step s"
proof (cases "p_workers s ! i")
  case WIdle
  then obtain j js where "p_jobs s = j # js" using w by (cases "p_jobs s") auto
  then show ?thesis using can_stepI [OF pool_step.take [OF ok i WIdle]] by simp
next
  case (WBusy j)
  have a: "answers j (some_reply j)" by (simp add: some_reply_def serve_answers)
  show ?thesis
    using can_stepI [OF pool_step.reply [OF ok i WBusy a]]
      can_stepI [OF pool_step.reply_closed [OF ok i WBusy a]] reply_room [OF inv i WBusy]
    by (cases "p_closed s (wk_rpc j)") simp_all
next
  case (WSent j)
  then show ?thesis
    using can_stepI [OF pool_step.finish [OF ok i WSent]]
      can_stepI [OF pool_step.finish_neg [OF ok i WSent]]
    by (cases "0 \<le> p_group s (wk_rpc j) - 1") simp_all
qed

lemma in_flight_worker:
  assumes "sum_list (map f ws) \<noteq> ({#} :: work multiset)" and "f WIdle = {#}"
  shows "\<exists>i < length ws. ws ! i \<noteq> WIdle"
proof (rule ccontr)
  assume "\<not> (\<exists>i < length ws. ws ! i \<noteq> WIdle)"
  then have "\<forall>x \<in> set ws. f x = {#}" using assms(2) by (auto simp: in_set_conv_nth)
  then have "sum_list (map f ws) = {#}" by (induction ws) auto
  with assms(1) show False by simp
qed

text \<open>Jobs in the queue or in flight: a worker can move.\<close>

lemma in_flight_can_step:
  assumes inv: "pool_inv s" and ok: "p_panic s = None" and w: "p_workers s \<noteq> []"
    and flight: "p_jobs s \<noteq> [] \<or> busy r s \<noteq> {#} \<or> undone r s \<noteq> {#}"
  shows "can_step s"
proof (cases "p_jobs s = []")
  case False
  have "0 < length (p_workers s)" using w by simp
  from worker_can_move [OF inv ok this] False show ?thesis by blast
next
  case True
  with flight obtain i where "i < length (p_workers s)" "p_workers s ! i \<noteq> WIdle"
    using in_flight_worker [of "busy_work r" "p_workers s"]
      in_flight_worker [of "sent_work r" "p_workers s"] by (auto simp: busy_def undone_def)
  then show ?thesis using worker_can_move [OF inv ok] by blast
qed

lemma progress:
  assumes inv: "pool_inv s" and ok: "p_panic s = None" and w: "p_workers s \<noteq> []"
    and cap: "p_jobcap s = p_chancap s" and r: "p_mgr s r \<noteq> MIdle"
  shows "can_step s"
proof (cases "p_mgr s r")
  case (MSend sent todo)
  show ?thesis
  proof (cases todo)
    case (Cons j todo')
    then have "p_jobs s = [] \<Longrightarrow> length (p_jobs s) < p_jobcap s"
      using round_length [OF inv, of r] MSend cap by simp
    then show ?thesis
      using in_flight_can_step [OF inv ok w] can_stepI [OF pool_step.send [OF ok]] MSend Cons
      by fastforce
  next
    case Nil
    have cnt: "counted r s" using inv by (simp add: pool_inv_def)
    show ?thesis
    proof (cases "p_group s r = 0")
      case True
      then show ?thesis using can_stepI [OF pool_step.wait [OF ok]] MSend Nil by simp
    next
      case False
      then have "size (queued r s) \<noteq> 0 \<or> size (busy r s) \<noteq> 0 \<or> size (undone r s) \<noteq> 0"
        using cnt MSend by (auto simp: counted_def)
      then have "p_jobs s \<noteq> [] \<or> busy r s \<noteq> {#} \<or> undone r s \<noteq> {#}"
        by (auto simp: queued_def)
      then show ?thesis by (rule in_flight_can_step [OF inv ok w])
    qed
  qed
next
  case (MAdd sent todo)
  then show ?thesis using can_stepI [OF pool_step.add [OF ok]] by simp
next
  case (MClose ws)
  then show ?thesis using can_stepI [OF pool_step.close [OF ok]] by simp
next
  case (MDrain ws)
  then show ?thesis using can_stepI [OF pool_step.drain [OF ok]] by simp
qed (use r in simp)

section \<open>A round ends\<close>

fun mgr_cost :: "mstate \<Rightarrow> nat" where
  "mgr_cost MIdle = 0"
| "mgr_cost (MSend sent todo) = 5 * length todo + 3"
| "mgr_cost (MAdd sent todo) = 5 * length todo + 4"
| "mgr_cost (MClose ws) = 2"
| "mgr_cost (MDrain ws) = 1"

fun worker_cost :: "wstate \<Rightarrow> nat" where
  "worker_cost WIdle = 0"
| "worker_cost (WBusy w) = 2"
| "worker_cost (WSent w) = 1"

text \<open>An upper bound on the steps that are left when the RPCs in \<open>rs\<close> are in a round.\<close>

definition steps_left :: "string list \<Rightarrow> pool \<Rightarrow> nat" where
  "steps_left rs s =
     sum_list (map (\<lambda>r. mgr_cost (p_mgr s r)) rs) + 3 * length (p_jobs s) +
     sum_list (map worker_cost (p_workers s)) + (if p_panic s = None then 1 else 0)"

definition only_rounds :: "string list \<Rightarrow> pool \<Rightarrow> bool" where
  "only_rounds rs s \<longleftrightarrow> distinct rs \<and> (\<forall>r. p_mgr s r \<noteq> MIdle \<longrightarrow> r \<in> set rs)"

lemma sum_list_fun_upd:
  "distinct rs \<Longrightarrow> r \<in> set rs \<Longrightarrow>
   sum_list (map (\<lambda>x. f ((m(r := v)) x)) rs) + f (m r) = sum_list (map (\<lambda>x. f (m x)) rs) + (f v :: nat)"
proof (induction rs)
  case (Cons a rs)
  show ?case
  proof (cases "a = r")
    case True
    then have "map (\<lambda>x. f ((m(r := v)) x)) rs = map (\<lambda>x. f (m x)) rs"
      using Cons.prems by (intro map_cong) auto
    with True show ?thesis by (simp only: list.map sum_list.Cons fun_upd_same)
  qed (use Cons in simp)
qed simp

lemma step_bound:
  assumes step: "pool_step s e s'" and nt: "\<not> is_tick e" and only: "only_rounds rs s"
  shows "steps_left rs s' < steps_left rs s"
proof -
  have sum: "sum_list (map (\<lambda>x. mgr_cost (((p_mgr s)(r := v)) x)) rs) + mgr_cost (p_mgr s r) =
      sum_list (map (\<lambda>x. mgr_cost (p_mgr s x)) rs) + mgr_cost v" if "p_mgr s r \<noteq> MIdle" for r v
    using only that by (intro sum_list_fun_upd) (auto simp: only_rounds_def)
  from step nt show ?thesis
  proof cases
    case (send r sent w todo)
    then show ?thesis using sum [of r "MAdd (sent @ [w]) todo"] by (simp add: steps_left_def)
  next
    case (add r sent todo)
    then show ?thesis using sum [of r "MSend sent todo"] by (simp add: steps_left_def)
  next
    case (wait r sent)
    then show ?thesis using sum [of r "MClose sent"] by (simp add: steps_left_def)
  next
    case (close r ws)
    then show ?thesis using sum [of r "MDrain ws"] by (simp add: steps_left_def)
  next
    case (drain r ws)
    then show ?thesis using sum [of r MIdle] by (simp add: steps_left_def)
  next
    case (take i j js)
    then show ?thesis using sum_list_upd [OF take(4), of worker_cost "WBusy j"]
      by (simp add: steps_left_def)
  next
    case (reply i j result)
    then show ?thesis using sum_list_upd [OF reply(4), of worker_cost "WSent j"]
      by (simp add: steps_left_def)
  next
    case (finish i j)
    then show ?thesis using sum_list_upd [OF finish(4), of worker_cost WIdle]
      by (simp add: steps_left_def)
  qed (auto simp: steps_left_def)
qed

lemma step_only_rounds:
  "pool_step s e s' \<Longrightarrow> \<not> is_tick e \<Longrightarrow> only_rounds rs s \<Longrightarrow> only_rounds rs s'"
  by (induction rule: pool_step.cases) (auto simp: only_rounds_def split: if_splits)

lemma run_bound:
  "prun es s = Some s' \<Longrightarrow> \<forall>e \<in> set es. \<not> is_tick e \<Longrightarrow> only_rounds rs s \<Longrightarrow>
   length es + steps_left rs s' \<le> steps_left rs s"
proof (induction es arbitrary: s)
  case (Cons e es)
  then obtain s1 where s1: "pool_step s e s1" "prun es s1 = Some s'"
    by (auto simp: pstep_iff [symmetric] split: option.splits)
  then have "length es + steps_left rs s' \<le> steps_left rs s1"
    using Cons step_only_rounds [OF s1(1)] by simp
  then show ?case using step_bound [OF s1(1)] Cons.prems by fastforce
qed simp

section \<open>What a round collects\<close>

lemma reach_run: "reach poolSize nodes s \<Longrightarrow> prun es s = Some s' \<Longrightarrow> reach poolSize nodes s'"
  by (induction es arbitrary: s) (auto split: option.splits intro: reach_step)

definition pool_accepts :: "nat \<times> nat \<times> string \<Rightarrow> work list \<Rightarrow> bool" where
  "pool_accepts c ws \<longleftrightarrow>
     (let (poolSize, nodes, r) = c
      in 0 < poolSize \<and> length ws \<le> nodes \<and> (\<forall>w \<in> set ws. wk_rpc w = r))"

text \<open>The channel can hold \<open>cs\<close> when the dispatcher of \<open>r\<close> drains it for the jobs \<open>ws\<close>.\<close>

definition pool_collects :: "nat \<times> nat \<times> string \<Rightarrow> work list \<Rightarrow> reply list \<Rightarrow> bool" where
  "pool_collects c ws cs \<longleftrightarrow>
     (let (poolSize, nodes, r) = c
      in \<exists>s. reach poolSize nodes s \<and> p_mgr s r = MDrain ws \<and> p_chan s r = cs)"

text \<open>One worker handling one job at a time.\<close>

definition sequential :: "nat \<Rightarrow> nat \<Rightarrow> string \<Rightarrow> mstate \<Rightarrow> reply list \<Rightarrow> pool" where
  "sequential poolSize nodes r m cs =
     (new_pool poolSize nodes)\<lparr>p_mgr := (\<lambda>_. MIdle)(r := m), p_chan := (\<lambda>_. [])(r := cs)\<rparr>"

lemma reach_tick:
  assumes "\<forall>w \<in> set ws. wk_rpc w = r" and "length ws \<le> nodes"
  shows "reach poolSize nodes (sequential poolSize nodes r (MSend [] ws) [])"
proof -
  have "prun [ETick r ws] (new_pool poolSize nodes) =
      Some (sequential poolSize nodes r (MSend [] ws) [])"
    using assms by (simp add: sequential_def new_pool_def pstep_def mgr_step_def fun_upd_idem)
  then show ?thesis by (rule reach_run [OF reach_init])
qed

lemma sequential_job:
  assumes "answers w a" and "wk_rpc w = r" and "length cs < nodes"
  shows "prun [ESend r, EAdd r, ETake 0, EReply 0 a, EDone 0]
      (sequential (Suc n) nodes r (MSend sent (w # todo)) cs) =
    Some (sequential (Suc n) nodes r (MSend (sent @ [w]) todo) (cs @ [a]))"
  using assms
  by (simp add: sequential_def new_pool_def pstep_def mgr_step_def worker_step_def fun_upd_idem)

lemma sequential_round:
  "list_all2 answers todo as \<Longrightarrow> \<forall>w \<in> set todo. wk_rpc w = r \<Longrightarrow>
   length cs + length todo \<le> nodes \<Longrightarrow>
   reach (Suc n) nodes (sequential (Suc n) nodes r (MSend sent todo) cs) \<Longrightarrow>
   reach (Suc n) nodes (sequential (Suc n) nodes r (MSend (sent @ todo) []) (cs @ as))"
proof (induction arbitrary: sent cs rule: list_all2_induct)
  case (Cons w todo a as)
  have "reach (Suc n) nodes (sequential (Suc n) nodes r (MSend (sent @ [w]) todo) (cs @ [a]))"
    using reach_run [OF Cons.prems(3) sequential_job] Cons by simp
  with Cons.IH [of "cs @ [a]" "sent @ [w]"] Cons.prems show ?case by simp
qed simp

interpretation wp: collector pool_accepts pool_collects
proof
  fix c :: "nat \<times> nat \<times> string" and ws cs
  obtain poolSize nodes r where c: "c = (poolSize, nodes, r)" by (cases c)
  show "rel_mset answers (mset ws) (mset cs)" if "pool_collects c ws cs"
    using that drained by (auto simp: pool_collects_def c)
  show "pool_collects c ws cs" if acc: "pool_accepts c ws" and ans: "list_all2 answers ws cs"
  proof -
    obtain n where n: "poolSize = Suc n" and ws: "\<forall>w \<in> set ws. wk_rpc w = r" "length ws \<le> nodes"
      using acc by (auto simp: pool_accepts_def c gr0_conv_Suc)
    have "reach poolSize nodes (sequential poolSize nodes r (MSend [] ws) [])"
      by (rule reach_tick [OF ws])
    then have "reach poolSize nodes (sequential poolSize nodes r (MSend ws []) cs)"
      using sequential_round [OF ans, of r "[]" nodes n "[]"] ws n by simp
    moreover have "\<exists>s. prun [EWait r, EClose r] (sequential poolSize nodes r (MSend ws []) cs) = Some s
        \<and> p_mgr s r = MDrain ws \<and> p_chan s r = cs"
      by (simp add: sequential_def new_pool_def pstep_def mgr_step_def)
    ultimately show ?thesis
      using reach_run by (fastforce simp: pool_collects_def c)
  qed
qed

text \<open>Without a worker nothing is ever answered.\<close>

lemma no_worker_no_reply: "reach 0 nodes s \<Longrightarrow> p_chan s r = []"
proof (induction rule: reach.induct)
  case (reach_step s e s')
  then have step: "pool_step s e s'" and none: "length (p_workers s) = 0"
    using reach_sizes by (auto simp: pstep_iff)
  from step show ?case using reach_step.IH none by cases auto
qed (simp add: new_pool_def)

section \<open>Properties\<close>

text \<open>A round of two jobs and a network on which the second machine is down, for the witnesses.\<close>

definition sample_jobs :: "work list" where
  "sample_jobs =
     [\<lparr>wk_address = ''10.0.0.1:9500'', wk_rpc = ''r'', wk_body = ''b''\<rparr>,
      \<lparr>wk_address = ''10.0.0.2:9500'', wk_rpc = ''r'', wk_body = ''b''\<rparr>]"

definition sample_http :: http where
  "sample_http q =
     (if rq_uri q = ''http://10.0.0.1:9500'' then Inr (200, ''{}'') else Inl ''timeout'')"

definition sample_round :: pool where
  "sample_round = sequential 1 2 ''r'' (MSend [] sample_jobs) []"

lemma sample_round_reach: "reach 1 2 sample_round"
  unfolding sample_round_def by (rule reach_tick) (simp_all add: sample_jobs_def)

lemma sample_round_mgr: "p_mgr sample_round ''r'' = MSend [] sample_jobs" "p_panic sample_round = None"
  by (simp_all add: sample_round_def sequential_def new_pool_def)

text \<open>
  (C1) When a dispatcher reads its closed reply channel, the channel holds exactly one answer
  for every job of the round: every reply answers one of the jobs, and the addresses of the
  replies are the addresses of the jobs, whatever the interleaving of workers and of the other
  dispatchers was.
\<close>

theorem pool_one_reply_per_job:
  assumes "pool_collects (poolSize, nodes, rpc) ws cs"
  shows "mset (map rp_address cs) = mset (map wk_address ws) \<and>
    (\<forall>d \<in> set cs. \<exists>w \<in> set ws. answers w d)"
  using wp.addresses [OF assms] wp.reply_origin [OF assms] by blast

theorem pool_one_reply_per_job_witness:
  "pool_collects (1, 2, ''r'') sample_jobs (map (serve sample_http) sample_jobs) \<and>
   mset (map rp_address (map (serve sample_http) sample_jobs)) = mset (map wk_address sample_jobs)"
proof -
  have "pool_accepts (1, 2, ''r'') sample_jobs"
    by (simp add: pool_accepts_def sample_jobs_def)
  then have "pool_collects (1, 2, ''r'') sample_jobs (map (serve sample_http) sample_jobs)"
    by (rule wp.possible) (simp add: list_all2_conv_all_nth serve_answers)
  with pool_one_reply_per_job [OF this] show ?thesis by blast
qed

text \<open>
  (C10) No worker ever sends a reply on a closed channel, and as long as the program has not
  panicked no WaitGroup counter is negative and each equals the number of jobs of its RPC in
  the queue, in the hands of a worker or replied to but not done, less the send that is not
  counted yet.
\<close>

theorem pool_invariant:
  assumes "reach poolSize nodes s"
  shows "p_panic s \<noteq> Some SendOnClosedChannel \<and> 0 \<le> p_group s r \<and>
    p_group s r + uncounted (p_mgr s r) =
      int (size (queued r s)) + int (size (busy r s)) + int (size (undone r s))"
  using reach_panics [OF assms] reach_inv [OF assms] by (auto simp: pool_inv_def counted_def)

theorem pool_invariant_witness:
  "reach 1 2 sample_round \<and> p_panic sample_round \<noteq> Some SendOnClosedChannel \<and>
   p_group sample_round ''r'' + uncounted (p_mgr sample_round ''r'') =
     int (size (queued ''r'' sample_round)) + int (size (busy ''r'' sample_round)) +
     int (size (undone ''r'' sample_round))"
  using pool_invariant [OF sample_round_reach, of "''r''"] sample_round_reach by blast

text \<open>
  (C9) With at least one worker the pool cannot deadlock: as long as some dispatcher is in a
  round and the program has not panicked, some goroutine can move without a new tick.
\<close>

theorem pool_no_deadlock:
  assumes "reach poolSize nodes s" and "0 < poolSize" and "p_panic s = None"
    and "p_mgr s r \<noteq> MIdle"
  shows "\<exists>e s'. \<not> is_tick e \<and> pstep e s = Some s'"
proof -
  have "p_workers s \<noteq> []" "p_jobcap s = p_chancap s"
    using reach_sizes [OF assms(1)] assms(2) by auto
  from progress [OF reach_inv [OF assms(1)] assms(3) this assms(4)] show ?thesis
    by (simp add: can_step_def pstep_iff)
qed

theorem pool_no_deadlock_witness:
  "reach 1 2 sample_round \<and> p_mgr sample_round ''r'' = MSend [] sample_jobs \<and>
   (\<exists>e s'. \<not> is_tick e \<and> pstep e sample_round = Some s')"
  using pool_no_deadlock [OF sample_round_reach, of "''r''"] sample_round_reach sample_round_mgr
  by simp

text \<open>
  (C8) Every round ends: without new ticks at most \<open>steps_left\<close> steps are possible, and some run
  reaches the point where every dispatcher is idle again or the WaitGroup has panicked.
\<close>

theorem pool_round_ends:
  assumes "reach poolSize nodes s" and "0 < poolSize" and "only_rounds rs s"
  shows "(\<forall>es s'. prun es s = Some s' \<and> (\<forall>e \<in> set es. \<not> is_tick e) \<longrightarrow>
      length es \<le> steps_left rs s) \<and>
    (\<exists>es s'. prun es s = Some s' \<and> (\<forall>e \<in> set es. \<not> is_tick e) \<and>
      (p_panic s' = Some NegativeWaitGroup \<or> (\<forall>r. p_mgr s' r = MIdle)))"
proof (intro conjI allI impI)
  show "length es \<le> steps_left rs s" if "prun es s = Some s' \<and> (\<forall>e \<in> set es. \<not> is_tick e)" for es s'
    using run_bound [of es s s' rs] that assms(3) by simp
next
  show "\<exists>es s'. prun es s = Some s' \<and> (\<forall>e \<in> set es. \<not> is_tick e) \<and>
      (p_panic s' = Some NegativeWaitGroup \<or> (\<forall>r. p_mgr s' r = MIdle))"
    using assms(1,3)
  proof (induction "steps_left rs s" arbitrary: s rule: less_induct)
    case less
    show ?case
    proof (cases "p_panic s = None \<and> (\<exists>r. p_mgr s r \<noteq> MIdle)")
      case False
      then have "p_panic s = Some NegativeWaitGroup \<or> (\<forall>r. p_mgr s r = MIdle)"
        using reach_panics [OF less.prems(1)] by auto
      then show ?thesis by (intro exI [of _ "[]"] exI [of _ s]) simp
    next
      case True
      then have "can_step s"
        using progress [OF reach_inv [OF less.prems(1)]] reach_sizes [OF less.prems(1)] assms(2)
        by fastforce
      then obtain e s1 where e: "\<not> is_tick e" "pool_step s e s1"
        by (auto simp: can_step_def)
      then have "steps_left rs s1 < steps_left rs s" "reach poolSize nodes s1" "only_rounds rs s1"
        using step_bound step_only_rounds less.prems reach_step [OF less.prems(1)]
        by (auto simp: pstep_iff)
      from less.hyps [OF this] obtain es s' where
        "prun es s1 = Some s'" "\<forall>e \<in> set es. \<not> is_tick e"
        "p_panic s' = Some NegativeWaitGroup \<or> (\<forall>r. p_mgr s' r = MIdle)"
        by blast
      then show ?thesis
        using e by (intro exI [of _ "e # es"] exI [of _ s']) (simp add: pstep_iff [symmetric])
    qed
  qed
qed

theorem pool_round_ends_witness:
  "reach 1 2 sample_round \<and> steps_left [''r''] sample_round = 14 \<and>
   (\<exists>es s'. prun es sample_round = Some s' \<and>
      (p_panic s' = Some NegativeWaitGroup \<or> (\<forall>r. p_mgr s' r = MIdle)))"
proof -
  have "only_rounds [''r''] sample_round"
    by (simp add: only_rounds_def sample_round_def sequential_def)
  from pool_round_ends [OF sample_round_reach _ this] have
    "\<exists>es s'. prun es sample_round = Some s' \<and>
      (p_panic s' = Some NegativeWaitGroup \<or> (\<forall>r. p_mgr s' r = MIdle))"
    by fastforce
  moreover have "steps_left [''r''] sample_round = 14"
    by (simp add: steps_left_def sample_round_def sequential_def new_pool_def sample_jobs_def)
  ultimately show ?thesis using sample_round_reach by blast
qed

text \<open>
  (C15) Because \<^verbatim>\<open>group.Add(1)\<close> comes after \<^verbatim>\<open>jobs <- work\<close>, a worker can take the job, answer it and
  call \<^verbatim>\<open>Done\<close> first: in every pool with a worker and room for a job, a round with one job can
  end in the panic of a negative WaitGroup counter.
\<close>

theorem pool_negative_counter:
  assumes "0 < poolSize" and "0 < nodes"
  shows "\<exists>s. prun [ETick (wk_rpc w) [w], ESend (wk_rpc w), ETake 0, EReply 0 (serve http w), EDone 0]
      (new_pool poolSize nodes) = Some s \<and> p_panic s = Some NegativeWaitGroup"
  using assms
  by (cases poolSize)
     (simp_all add: new_pool_def pstep_def mgr_step_def worker_step_def serve_answers)

theorem pool_negative_counter_witness:
  "\<exists>s. prun [ETick ''r'' [\<lparr>wk_address = ''a'', wk_rpc = ''r'', wk_body = ''b''\<rparr>], ESend ''r'', ETake 0,
      EReply 0 (serve (\<lambda>_. Inr (200, ''x'')) \<lparr>wk_address = ''a'', wk_rpc = ''r'', wk_body = ''b''\<rparr>),
      EDone 0] (new_pool 3 2) = Some s \<and> p_panic s = Some NegativeWaitGroup"
  using pool_negative_counter [of 3 2 "\<lparr>wk_address = ''a'', wk_rpc = ''r'', wk_body = ''b''\<rparr>"
      "\<lambda>_. Inr (200, ''x'')"] by simp

text \<open>
  Without a worker no round with a job is ever drained: the dispatcher stays blocked (a
  negative \<^verbatim>\<open>num-workers\<close>, which the configuration check accepts, starts no worker).
\<close>

theorem pool_without_workers:
  assumes "reach 0 nodes s" and "p_mgr s r = MDrain ws"
  shows "ws = []"
  using drained [OF assms] no_worker_no_reply [OF assms(1), of r] rel_mset_size by fastforce

theorem pool_without_workers_witness:
  "\<exists>s ws. reach 0 5 s \<and> p_mgr s ''r'' = MDrain ws \<and> ws = []"
proof -
  let ?s = "(new_pool 0 5)\<lparr>p_closed := (\<lambda>_. False)(''r'' := True),
    p_mgr := (\<lambda>_. MIdle)(''r'' := MDrain [])\<rparr>"
  have "prun [ETick ''r'' [], EWait ''r'', EClose ''r''] (new_pool 0 5) = Some ?s"
    by (simp add: new_pool_def pstep_def mgr_step_def)
  from reach_run [OF reach_init this] have r: "reach 0 5 ?s" .
  have m: "p_mgr ?s ''r'' = MDrain []" by simp
  show ?thesis using r m pool_without_workers [OF r m] by blast
qed

end
