(* ===== verification/Linq.thy ===== *)
theory Linq
  imports Server_Types
begin

text \<open>
  The package github.com/ahmetb/go-linq, which is not part of the sources, as a parameter: a
  record of the queries the program runs, at the types it runs them, and \<open>linq_laws\<close>, what the
  package documents of them. \<^verbatim>\<open>GroupBy\<close> returns one group per key, in no stated order, with
  the elements of that key; \<^verbatim>\<open>Distinct\<close> is documented as unordered; \<^verbatim>\<open>Min\<close>, \<^verbatim>\<open>Max\<close> and
  \<^verbatim>\<open>FirstWith\<close> return nil when there is nothing to return. \<open>linq_ref\<close> is one implementation
  with these laws, for evaluating concrete inputs.
\<close>

record linq =
  lq_groupBy_header :: "(BlockHeader \<Rightarrow> u32) \<Rightarrow> BlockHeader list \<Rightarrow> (u32 \<times> BlockHeader list) list"
  lq_groupBy_version :: "(NodeMetadata \<Rightarrow> string) \<Rightarrow> NodeMetadata list \<Rightarrow> (string \<times> NodeMetadata list) list"
  lq_groupBy_shard :: "(NodeMetadata \<Rightarrow> u32) \<Rightarrow> NodeMetadata list \<Rightarrow> (u32 \<times> NodeMetadata list) list"
  lq_select_header :: "(BlockHeader \<Rightarrow> u64) \<Rightarrow> BlockHeader list \<Rightarrow> u64 list"
  lq_select_noReply :: "(noReply \<Rightarrow> string) \<Rightarrow> noReply list \<Rightarrow> string list"
  lq_where_meta :: "(NodeMetadata \<Rightarrow> bool) \<Rightarrow> NodeMetadata list \<Rightarrow> NodeMetadata list"
  lq_distinct_u64 :: "u64 list \<Rightarrow> u64 list"
  lq_distinct_string :: "string list \<Rightarrow> string list"
  lq_min :: "u64 list \<Rightarrow> u64 option"
  lq_max :: "u64 list \<Rightarrow> u64 option"
  lq_firstWith_header :: "(BlockHeader \<Rightarrow> bool) \<Rightarrow> BlockHeader list \<Rightarrow> BlockHeader option"
  lq_firstWith_meta :: "(NodeMetadata \<Rightarrow> bool) \<Rightarrow> NodeMetadata list \<Rightarrow> NodeMetadata option"

section \<open>Laws\<close>

definition groupBy_law :: "(('a \<Rightarrow> 'k) \<Rightarrow> 'a list \<Rightarrow> ('k \<times> 'a list) list) \<Rightarrow> bool" where
  "groupBy_law g \<longleftrightarrow>
     (\<forall>f xs. distinct (map fst (g f xs)) \<and> fst ` set (g f xs) = f ` set xs \<and>
        (\<forall>kg \<in> set (g f xs). mset (snd kg) = mset (filter (\<lambda>x. f x = fst kg) xs)))"

definition distinct_law :: "('a list \<Rightarrow> 'a list) \<Rightarrow> bool" where
  "distinct_law d \<longleftrightarrow> (\<forall>xs. distinct (d xs) \<and> set (d xs) = set xs)"

definition min_law :: "('a::linorder list \<Rightarrow> 'a option) \<Rightarrow> bool" where
  "min_law m \<longleftrightarrow> (\<forall>xs. m xs = (if xs = [] then None else Some (Min (set xs))))"

definition max_law :: "('a::linorder list \<Rightarrow> 'a option) \<Rightarrow> bool" where
  "max_law m \<longleftrightarrow> (\<forall>xs. m xs = (if xs = [] then None else Some (Max (set xs))))"

definition linq_laws :: "linq \<Rightarrow> bool" where
  "linq_laws lq \<longleftrightarrow>
     groupBy_law (lq_groupBy_header lq) \<and> groupBy_law (lq_groupBy_version lq) \<and>
     groupBy_law (lq_groupBy_shard lq) \<and>
     (\<forall>f xs. lq_select_header lq f xs = map f xs) \<and>
     (\<forall>f xs. lq_select_noReply lq f xs = map f xs) \<and>
     (\<forall>P xs. lq_where_meta lq P xs = filter P xs) \<and>
     distinct_law (lq_distinct_u64 lq) \<and> distinct_law (lq_distinct_string lq) \<and>
     min_law (lq_min lq) \<and> max_law (lq_max lq) \<and>
     (\<forall>P xs. lq_firstWith_header lq P xs = find P xs) \<and>
     (\<forall>P xs. lq_firstWith_meta lq P xs = find P xs)"

lemma groupBy_keys:
  "groupBy_law g \<Longrightarrow> distinct (map fst (g f xs)) \<and> fst ` set (g f xs) = f ` set xs"
  by (simp add: groupBy_law_def)

lemma groupBy_group:
  "groupBy_law g \<Longrightarrow> (k, grp) \<in> set (g f xs) \<Longrightarrow> mset grp = mset (filter (\<lambda>x. f x = k) xs)"
  by (fastforce simp: groupBy_law_def)

lemma groupBy_group_set:
  "groupBy_law g \<Longrightarrow> (k, grp) \<in> set (g f xs) \<Longrightarrow> set grp = {x \<in> set xs. f x = k}"
  using groupBy_group [of g k grp f xs] by (metis mset_eq_setD set_filter)

lemma groupBy_group_nonempty:
  assumes "groupBy_law g" and "(k, grp) \<in> set (g f xs)"
  shows "grp \<noteq> []"
proof -
  have "k \<in> f ` set xs"
    using assms groupBy_keys [OF assms(1), of f xs] by (force simp: image_iff)
  then have "set grp \<noteq> {}"
    using groupBy_group_set [OF assms] by auto
  then show ?thesis by auto
qed

section \<open>A reference implementation\<close>

definition groupBy_ref :: "('a \<Rightarrow> 'k) \<Rightarrow> 'a list \<Rightarrow> ('k \<times> 'a list) list" where
  "groupBy_ref f xs = map (\<lambda>k. (k, filter (\<lambda>x. f x = k) xs)) (remdups (map f xs))"

fun min_ref :: "'a::linorder list \<Rightarrow> 'a option" where
  "min_ref [] = None"
| "min_ref (x # xs) = (case min_ref xs of None \<Rightarrow> Some x | Some y \<Rightarrow> Some (min x y))"

fun max_ref :: "'a::linorder list \<Rightarrow> 'a option" where
  "max_ref [] = None"
| "max_ref (x # xs) = (case max_ref xs of None \<Rightarrow> Some x | Some y \<Rightarrow> Some (max x y))"

definition linq_ref :: linq where
  "linq_ref =
     \<lparr>lq_groupBy_header = groupBy_ref, lq_groupBy_version = groupBy_ref,
      lq_groupBy_shard = groupBy_ref, lq_select_header = map, lq_select_noReply = map,
      lq_where_meta = filter, lq_distinct_u64 = remdups, lq_distinct_string = remdups,
      lq_min = min_ref, lq_max = max_ref, lq_firstWith_header = find, lq_firstWith_meta = find\<rparr>"

lemma groupBy_ref_law: "groupBy_law groupBy_ref"
  by (auto simp: groupBy_law_def groupBy_ref_def o_def image_image)

lemma min_ref_eq: "min_ref xs = (if xs = [] then None else Some (Min (set xs)))"
  by (induction xs) auto

lemma max_ref_eq: "max_ref xs = (if xs = [] then None else Some (Max (set xs)))"
  by (induction xs) auto

lemma linq_ref_laws: "linq_laws linq_ref"
  by (simp add: linq_laws_def linq_ref_def groupBy_ref_law distinct_law_def min_law_def
      max_law_def min_ref_eq max_ref_eq)

end
