(* ===== verification/Summary.thy ===== *)
theory Summary
  imports Linq
begin

text \<open>
  \<^verbatim>\<open>blockHeaderSummary\<close> and \<^verbatim>\<open>summaryMaps\<close> of \<^verbatim>\<open>reporting-server.go\<close>: grouping the collected
  headers by shard and the collected metadata by version and by shard.
\<close>

section \<open>Definitions\<close>

definition metaSumry :: string where "metaSumry = ''node-metadata''"
definition headerSumry :: string where "headerSumry = ''block-header''"
definition chainSumry :: string where "chainSumry = ''chain-config''"
definition committeeSumry :: string where "committeeSumry = ''staking-committee''"
definition blockMax :: string where "blockMax = ''block-max''"

lemmas sumry_names = metaSumry_def headerSumry_def chainSumry_def committeeSumry_def

abbreviation hdr_shard :: "BlockHeader \<Rightarrow> u32" where
  "hdr_shard h \<equiv> bh_ShardID (hd_Payload h)"

abbreviation hdr_number :: "BlockHeader \<Rightarrow> u64" where
  "hdr_number h \<equiv> bh_BlockNumber (hd_Payload h)"

abbreviation hdr_epoch :: "BlockHeader \<Rightarrow> u64" where
  "hdr_epoch h \<equiv> bh_Epoch (hd_Payload h)"

abbreviation meta_shard :: "NodeMetadata \<Rightarrow> u32" where
  "meta_shard d \<equiv> nm_ShardID (md_Payload d)"

abbreviation meta_version :: "NodeMetadata \<Rightarrow> string" where
  "meta_version d \<equiv> nm_Version (md_Payload d)"

text \<open>What a query returns, as an interface value: nil when there is nothing.\<close>

definition val_uint :: "u64 option \<Rightarrow> ival" where
  "val_uint v = (case v of None \<Rightarrow> VNil | Some w \<Rightarrow> VUint w)"

definition val_header :: "BlockHeader option \<Rightarrow> ival" where
  "val_header v = (case v of None \<Rightarrow> VNil | Some h \<Rightarrow> VHeader h)"

text \<open>The body of the loop over the groups: the entry of one shard.\<close>

definition header_entry :: "linq \<Rightarrow> BlockHeader list \<Rightarrow> bool \<Rightarrow> (string, ival) gomap" where
  "header_entry lq grp includeRecords =
     (let block = lq_select_header lq hdr_number grp;
          epoch = lq_select_header lq hdr_epoch grp;
          uniqEpochs = sort_desc (lq_distinct_u64 lq epoch);
          uniqBlockNums = sort_desc (lq_distinct_u64 lq block);
          entry =
            [(''block-min'', val_uint (lq_min lq block)),
             (blockMax, val_uint (lq_max lq block)),
             (''epoch-min'', val_uint (lq_min lq epoch)),
             (''epoch-max'', val_uint (lq_max lq epoch)),
             (''uniq-epochs'', VUints uniqEpochs),
             (''uniq-blocks'', VUints uniqBlockNums)]
      in if includeRecords
         then AList.update ''latest-block''
                (val_header (lq_firstWith_header lq (\<lambda>c. Some (hdr_number c) = lq_max lq block) grp))
                (AList.update ''records'' (VSlice (map VHeader grp)) entry)
         else entry)"

definition blockHeaderSummary ::
  "linq \<Rightarrow> BlockHeader list \<Rightarrow> bool \<Rightarrow> (string, ival) gomap \<Rightarrow> (string, ival) gomap" where
  "blockHeaderSummary lq headers includeRecords sm =
     fold (\<lambda>value. AList.update (FormatUint (fst value))
                    (VAny (header_entry lq (snd value) includeRecords)))
       (lq_groupBy_header lq hdr_shard headers) sm"

text \<open>Shortening the signatures writes into the slice it is given, up to the point of a panic.\<close>

definition shorten :: "string \<Rightarrow> string result" where
  "shorten s =
     (case slice s 0 5 of
        Inl p \<Rightarrow> Inl p
      | Inr a \<Rightarrow>
          (case slice s (int (length s) - 5) (int (length s)) of
             Inl p \<Rightarrow> Inl p
           | Inr b \<Rightarrow> Inr (a @ ''...'' @ b)))"

fun shorten_sigs :: "BlockHeader list \<Rightarrow> BlockHeader list \<times> panic option" where
  "shorten_sigs [] = ([], None)"
| "shorten_sigs (n # ns) =
     (let s = bh_LastCommitSig (hd_Payload n)
      in if 0 < length s then
           (case shorten s of
              Inl p \<Rightarrow> (n # ns, Some p)
            | Inr shorted \<Rightarrow>
                (let (ms, r) = shorten_sigs ns
                 in (n\<lparr>hd_Payload := (hd_Payload n)\<lparr>bh_LastCommitSig := shorted\<rparr>\<rparr> # ms, r)))
         else (let (ms, r) = shorten_sigs ns in (n # ms, r)))"

definition chain_entry :: "NodeMetadata \<Rightarrow> (string, ival) gomap" where
  "chain_entry sample =
     (let p = md_Payload sample; c = nm_ChainConfig p
      in [(''chain-id'', VInt (cc_ChainID c)),
          (''cross-link-epoch'', VInt (cc_CrossLinkEpoch c)),
          (''cross-tx-epoch'', VInt (cc_CrossTxEpoch c)),
          (''eip155-epoch'', VInt (cc_Eip155Epoch c)),
          (''s3-epoch'', VInt (cc_S3Epoch c)),
          (''pre-staking-epoch'', VInt (cc_PreStakingEpoch c)),
          (''staking-epoch'', VInt (cc_StakingEpoch c)),
          (''blocks-per-epoch'', VInt (nm_BlocksPerEpoch p)),
          (''dns-zone'', VStr (nm_DNSZone p))])"

definition add_version :: "string \<times> NodeMetadata list \<Rightarrow> summary \<Rightarrow> summary" where
  "add_version value sm =
     sput metaSumry (fst value) (VMap [(''records'', VSlice (map VMeta (snd value)))]) sm"

definition add_chain :: "linq \<Rightarrow> u32 \<times> NodeMetadata list \<Rightarrow> summary \<Rightarrow> summary result" where
  "add_chain lq value sm =
     (let shardID = fst value
      in case lq_firstWith_meta lq (\<lambda>c. meta_shard c = shardID) (snd value) of
           None \<Rightarrow> Inl BadTypeAssertion
         | Some sample \<Rightarrow>
             Inr (sput chainSumry (Itoa (uint shardID)) (VAny (chain_entry sample)) sm))"

definition empty_summary :: summary where
  "empty_summary =
     [(metaSumry, []), (headerSumry, []), (chainSumry, []), (committeeSumry, [])]"

text \<open>
  \<^verbatim>\<open>summaryMaps\<close> returns the summary or panics, and in both cases leaves the header slice
  changed: the result carries the slice beside it.
\<close>

definition summaryMaps ::
  "linq \<Rightarrow> NodeMetadata list \<Rightarrow> BlockHeader list \<Rightarrow> BlockHeader list \<times> summary result" where
  "summaryMaps lq metas headers =
     (case shorten_sigs headers of
        (hs, Some p) \<Rightarrow> (hs, Inl p)
      | (hs, None) \<Rightarrow>
          (hs,
           (case fold_result (add_chain lq) (lq_groupBy_shard lq meta_shard metas)
                   (fold add_version (lq_groupBy_version lq meta_version metas) empty_summary) of
              Inl p \<Rightarrow> Inl p
            | Inr sm \<Rightarrow>
                Inr (AList.update headerSumry
                       (blockHeaderSummary lq hs True (sget sm headerSumry)) sm))))"

section \<open>One shard's entry\<close>

lemma linq_simps:
  assumes "linq_laws lq"
  shows "lq_select_header lq f hs = map f hs"
    and "lq_select_noReply lq g ns = map g ns"
    and "lq_where_meta lq Q ms = filter Q ms"
    and "lq_firstWith_header lq P hs = find P hs"
    and "lq_firstWith_meta lq Q ms = find Q ms"
    and "xs \<noteq> [] \<Longrightarrow> lq_min lq xs = Some (Min (set xs))"
    and "xs \<noteq> [] \<Longrightarrow> lq_max lq xs = Some (Max (set xs))"
    and "distinct (lq_distinct_u64 lq xs)"
    and "set (lq_distinct_u64 lq xs) = set xs"
    and "distinct (lq_distinct_string lq ys)"
    and "set (lq_distinct_string lq ys) = set ys"
  using assms by (simp_all add: linq_laws_def min_law_def max_law_def distinct_law_def)

lemma linq_groups:
  assumes "linq_laws lq"
  shows "groupBy_law (lq_groupBy_header lq)"
    and "groupBy_law (lq_groupBy_version lq)"
    and "groupBy_law (lq_groupBy_shard lq)"
  using assms by (simp_all add: linq_laws_def)

text \<open>
  What an entry with records says about the headers \<open>hs\<close> of a shard, independently of how it
  was computed.
\<close>

definition summarises :: "(string, ival) gomap \<Rightarrow> BlockHeader list \<Rightarrow> bool" where
  "summarises e hs \<longleftrightarrow>
     iget e ''block-min'' = VUint (Min (hdr_number ` set hs)) \<and>
     iget e blockMax = VUint (Max (hdr_number ` set hs)) \<and>
     iget e ''epoch-min'' = VUint (Min (hdr_epoch ` set hs)) \<and>
     iget e ''epoch-max'' = VUint (Max (hdr_epoch ` set hs)) \<and>
     (\<exists>us. iget e ''uniq-epochs'' = VUints us \<and> sorted_wrt (>) us \<and> set us = hdr_epoch ` set hs) \<and>
     (\<exists>us. iget e ''uniq-blocks'' = VUints us \<and> sorted_wrt (>) us \<and> set us = hdr_number ` set hs) \<and>
     (\<exists>rs. iget e ''records'' = VSlice (map VHeader rs) \<and> mset rs = mset hs) \<and>
     (\<exists>h. iget e ''latest-block'' = VHeader h \<and> h \<in> set hs \<and>
        hdr_number h = Max (hdr_number ` set hs))"

lemma find_max:
  assumes "xs \<noteq> []"
  obtains h where "find (\<lambda>c. f c = Max (f ` set xs)) xs = Some h"
    and "h \<in> set xs" and "f h = (Max (f ` set xs) :: 'a::linorder)"
proof -
  have "Max (f ` set xs) \<in> f ` set xs" using assms by (intro Max_in) auto
  then have "find (\<lambda>c. f c = Max (f ` set xs)) xs \<noteq> None"
    by (auto simp: find_None_iff)
  then obtain h where h: "find (\<lambda>c. f c = Max (f ` set xs)) xs = Some h" by auto
  then have "h \<in> set xs" "f h = Max (f ` set xs)"
    by (auto simp: find_Some_iff)
  with that h show ?thesis by blast
qed

lemma header_entry_summarises:
  assumes lq: "linq_laws lq" and ne: "grp \<noteq> []"
  shows "summarises (header_entry lq grp True) grp"
proof -
  obtain h where h: "find (\<lambda>c. hdr_number c = Max (hdr_number ` set grp)) grp = Some h"
    "h \<in> set grp" "hdr_number h = Max (hdr_number ` set grp)"
    using find_max [OF ne, of hdr_number] by blast
  show ?thesis
    unfolding summarises_def header_entry_def Let_def
    using h ne
    by (auto simp: linq_simps [OF lq] iget_update iget_def val_uint_def val_header_def
        blockMax_def sort_desc_strict)
qed

lemma summarises_mset: "summarises e xs \<Longrightarrow> mset xs = mset ys \<Longrightarrow> summarises e ys"
  unfolding summarises_def by (metis mset_eq_setD)

section \<open>blockHeaderSummary\<close>

lemma inj_FormatUint: "inj (FormatUint :: 'a::len word \<Rightarrow> string)"
  by (auto intro: injI)

lemma shard_keys_distinct:
  "distinct (map fst xs) \<Longrightarrow> distinct (map (\<lambda>v. FormatUint (fst v :: 'a::len word)) xs)"
  using distinct_map [of FormatUint "map fst xs"] inj_on_subset [OF inj_FormatUint subset_UNIV]
  by (simp add: o_def)

lemma blockHeaderSummary_keys:
  assumes "linq_laws lq"
  shows "fst ` set (blockHeaderSummary lq headers inc sm) =
    fst ` set sm \<union> (\<lambda>h. FormatUint (hdr_shard h)) ` set headers"
proof -
  have "FormatUint ` fst ` set (lq_groupBy_header lq hdr_shard headers) =
      FormatUint ` hdr_shard ` set headers"
    using groupBy_keys [OF linq_groups(1) [OF assms], of hdr_shard headers] by simp
  then show ?thesis
    by (simp add: blockHeaderSummary_def keys_fold_update image_image)
qed

lemma blockHeaderSummary_lookup:
  assumes lq: "linq_laws lq" and h: "h \<in> set headers" and k: "hdr_shard h = k"
  shows "\<exists>grp. mset grp = mset (filter (\<lambda>x. hdr_shard x = k) headers) \<and> grp \<noteq> [] \<and>
    map_of (blockHeaderSummary lq headers inc sm) (FormatUint k) =
      Some (VAny (header_entry lq grp inc))"
proof -
  let ?gs = "lq_groupBy_header lq hdr_shard headers"
  note law = linq_groups(1) [OF lq]
  have "k \<in> fst ` set ?gs"
    using groupBy_keys [OF law] h k by blast
  then obtain grp where g: "(k, grp) \<in> set ?gs" by force
  have "distinct (map (\<lambda>v. FormatUint (fst v)) ?gs)"
    using groupBy_keys [OF law] by (blast intro: shard_keys_distinct)
  from map_of_fold_update_in [OF this g, of "\<lambda>v. VAny (header_entry lq (snd v) inc)" sm]
  have "map_of (blockHeaderSummary lq headers inc sm) (FormatUint k) =
      Some (VAny (header_entry lq grp inc))"
    by (simp add: blockHeaderSummary_def)
  with groupBy_group [OF law g] groupBy_group_nonempty [OF law g] show ?thesis by blast
qed

lemma blockHeaderSummary_entry:
  assumes "linq_laws lq" and "h \<in> set headers" and "hdr_shard h = k"
  shows "\<exists>e. map_of (blockHeaderSummary lq headers True sm) (FormatUint k) = Some (VAny e) \<and>
    summarises e (filter (\<lambda>x. hdr_shard x = k) headers)"
  using blockHeaderSummary_lookup [OF assms, of True sm]
    header_entry_summarises [OF assms(1)] summarises_mset by blast

lemma gomap_blockHeaderSummary: "gomap sm \<Longrightarrow> gomap (blockHeaderSummary lq headers inc sm)"
  by (simp add: blockHeaderSummary_def gomap_fold_update)

section \<open>Shortening\<close>

lemma shorten_eq:
  "shorten s = (if length s < 5 then Inl SliceBounds
     else Inr (take 5 s @ ''...'' @ drop (length s - 5) s))"
  by (auto simp: shorten_def slice_def nat_diff_distrib)

lemma shorten_idem: "shorten s = Inr t \<Longrightarrow> shorten t = Inr t"
  by (auto simp: shorten_eq split: if_splits)

text \<open>A signature the loop can shorten: empty, or at least five bytes long.\<close>

definition sig_ok :: "BlockHeader \<Rightarrow> bool" where
  "sig_ok h \<longleftrightarrow>
     (let n = length (bh_LastCommitSig (hd_Payload h)) in n = 0 \<or> 5 \<le> n)"

definition short_hdr :: "BlockHeader \<Rightarrow> BlockHeader" where
  "short_hdr h =
     (case shorten (bh_LastCommitSig (hd_Payload h)) of
        Inl _ \<Rightarrow> h
      | Inr t \<Rightarrow> h\<lparr>hd_Payload := (hd_Payload h)\<lparr>bh_LastCommitSig := t\<rparr>\<rparr>)"

lemma short_hdr_simps [simp]:
  "hdr_shard (short_hdr h) = hdr_shard h"
  "hdr_number (short_hdr h) = hdr_number h"
  "hdr_epoch (short_hdr h) = hdr_epoch h"
  "hd_IP (short_hdr h) = hd_IP h"
  by (simp_all add: short_hdr_def split: sum.splits)

lemma short_hdr_idem [simp]: "short_hdr (short_hdr h) = short_hdr h"
  by (auto simp: short_hdr_def split: sum.splits dest: shorten_idem)

lemma shorten_sigs_ok:
  "\<forall>h \<in> set hs. sig_ok h \<Longrightarrow> shorten_sigs hs = (map short_hdr hs, None)"
  by (induction hs)
     (auto simp: Let_def sig_ok_def short_hdr_def shorten_eq split: sum.splits)

lemma shorten_sigs_panic:
  "snd (shorten_sigs hs) = None \<longleftrightarrow> (\<forall>h \<in> set hs. sig_ok h)"
  by (induction hs) (auto simp: Let_def sig_ok_def shorten_eq split: sum.splits prod.splits)

lemma shorten_sigs_which: "snd (shorten_sigs hs) = Some p \<Longrightarrow> p = SliceBounds"
  by (induction hs) (auto simp: Let_def shorten_eq split: sum.splits prod.splits if_splits)

lemma sig_ok_short: "sig_ok h \<Longrightarrow> sig_ok (short_hdr h)"
  by (auto simp: sig_ok_def short_hdr_def shorten_eq Let_def split: sum.splits)

section \<open>summaryMaps\<close>

text \<open>
  What a summary says about the metadata and the headers it was made from, independently of
  how it was computed.
\<close>

definition summary_of :: "NodeMetadata list \<Rightarrow> BlockHeader list \<Rightarrow> summary \<Rightarrow> bool" where
  "summary_of metas hs sm \<longleftrightarrow>
     fst ` set (sget sm metaSumry) = meta_version ` set metas \<and>
     (\<forall>v \<in> meta_version ` set metas. \<exists>rs.
        map_of (sget sm metaSumry) v = Some (VMap [(''records'', VSlice (map VMeta rs))]) \<and>
        mset rs = mset (filter (\<lambda>d. meta_version d = v) metas)) \<and>
     fst ` set (sget sm chainSumry) = (\<lambda>d. FormatUint (meta_shard d)) ` set metas \<and>
     (\<forall>d \<in> set metas. \<exists>d'. d' \<in> set metas \<and> meta_shard d' = meta_shard d \<and>
        map_of (sget sm chainSumry) (FormatUint (meta_shard d)) = Some (VAny (chain_entry d'))) \<and>
     fst ` set (sget sm headerSumry) = (\<lambda>h. FormatUint (hdr_shard h)) ` set hs \<and>
     (\<forall>h \<in> set hs. \<exists>e.
        map_of (sget sm headerSumry) (FormatUint (hdr_shard h)) = Some (VAny e) \<and>
        summarises e (filter (\<lambda>x. hdr_shard x = hdr_shard h) hs)) \<and>
     gomap (sget sm metaSumry) \<and> gomap (sget sm chainSumry) \<and> gomap (sget sm headerSumry)"

lemma sumry_distinct [simp]:
  "metaSumry \<noteq> headerSumry" "metaSumry \<noteq> chainSumry" "headerSumry \<noteq> chainSumry"
  "headerSumry \<noteq> metaSumry" "chainSumry \<noteq> metaSumry" "chainSumry \<noteq> headerSumry"
  by (simp_all add: sumry_names)

lemma sget_empty [simp]: "sget empty_summary key = []"
  by (simp add: sget_def empty_summary_def sumry_names)

lemma sget_update [gomap_simps]:
  "sget (AList.update key m s) key' = (if key' = key then m else sget s key')"
  by (simp add: sget_def map_of_update_eq)

text \<open>Writing a run of entries under one key of the summary is writing them into that map.\<close>

lemma sget_fold_sput:
  "sget (fold (\<lambda>x. sput key (f x) (g x)) xs s) key' =
     (if key' = key then fold (\<lambda>x. AList.update (f x) (g x)) xs (sget s key) else sget s key')"
  by (induction xs arbitrary: s) (auto simp: sget_sput)

definition version_entry :: "string \<times> NodeMetadata list \<Rightarrow> ival" where
  "version_entry v = VMap [(''records'', VSlice (map VMeta (snd v)))]"

lemma add_version_fold:
  "fold add_version vs s = fold (\<lambda>v. sput metaSumry (fst v) (version_entry v)) vs s"
  by (rule fold_cong) (simp_all add: add_version_def version_entry_def fun_eq_iff)

definition chain_sample :: "u32 \<times> NodeMetadata list \<Rightarrow> NodeMetadata" where
  "chain_sample v = the (find (\<lambda>c. meta_shard c = fst v) (snd v))"

lemma add_chain_total:
  assumes lq: "linq_laws lq" and v: "v \<in> set (lq_groupBy_shard lq meta_shard metas)"
  shows "add_chain lq v s =
      Inr (sput chainSumry (FormatUint (fst v)) (VAny (chain_entry (chain_sample v))) s)"
    and "chain_sample v \<in> set metas \<and> meta_shard (chain_sample v) = fst v"
proof -
  obtain k grp where vk: "v = (k, grp)" by fastforce
  note law = linq_groups(3) [OF lq]
  have set_grp: "set grp = {x \<in> set metas. meta_shard x = k}" and "grp \<noteq> []"
    using groupBy_group_set [OF law] groupBy_group_nonempty [OF law] v vk by auto
  then have "find (\<lambda>c. meta_shard c = k) grp \<noteq> None"
    by (cases grp) (auto simp: find_None_iff)
  then obtain d where d: "find (\<lambda>c. meta_shard c = k) grp = Some d" by auto
  then have "d \<in> set grp" by (auto simp: find_Some_iff)
  with d set_grp show
    "add_chain lq v s =
      Inr (sput chainSumry (FormatUint (fst v)) (VAny (chain_entry (chain_sample v))) s)"
    "chain_sample v \<in> set metas \<and> meta_shard (chain_sample v) = fst v"
    by (simp_all add: add_chain_def chain_sample_def vk linq_simps [OF lq] Itoa_uint)
qed

lemma summaryMaps_eq:
  assumes lq: "linq_laws lq" and ok: "\<forall>h \<in> set hs. sig_ok h"
  shows "\<exists>sm. summaryMaps lq metas hs = (map short_hdr hs, Inr sm) \<and>
    sget sm metaSumry =
      fold (\<lambda>v. AList.update (fst v) (version_entry v)) (lq_groupBy_version lq meta_version metas) [] \<and>
    sget sm chainSumry =
      fold (\<lambda>v. AList.update (FormatUint (fst v)) (VAny (chain_entry (chain_sample v))))
        (lq_groupBy_shard lq meta_shard metas) [] \<and>
    sget sm headerSumry = blockHeaderSummary lq (map short_hdr hs) True []"
proof -
  have "fold_result (add_chain lq) (lq_groupBy_shard lq meta_shard metas) s =
      Inr (fold (\<lambda>v. sput chainSumry (FormatUint (fst v)) (VAny (chain_entry (chain_sample v))))
        (lq_groupBy_shard lq meta_shard metas) s)" for s
    by (rule fold_result_total) (rule add_chain_total(1) [OF lq])
  then show ?thesis
    by (simp add: summaryMaps_def shorten_sigs_ok [OF ok] add_version_fold sget_update sget_fold_sput)
qed

text \<open>The entries of the versions and of the chain configurations, one per group.\<close>

lemma version_entries:
  assumes "linq_laws lq" and "v \<in> meta_version ` set metas"
  shows "\<exists>rs. map_of (fold (\<lambda>v. AList.update (fst v) (version_entry v)) (lq_groupBy_version lq meta_version metas) []) v =
      Some (VMap [(''records'', VSlice (map VMeta rs))]) \<and> mset rs = mset (filter (\<lambda>d. meta_version d = v) metas)"
proof -
  let ?vs = "lq_groupBy_version lq meta_version metas"
  note vlaw = linq_groups(2) [OF assms(1)]
  note vkeys = groupBy_keys [OF vlaw, of meta_version metas]
  have "v \<in> fst ` set ?vs" using assms(2) vkeys by simp
  then obtain grp where g: "(v, grp) \<in> set ?vs" by force
  show ?thesis
    using map_of_fold_update_in [OF vkeys [THEN conjunct1] g, of version_entry "[]"]
      groupBy_group [OF vlaw g] by (auto simp: version_entry_def)
qed

lemma chain_entries:
  assumes "linq_laws lq" and "d \<in> set metas"
  shows "\<exists>d'. d' \<in> set metas \<and> meta_shard d' = meta_shard d \<and>
    map_of (fold (\<lambda>v. AList.update (FormatUint (fst v)) (VAny (chain_entry (chain_sample v))))
      (lq_groupBy_shard lq meta_shard metas) []) (FormatUint (meta_shard d)) = Some (VAny (chain_entry d'))"
proof -
  let ?ks = "lq_groupBy_shard lq meta_shard metas"
  note kkeys = groupBy_keys [OF linq_groups(3) [OF assms(1)], of meta_shard metas]
  have "meta_shard d \<in> fst ` set ?ks" using assms(2) kkeys by simp
  then obtain grp where g: "(meta_shard d, grp) \<in> set ?ks" by force
  have "distinct (map (\<lambda>v. FormatUint (fst v)) ?ks)"
    using kkeys by (blast intro: shard_keys_distinct)
  from map_of_fold_update_in [OF this g, of "\<lambda>v. VAny (chain_entry (chain_sample v))" "[]"]
  show ?thesis using add_chain_total(2) [OF assms(1) g] by auto
qed

lemma summaryMaps_spec:
  assumes lq: "linq_laws lq" and ok: "\<forall>h \<in> set hs. sig_ok h"
  shows "\<exists>sm. summaryMaps lq metas hs = (map short_hdr hs, Inr sm) \<and>
    summary_of metas (map short_hdr hs) sm"
proof -
  let ?vs = "lq_groupBy_version lq meta_version metas"
  let ?ks = "lq_groupBy_shard lq meta_shard metas"
  note vlaw = linq_groups(2) [OF lq] and klaw = linq_groups(3) [OF lq]
  note vkeys = groupBy_keys [OF vlaw, of meta_version metas]
    and kkeys = groupBy_keys [OF klaw, of meta_shard metas]
  obtain sm where sm: "summaryMaps lq metas hs = (map short_hdr hs, Inr sm)"
    and meta: "sget sm metaSumry = fold (\<lambda>v. AList.update (fst v) (version_entry v)) ?vs []"
    and chain: "sget sm chainSumry =
      fold (\<lambda>v. AList.update (FormatUint (fst v)) (VAny (chain_entry (chain_sample v)))) ?ks []"
    and hdr: "sget sm headerSumry = blockHeaderSummary lq (map short_hdr hs) True []"
    using summaryMaps_eq [OF assms] by blast
  have versions: "\<exists>rs. map_of (sget sm metaSumry) v = Some (VMap [(''records'', VSlice (map VMeta rs))]) \<and>
      mset rs = mset (filter (\<lambda>d. meta_version d = v) metas)"
    if "v \<in> meta_version ` set metas" for v
    unfolding meta by (rule version_entries [OF lq that])
  have chains: "\<exists>d'. d' \<in> set metas \<and> meta_shard d' = meta_shard d \<and>
      map_of (sget sm chainSumry) (FormatUint (meta_shard d)) = Some (VAny (chain_entry d'))"
    if "d \<in> set metas" for d
    unfolding chain by (rule chain_entries [OF lq that])
  have "FormatUint ` fst ` set ?ks = FormatUint ` meta_shard ` set metas"
    using kkeys by simp
  then have chain_keys: "fst ` set (sget sm chainSumry) = (\<lambda>d. FormatUint (meta_shard d)) ` set metas"
    by (simp add: chain keys_fold_update image_image)
  have version_keys: "fst ` set (sget sm metaSumry) = meta_version ` set metas"
    using vkeys by (simp add: meta keys_fold_update)
  have header_keys: "fst ` set (sget sm headerSumry) =
      (\<lambda>h. FormatUint (hdr_shard h)) ` set (map short_hdr hs)"
    by (simp add: hdr blockHeaderSummary_keys [OF lq])
  have headers: "\<exists>e. map_of (sget sm headerSumry) (FormatUint (hdr_shard h)) = Some (VAny e) \<and>
      summarises e (filter (\<lambda>x. hdr_shard x = hdr_shard h) (map short_hdr hs))"
    if "h \<in> set (map short_hdr hs)" for h
    unfolding hdr using blockHeaderSummary_entry [OF lq that refl] by blast
  have gomaps: "gomap (sget sm metaSumry)" "gomap (sget sm chainSumry)" "gomap (sget sm headerSumry)"
    by (simp_all add: meta chain hdr gomap_fold_update gomap_blockHeaderSummary)
  have "summary_of metas (map short_hdr hs) sm"
    unfolding summary_of_def
    by (intro conjI ballI versions chains headers version_keys chain_keys header_keys gomaps)
  with sm show ?thesis by blast
qed

section \<open>Properties\<close>

text \<open>A node of each shard and two headers of shard 0, for the witnesses.\<close>

definition sample_meta :: "string \<Rightarrow> u32 \<Rightarrow> bool \<Rightarrow> NodeMetadata" where
  "sample_meta ip shard leader =
     \<lparr>md_Payload = zero_NodeMetadataReply\<lparr>nm_Version := ''v1'', nm_ShardID := shard,
        nm_IsLeader := leader\<rparr>, md_IP = ip\<rparr>"

definition sample_header :: "string \<Rightarrow> u32 \<Rightarrow> u64 \<Rightarrow> string \<Rightarrow> BlockHeader" where
  "sample_header ip shard number sig =
     \<lparr>hd_Payload = zero_BlockHeaderReply\<lparr>bh_ShardID := shard, bh_BlockNumber := number,
        bh_LastCommitSig := sig\<rparr>, hd_IP = ip\<rparr>"

definition sample_headers :: "BlockHeader list" where
  "sample_headers = [sample_header ''a'' 0 7 ''0123456789ab'', sample_header ''b'' 0 9 []]"

definition sample_metas :: "NodeMetadata list" where
  "sample_metas = [sample_meta ''a'' 0 True, sample_meta ''b'' 1 False]"

lemma sample_headers_ok: "\<forall>h \<in> set sample_headers. sig_ok h"
  by (simp add: sample_headers_def sample_header_def sig_ok_def Let_def)

text \<open>
  (C4) When every commit signature is empty or at least five bytes long, \<^verbatim>\<open>summaryMaps\<close> returns a
  summary that says exactly what it should about its input: one entry per version with the
  nodes of that version, one entry per shard with the chain configuration of a node of that
  shard, and one entry per shard with the extreme block numbers and epochs, the distinct ones
  in decreasing order, all headers and a header of maximal height. The header slice is left
  with shortened signatures and is otherwise unchanged.
\<close>

theorem summaryMaps_correct:
  assumes "linq_laws lq" and "\<forall>h \<in> set hs. sig_ok h"
  shows "\<exists>sm. summaryMaps lq metas hs = (map short_hdr hs, Inr sm) \<and>
    summary_of metas (map short_hdr hs) sm"
  using assms by (rule summaryMaps_spec)

theorem summaryMaps_correct_witness:
  "linq_laws linq_ref \<and> (\<exists>sm. summaryMaps linq_ref sample_metas sample_headers =
     (map short_hdr sample_headers, Inr sm) \<and>
     summary_of sample_metas (map short_hdr sample_headers) sm)"
  using summaryMaps_correct [OF linq_ref_laws sample_headers_ok] linq_ref_laws by blast

text \<open>
  (C13) \<^verbatim>\<open>summaryMaps\<close> panics, with a slice out of bounds, exactly if some header has a commit
  signature of one to four bytes.
\<close>

theorem summaryMaps_panics_iff:
  assumes "linq_laws lq"
  shows "snd (summaryMaps lq metas hs) = Inl p \<longleftrightarrow> p = SliceBounds \<and> (\<exists>h \<in> set hs.
    0 < length (bh_LastCommitSig (hd_Payload h)) \<and> length (bh_LastCommitSig (hd_Payload h)) < 5)"
proof (cases "\<forall>h \<in> set hs. sig_ok h")
  case True
  then have "\<exists>sm. snd (summaryMaps lq metas hs) = Inr sm"
    using summaryMaps_spec [OF assms, of hs metas] by auto
  with True show ?thesis by (auto simp: sig_ok_def Let_def)
next
  case False
  then obtain q where "snd (shorten_sigs hs) = Some q"
    using shorten_sigs_panic [of hs] by auto
  moreover from this have "q = SliceBounds" by (rule shorten_sigs_which)
  ultimately have "snd (summaryMaps lq metas hs) = Inl SliceBounds"
    by (auto simp: summaryMaps_def split: prod.splits)
  with False show ?thesis by (auto simp: sig_ok_def Let_def not_le)
qed

theorem summaryMaps_panics_iff_witness:
  "snd (summaryMaps linq_ref [] [sample_header ''a'' 0 7 ''0x1'']) = Inl SliceBounds"
  using summaryMaps_panics_iff [OF linq_ref_laws, of "[]" "[sample_header ''a'' 0 7 ''0x1'']" SliceBounds]
  by (simp add: sample_header_def)

text \<open>
  (C14) Shortening in place is harmless when it succeeds: a second \<^verbatim>\<open>summaryMaps\<close> on the slice the
  first one left (the next request for a report) leaves the slice alone and gives the same
  summary.
\<close>

theorem summaryMaps_again:
  assumes "\<forall>h \<in> set hs. sig_ok h"
  shows "summaryMaps lq metas (fst (summaryMaps lq metas hs)) = summaryMaps lq metas hs"
proof -
  have "shorten_sigs (map short_hdr hs) = (map short_hdr hs, None)"
    using assms sig_ok_short shorten_sigs_ok [of "map short_hdr hs"] by (simp add: o_def)
  with shorten_sigs_ok [OF assms] show ?thesis
    by (simp add: summaryMaps_def)
qed

theorem summaryMaps_again_witness:
  "summaryMaps linq_ref sample_metas (fst (summaryMaps linq_ref sample_metas sample_headers)) =
   summaryMaps linq_ref sample_metas sample_headers"
  by (rule summaryMaps_again [OF sample_headers_ok])

end
