(* ===== verification/Config.thy ===== *)
theory Config
  imports Prelude
begin

text \<open>
  \<^verbatim>\<open>root.go\<close>, reading and checking the configuration: \<^verbatim>\<open>watchParams\<close>, \<^verbatim>\<open>sanityCheck\<close> and
  \<^verbatim>\<open>newInstructions\<close>; and from \<^verbatim>\<open>reporting-server.go\<close> the table \<^verbatim>\<open>shardMap\<close> that
  \<^verbatim>\<open>update\<close> builds from its result. The operating system and the YAML package are the
  parameter \<open>env\<close>; the standard library functions in use (path.Base, path.Ext,
  bufio.Scanner) are defined here.
\<close>

section \<open>Data\<close>

record watchParams =
  wp_EventServiceKey :: string
  wp_TargetChain :: string
  wp_RPCPort :: int
  wp_Inspect_BlockHeader :: int
  wp_Inspect_NodeMetadata :: int
  wp_Inspect_CxPending :: int
  wp_Inspect_CrossLink :: int
  wp_WorkerPoolSize :: int
  wp_HTTPTimeout :: int
  wp_Port :: int
  wp_Consensus_Interval :: int
  wp_Consensus_Warning :: int
  wp_CxPending_Warning :: int
  wp_CrossLink_Warning :: int
  wp_ShardHeight_Warning :: int
  wp_Connectivity_Warning :: int
  wp_MachineIPList :: "string list"

record committee =
  com_file :: string
  com_members :: "string list"

record instruction =
  in_watchParams :: watchParams
  in_superCommittee :: "(int, committee) gomap"

text \<open>An opened file: its bytes, and the error that reading past them gives, if any.\<close>

record open_file =
  of_content :: string
  of_error :: "string option"

text \<open>
  What the outside answers: the bytes of the YAML file or the read error, the decoded
  parameters or the YAML error, whether a path does not exist (\<^verbatim>\<open>os.IsNotExist\<close> of
  \<^verbatim>\<open>os.Stat\<close>'s error), and the file that \<^verbatim>\<open>os.Open\<close> gives, if it succeeds.
\<close>

record env =
  env_ReadFile :: "string \<Rightarrow> string + string"
  env_UnmarshalStrict :: "string \<Rightarrow> string + watchParams"
  env_IsNotExist :: "string \<Rightarrow> bool"
  env_Open :: "string \<Rightarrow> open_file option"

datatype config_error =
    ReadError string
  | YAMLError string
  | SanityError string
  | AtoiError string
  | ScanError string
  | EmptyNodeList
  | DuplicateIPs string

section \<open>sanityCheck\<close>

text \<open>The checked number of each field with the message for a zero, in the order of the code.\<close>

definition required_fields :: "watchParams \<Rightarrow> (int \<times> string) list" where
  "required_fields w =
    [(wp_RPCPort w, ''Missing public-rpc under network-config in yaml config''),
     (wp_Inspect_BlockHeader w, ''Missing block-header under inspect-schedule in yaml config''),
     (wp_Inspect_NodeMetadata w, ''Missing node-metadata under inspect-schedule in yaml config''),
     (wp_Inspect_CxPending w, ''Missing cx-pending under inspect-schedule in yaml config''),
     (wp_Inspect_CrossLink w, ''Missing cross-link under inspect-schedule in yaml config''),
     (wp_WorkerPoolSize w, ''Missing num-workers under performance in yaml config''),
     (wp_HTTPTimeout w, ''Missing http-timeout under performance in yaml config''),
     (wp_Port w, ''Missing port under http-reporter in yaml config''),
     (wp_Consensus_Interval w,
        ''Missing warning under shard-health-reporting, interval in yaml config''),
     (wp_Consensus_Warning w,
        ''Missing warning under shard-health-reporting, consensus in yaml config''),
     (wp_CxPending_Warning w,
        ''Missing pending-limit under shard-health-reporting, cx-pending in yaml config''),
     (wp_CrossLink_Warning w,
        ''Missing warning under shard-health-reporting, cross-link in yaml config''),
     (wp_ShardHeight_Warning w,
        ''Missing tolerance under shard-health-reporting, shard-height in yaml config''),
     (wp_Connectivity_Warning w,
        ''Missing tolerance under shard-health-reporting, connectivity in yaml config'')]"

definition sanity_errors :: "env \<Rightarrow> watchParams \<Rightarrow> string list" where
  "sanity_errors e w =
     map snd (filter (\<lambda>f. fst f = 0) (required_fields w)) @
     map (\<lambda>f. ''File not found: '' @ f) (filter (env_IsNotExist e) (wp_MachineIPList w))"

definition sanityCheck :: "env \<Rightarrow> watchParams \<Rightarrow> string option" where
  "sanityCheck e w =
     (let errList = sanity_errors e w
      in if errList = [] then None else Some (Join errList [CHR 0x0A]))"

section \<open>Paths and lines\<close>

text \<open>\<^verbatim>\<open>path.Ext\<close>: from the last dot of the last path element to the end, or nothing.\<close>

definition path_Ext :: "string \<Rightarrow> string" where
  "path_Ext p =
     (let r = takeWhile (\<lambda>c. c \<noteq> CHR ''/'') (rev p)
      in if CHR ''.'' \<in> set r
         then CHR ''.'' # rev (takeWhile (\<lambda>c. c \<noteq> CHR ''.'') r) else [])"

definition path_Base :: "string \<Rightarrow> string" where
  "path_Base p =
     (if p = [] then ''.''
      else let r = dropWhile (\<lambda>c. c = CHR ''/'') (rev p);
               b = rev (takeWhile (\<lambda>c. c \<noteq> CHR ''/'') r)
           in if b = [] then ''/'' else b)"

text \<open>
  \<^verbatim>\<open>bufio.Scanner\<close> with its default split function: the lines without their end marker; the
  last one counts only if it is not empty. A line that does not fit the scanner's buffer of
  64 KiB stops the scan with an error.
\<close>

definition drop_cr :: "string \<Rightarrow> string" where
  "drop_cr l = (if l \<noteq> [] \<and> last l = CHR 0x0D then butlast l else l)"

definition raw_lines :: "string \<Rightarrow> string list" where
  "raw_lines s =
     (let ls = Split s [CHR 0x0A] in if last ls = [] then butlast ls else ls)"

definition too_long :: "string \<Rightarrow> bool" where
  "too_long l \<longleftrightarrow> 65536 \<le> int (length l)"

definition scan_lines :: "open_file \<Rightarrow> string + string list" where
  "scan_lines f =
     (if \<exists>l \<in> set (raw_lines (of_content f)). too_long l
      then Inl ''bufio.Scanner: token too long''
      else case of_error f of
        Some err \<Rightarrow> Inl err
      | None \<Rightarrow> Inr (map drop_cr (raw_lines (of_content f))))"

section \<open>newInstructions\<close>

text \<open>The shard number is the last character of the file name without its extension.\<close>

definition shard_of_file :: "string \<Rightarrow> int option result" where
  "shard_of_file file =
     (let shard = path_Base (TrimSuffix file (path_Ext file))
      in if shard = [] then Inl SliceBounds else Inr (Atoi [last shard]))"

text \<open>
  The loop over the files. \<open>Inr (Inr None)\<close> is the early \<^verbatim>\<open>return nil, nil\<close> of a file that
  cannot be opened.
\<close>

fun read_committees ::
  "env \<Rightarrow> int \<Rightarrow> string list \<Rightarrow> (int, committee) gomap \<Rightarrow>
   (config_error + (int, committee) gomap option) result" where
  "read_committees e port [] byShard = Inr (Inr (Some byShard))"
| "read_committees e port (file # files) byShard =
     (case shard_of_file file of
        Inl p \<Rightarrow> Inl p
      | Inr None \<Rightarrow> Inr (Inl (AtoiError file))
      | Inr (Some sid) \<Rightarrow>
          (case env_Open e file of
             None \<Rightarrow> Inr (Inr None)
           | Some f \<Rightarrow>
               (case scan_lines f of
                  Inl err \<Rightarrow> Inr (Inl (ScanError err))
                | Inr ls \<Rightarrow>
                    read_committees e port files
                      (AList.update sid
                         \<lparr>com_file = file, com_members = map (\<lambda>l. l @ '':'' @ Itoa port) ls\<rparr>
                         byShard))))"

text \<open>
  The duplicate check: \<open>nodeList\<close> remembers the first shard an address was seen in. The
  members are visited in the order \<open>ord\<close> in which \<^verbatim>\<open>range\<close> goes over the map.
\<close>

definition note_member ::
  "int \<times> string \<Rightarrow> string list \<times> (string, string) gomap \<Rightarrow> string list \<times> (string, string) gomap"
where
  "note_member im st =
     (let (i, m) = im; (dups, nodeList) = st
      in case map_of nodeList m of
           Some j \<Rightarrow> (dups @ [FormatInt i @ '': '' @ m, j @ '': '' @ m], nodeList)
         | None \<Rightarrow> (dups, AList.update m (FormatInt i) nodeList))"

definition all_members :: "(int, committee) gomap \<Rightarrow> (int \<times> string) list" where
  "all_members byShard = concat (map (\<lambda>(i, s). map (Pair i) (com_members s)) byShard)"

definition check_dups :: "(int, committee) gomap \<Rightarrow> string list \<times> (string, string) gomap" where
  "check_dups byShard = fold note_member (all_members byShard) ([], [])"

definition newInstructions ::
  "env \<Rightarrow> ((int \<times> committee) list \<Rightarrow> (int \<times> committee) list) \<Rightarrow> string \<Rightarrow>
   (config_error + instruction option) result" where
  "newInstructions e ord yamlPath =
     (case env_ReadFile e yamlPath of
        Inl err \<Rightarrow> Inr (Inl (ReadError err))
      | Inr rawYAML \<Rightarrow>
          (case env_UnmarshalStrict e rawYAML of
             Inl err \<Rightarrow> Inr (Inl (YAMLError err))
           | Inr t \<Rightarrow>
               (case sanityCheck e t of
                  Some err \<Rightarrow> Inr (Inl (SanityError err))
                | None \<Rightarrow>
                    (case read_committees e (wp_RPCPort t) (wp_MachineIPList t) [] of
                       Inl p \<Rightarrow> Inl p
                     | Inr (Inl err) \<Rightarrow> Inr (Inl err)
                     | Inr (Inr None) \<Rightarrow> Inr (Inr None)
                     | Inr (Inr (Some byShard)) \<Rightarrow>
                         (let (dups, nodeList) = check_dups (ord byShard)
                          in if nodeList = [] then Inr (Inl EmptyNodeList)
                             else if dups \<noteq> [] then
                               Inr (Inl (DuplicateIPs
                                 (''Duplicate IPs detected.'' @ [CHR 0x0A] @ Join dups [CHR 0x0A])))
                             else Inr (Inr (Some
                               \<lparr>in_watchParams = t, in_superCommittee = byShard\<rparr>)))))))"

section \<open>shardMap\<close>

text \<open>The first loop of \<^verbatim>\<open>update\<close>.\<close>

definition shardMap_of :: "(int, committee) gomap \<Rightarrow> (string, int) gomap" where
  "shardMap_of superCommittee =
     fold (\<lambda>km. AList.update (snd km) (fst km)) (all_members superCommittee) []"

section \<open>Lemmas\<close>

lemma sanityCheck_None:
  "sanityCheck e w = None \<longleftrightarrow>
     (\<forall>f \<in> set (required_fields w). fst f \<noteq> 0) \<and>
     (\<forall>f \<in> set (wp_MachineIPList w). \<not> env_IsNotExist e f)"
  by (auto simp: sanityCheck_def sanity_errors_def Let_def filter_empty_conv)

lemma path_Base_nonempty [simp]: "path_Base p \<noteq> []"
  by (simp add: path_Base_def Let_def)

lemma shard_of_file_Inr: "\<exists>r. shard_of_file f = Inr r"
  by (simp add: shard_of_file_def Let_def)

lemma read_committees_no_panic: "read_committees e port files byShard \<noteq> Inl p"
proof (induction files arbitrary: byShard)
  case (Cons f fs)
  obtain r where "shard_of_file f = Inr r" using shard_of_file_Inr by blast
  with Cons show ?case by (simp split: option.splits sum.splits)
qed simp

lemma read_committees_gomap:
  "read_committees e port files byShard = Inr (Inr (Some m)) \<Longrightarrow> gomap byShard \<Longrightarrow> gomap m"
proof (induction files arbitrary: byShard)
  case (Cons f fs)
  then show ?case by (auto split: option.splits sum.splits)
qed simp

subsection \<open>The duplicate check\<close>

lemma note_member_keys:
  "fst ` set (snd (note_member (i, m) (dups, nl))) = insert m (fst ` set nl)"
  by (auto simp: note_member_def dom_update split: option.splits
      dest: map_of_SomeD intro: rev_image_eqI)

lemma check_dups_fold:
  "fst (fold note_member xs (dups, nl)) = [] \<longleftrightarrow>
     dups = [] \<and> distinct (map snd xs) \<and> snd ` set xs \<inter> fst ` set nl = {}"
proof (induction xs arbitrary: dups nl)
  case (Cons x xs)
  obtain i m where x: "x = (i, m)" by fastforce
  obtain d' nl' where st: "note_member (i, m) (dups, nl) = (d', nl')" by fastforce
  have keys': "fst ` set nl' = insert m (fst ` set nl)"
    using note_member_keys [of i m dups nl] st by simp
  have "d' = [] \<longleftrightarrow> dups = [] \<and> m \<notin> fst ` set nl"
    using st by (auto simp: note_member_def map_of_eq_None_iff split: option.splits
        dest: map_of_SomeD intro: rev_image_eqI)
  with Cons.IH [of d' nl'] keys' show ?case
    by (auto simp: x st)
qed simp

lemma check_dups_keys:
  "fst ` set (snd (fold note_member xs (dups, nl))) = fst ` set nl \<union> snd ` set xs"
proof (induction xs arbitrary: dups nl)
  case (Cons x xs)
  obtain i m where x: "x = (i, m)" by fastforce
  obtain d' nl' where st: "note_member (i, m) (dups, nl) = (d', nl')" by fastforce
  have "fst ` set nl' = insert m (fst ` set nl)"
    using note_member_keys [of i m dups nl] st by simp
  with Cons.IH [of d' nl'] show ?case by (auto simp: x st)
qed simp

lemma check_dups_clean:
  "fst (check_dups m) = [] \<longleftrightarrow> distinct (map snd (all_members m))"
  by (simp add: check_dups_def check_dups_fold)

lemma check_dups_nodes: "snd (check_dups m) = [] \<longleftrightarrow> all_members m = []"
  using check_dups_keys [of "all_members m" "[]" "[]"]
  by (metis check_dups_def Un_empty_left image_is_empty list.set(1) set_empty2)

lemma all_members_range:
  assumes "range_order ord"
  shows "mset (all_members (ord m)) = mset (all_members m)"
  unfolding all_members_def by (rule range_order_concat [OF assms])

lemma all_members_range_snd:
  assumes "range_order ord"
  shows "distinct (map snd (all_members (ord m))) \<longleftrightarrow> distinct (map snd (all_members m))"
  using all_members_range [OF assms] by (metis mset_eq_imp_distinct_iff mset_map)

lemma all_members_range_Nil:
  "range_order ord \<Longrightarrow> all_members (ord m) = [] \<longleftrightarrow> all_members m = []"
  using all_members_range by (metis mset_zero_iff)

subsection \<open>shardMap\<close>

lemma gomap_shardMap [simp]: "gomap (shardMap_of sc)"
  by (simp add: shardMap_of_def gomap_fold_update)

lemma all_members_iff:
  "gomap sc \<Longrightarrow>
   (k, a) \<in> set (all_members sc) \<longleftrightarrow> (\<exists>c. map_of sc k = Some c \<and> a \<in> set (com_members c))"
  by (auto simp: all_members_def gomap_def)

lemma shardMap_lookup:
  assumes "distinct (map snd (all_members sc))"
  shows "map_of (shardMap_of sc) a = Some k \<longleftrightarrow> (k, a) \<in> set (all_members sc)"
proof -
  let ?xs = "map (\<lambda>km. (snd km, fst km)) (all_members sc)"
  have "map_of (shardMap_of sc) a = map_of ?xs a"
    unfolding shardMap_of_def map_of_fold_update [OF assms] by (simp split: option.splits)
  moreover have "distinct (map fst ?xs)"
    using assms by (simp add: o_def)
  ultimately have "map_of (shardMap_of sc) a = Some k \<longleftrightarrow> (a, k) \<in> set ?xs"
    by (simp only: map_of_eq_Some_iff)
  then show ?thesis by (force simp: image_iff)
qed

section \<open>Accepted configurations\<close>

lemma newInstructions_Some:
  assumes "newInstructions e ord yaml = Inr (Inr (Some ins))"
  obtains "sanityCheck e (in_watchParams ins) = None"
    and "read_committees e (wp_RPCPort (in_watchParams ins)) (wp_MachineIPList (in_watchParams ins)) [] =
      Inr (Inr (Some (in_superCommittee ins)))"
    and "snd (check_dups (ord (in_superCommittee ins))) \<noteq> []"
    and "fst (check_dups (ord (in_superCommittee ins))) = []"
  using assms
  by (auto simp: newInstructions_def Let_def split: sum.splits option.splits prod.splits if_splits)

lemma accepted_members:
  assumes "newInstructions e ord yaml = Inr (Inr (Some ins))" and "range_order ord"
  shows "gomap (in_superCommittee ins)" and "distinct (map snd (all_members (in_superCommittee ins)))"
    and "all_members (in_superCommittee ins) \<noteq> []"
  using assms(1)
proof (atomize (full), elim newInstructions_Some, intro conjI)
  assume r: "read_committees e (wp_RPCPort (in_watchParams ins)) (wp_MachineIPList (in_watchParams ins)) [] =
      Inr (Inr (Some (in_superCommittee ins)))"
    and n: "snd (check_dups (ord (in_superCommittee ins))) \<noteq> []"
    and d: "fst (check_dups (ord (in_superCommittee ins))) = []"
  show "gomap (in_superCommittee ins)" using read_committees_gomap [OF r] by simp
  show "distinct (map snd (all_members (in_superCommittee ins)))"
    using d all_members_range_snd [OF assms(2)] by (simp add: check_dups_clean)
  show "all_members (in_superCommittee ins) \<noteq> []"
    using n all_members_range_Nil [OF assms(2)] by (simp add: check_dups_nodes)
qed

lemma newInstructions_no_panic: "newInstructions e ord yaml \<noteq> Inl p"
  using read_committees_no_panic
  by (auto simp: newInstructions_def Let_def split: sum.splits option.splits prod.splits)

lemma shard_of_file_last:
  assumes "c \<noteq> CHR ''/''"
  shows "shard_of_file (stem @ [c] @ ''.txt'') = Inr (Atoi [c])"
proof -
  have ext: "path_Ext (stem @ [c] @ ''.txt'') = ''.txt''"
    by (simp add: path_Ext_def Let_def)
  have trim: "TrimSuffix (stem @ [c] @ ''.txt'') ''.txt'' = stem @ [c]"
    by (simp add: TrimSuffix_def has_suffix_def)
  have base: "path_Base (stem @ [c]) \<noteq> []" "last (path_Base (stem @ [c])) = c"
    using assms by (simp_all add: path_Base_def Let_def)
  show ?thesis
    unfolding shard_of_file_def ext trim Let_def using base by simp
qed

section \<open>Properties\<close>

text \<open>Two machine lists and a parameter file, for the witnesses.\<close>

definition sample_watchParams :: watchParams where
  "sample_watchParams =
     \<lparr>wp_EventServiceKey = ''key'', wp_TargetChain = ''testnet'', wp_RPCPort = 9500,
      wp_Inspect_BlockHeader = 15, wp_Inspect_NodeMetadata = 30, wp_Inspect_CxPending = 300,
      wp_Inspect_CrossLink = 600, wp_WorkerPoolSize = 32, wp_HTTPTimeout = 1, wp_Port = 8080,
      wp_Consensus_Interval = 15, wp_Consensus_Warning = 70, wp_CxPending_Warning = 1000,
      wp_CrossLink_Warning = 600, wp_ShardHeight_Warning = 1000, wp_Connectivity_Warning = 10,
      wp_MachineIPList = [''shard0.txt'', ''shard1.txt'']\<rparr>"

definition sample_env :: env where
  "sample_env =
     \<lparr>env_ReadFile = (\<lambda>p. Inr ''yaml''), env_UnmarshalStrict = (\<lambda>s. Inr sample_watchParams),
      env_IsNotExist = (\<lambda>p. False),
      env_Open = (\<lambda>p.
        if p = ''shard0.txt'' then Some \<lparr>of_content = ''10.0.0.1'' @ [CHR 0x0A] @ ''10.0.0.2'', of_error = None\<rparr>
        else if p = ''shard1.txt'' then Some \<lparr>of_content = ''10.0.1.1'' @ [CHR 0x0A], of_error = None\<rparr>
        else None)\<rparr>"

definition sample_committees :: "(int, committee) gomap" where
  "sample_committees =
     [(0, \<lparr>com_file = ''shard0.txt'', com_members = [''10.0.0.1:9500'', ''10.0.0.2:9500'']\<rparr>),
      (1, \<lparr>com_file = ''shard1.txt'', com_members = [''10.0.1.1:9500'']\<rparr>)]"

lemma sample_newInstructions:
  "newInstructions sample_env rev ''watch.yaml'' =
     Inr (Inr (Some \<lparr>in_watchParams = sample_watchParams, in_superCommittee = sample_committees\<rparr>))"
  by code_simp



text \<open>
  (C12) The table \<^verbatim>\<open>shardMap\<close> that \<^verbatim>\<open>update\<close> builds from an accepted configuration maps an address
  to a shard exactly if the address is a member of that shard's committee; neither the order of
  the duplicate check nor the order of the loop in \<^verbatim>\<open>update\<close> matters.
\<close>

theorem shardMap_of_accepted:
  assumes "newInstructions e ord yaml = Inr (Inr (Some ins))" and "range_order ord"
    and "range_order ord'"
  shows "map_of (shardMap_of (ord' (in_superCommittee ins))) a = Some k \<longleftrightarrow>
    (\<exists>c. map_of (in_superCommittee ins) k = Some c \<and> a \<in> set (com_members c))"
proof -
  note acc = accepted_members [OF assms(1,2)]
  have "distinct (map snd (all_members (ord' (in_superCommittee ins))))"
    using acc(2) by (simp add: all_members_range_snd [OF assms(3)])
  from shardMap_lookup [OF this] show ?thesis
    using acc(1) all_members_iff [of "ord' (in_superCommittee ins)"] assms(3) by simp
qed

theorem shardMap_of_accepted_witness:
  "map_of (shardMap_of (rev sample_committees)) ''10.0.1.1:9500'' = Some 1 \<longleftrightarrow>
    (\<exists>c. map_of sample_committees 1 = Some c \<and> ''10.0.1.1:9500'' \<in> set (com_members c))"
  using shardMap_of_accepted [OF sample_newInstructions, of rev "''10.0.1.1:9500''" 1] by simp

text \<open>
  Reading a configuration never panics: it returns an error, an instruction, or (for a
  machine list that cannot be opened, when all before it were read) neither of the two.
\<close>

theorem newInstructions_returns:
  "\<exists>r. newInstructions e ord yaml = Inr r"
  using newInstructions_no_panic by (metis obj_sumE)

text \<open>
  Only the last character before the extension decides the shard of a machine list, so the
  lists of shard 10 and of shard 0 get the same number, and the one read later replaces the
  other.
\<close>

theorem machine_list_overwritten:
  assumes "env_Open e ''shard10.txt'' = Some f" and "scan_lines f = Inr ls"
    and "env_Open e ''shard0.txt'' = Some f0" and "scan_lines f0 = Inr ls0"
  shows "read_committees e port [''shard0.txt'', ''shard10.txt''] [] =
    Inr (Inr (Some
      [(0, \<lparr>com_file = ''shard10.txt'', com_members = map (\<lambda>l. l @ '':'' @ Itoa port) ls\<rparr>)]))"
proof -
  have "shard_of_file ''shard0.txt'' = Inr (Some 0)" "shard_of_file ''shard10.txt'' = Inr (Some 0)"
    using shard_of_file_last [of "CHR ''0''" "''shard''"] shard_of_file_last [of "CHR ''0''" "''shard1''"]
    by (simp_all add: Atoi_def is_digit_def digit_val_def in_int64_def)
  with assms show ?thesis by simp
qed

theorem machine_list_overwritten_witness:
  "read_committees (sample_env\<lparr>env_Open := (\<lambda>_. Some \<lparr>of_content = ''10.0.0.9'', of_error = None\<rparr>)\<rparr>)
      9500 [''shard0.txt'', ''shard10.txt''] [] =
    Inr (Inr (Some [(0, \<lparr>com_file = ''shard10.txt'', com_members = [''10.0.0.9:9500'']\<rparr>)]))"
proof -
  have "scan_lines \<lparr>of_content = ''10.0.0.9'', of_error = None\<rparr> = Inr [''10.0.0.9'']" "Itoa 9500 = ''9500''"
    by code_simp+
  then show ?thesis
    by (subst machine_list_overwritten [where ls = "[''10.0.0.9'']" and ls0 = "[''10.0.0.9'']"
          and f = "\<lparr>of_content = ''10.0.0.9'', of_error = None\<rparr>"
          and f0 = "\<lparr>of_content = ''10.0.0.9'', of_error = None\<rparr>"]) simp_all
qed

end
