(* ===== verification/Manager.thy ===== *)
theory Manager
  imports Pool Summary Config
begin

text \<open>
  The collecting side of \<^verbatim>\<open>reporting-server.go\<close>: the copies between the working containers and
  the snapshots, \<^verbatim>\<open>bytesToNodeMetadata\<close>, one round of \<^verbatim>\<open>manager\<close> (after its jobs have been
  dispatched through the pool), \<^verbatim>\<open>getBeaconChainNode\<close>, \<^verbatim>\<open>stakingCommitteeUpdate\<close> and \<^verbatim>\<open>update\<close>.
  \<open>cs\<close> is always the sequence of replies read from the closed reply channel.
\<close>

section \<open>Copies\<close>

definition summaryCopy ::
  "((string \<times> (string, ival) gomap) list \<Rightarrow> (string \<times> (string, ival) gomap) list) \<Rightarrow>
   ((string \<times> ival) list \<Rightarrow> (string \<times> ival) list) \<Rightarrow> summary \<Rightarrow> monitor \<Rightarrow> monitor" where
  "summaryCopy ord ord' newData m =
     m\<lparr>m_SummarySnapshot :=
         fold (\<lambda>kv. AList.update (fst kv)
                      (fold (\<lambda>e. AList.update (fst e) (snd e)) (ord' (snd kv)) []))
           (ord newData) []\<rparr>"

definition metadataCopy :: "MetadataContainer \<Rightarrow> monitor \<Rightarrow> monitor" where
  "metadataCopy newData m =
     m\<lparr>m_MetadataSnapshot :=
         \<lparr>mc_TS = mc_TS newData, mc_Nodes = mc_Nodes newData, mc_Down = mc_Down newData\<rparr>\<rparr>"

definition blockHeaderCopy :: "BlockHeaderContainer \<Rightarrow> monitor \<Rightarrow> monitor" where
  "blockHeaderCopy newData m =
     m\<lparr>m_BlockHeaderSnapshot :=
         \<lparr>bc_TS = bc_TS newData, bc_Nodes = bc_Nodes newData, bc_Down = bc_Down newData\<rparr>\<rparr>"

section \<open>Decoding replies\<close>

definition node_of :: "reply \<Rightarrow> NodeMetadata" where
  "node_of d =
     \<lparr>md_Payload = Unmarshal (dec_result dec_NodeMetadataReply) (rp_rpcResult d) zero_NodeMetadataReply,
      md_IP = rp_address d\<rparr>"

definition header_of :: "reply \<Rightarrow> BlockHeader" where
  "header_of d =
     \<lparr>hd_Payload = Unmarshal (dec_result dec_BlockHeaderReply) (rp_rpcResult d) zero_BlockHeaderReply,
      hd_IP = rp_address d\<rparr>"

text \<open>The methods get the reply \<open>d\<close> whose fields the code passes one by one.\<close>

definition bytesToNodeMetadata :: "reply \<Rightarrow> monitor \<Rightarrow> monitor" where
  "bytesToNodeMetadata d m =
     (if rp_rpc d = NodeMetadataRPC then
        m\<lparr>m_WorkingMetadata := (m_WorkingMetadata m)\<lparr>mc_Nodes :=
            mc_Nodes (m_WorkingMetadata m) @ [node_of d]\<rparr>\<rparr>
      else if rp_rpc d = BlockHeaderRPC then
        m\<lparr>m_WorkingBlockHeader := (m_WorkingBlockHeader m)\<lparr>bc_Nodes :=
            bc_Nodes (m_WorkingBlockHeader m) @ [header_of d]\<rparr>\<rparr>
      else m)"

definition noReply_of :: "shardMap \<Rightarrow> reply \<Rightarrow> string \<Rightarrow> noReply" where
  "noReply_of shardMap d err =
     \<lparr>nr_IP = rp_address d, nr_FailureReason = err, nr_RPCPayload = rp_rpcPayload d,
      nr_ShardID = shard_of shardMap (rp_address d)\<rparr>"

section \<open>One round of manager\<close>

text \<open>The bodies of the two loops over the reply channel; the flag is \<^verbatim>\<open>first\<close>.\<close>

definition metadata_reply :: "shardMap \<Rightarrow> reply \<Rightarrow> bool \<times> monitor \<Rightarrow> bool \<times> monitor" where
  "metadata_reply shardMap d st =
     (let (first, m) = st;
          m = (if first then m\<lparr>m_WorkingMetadata :=
                 (m_WorkingMetadata m)\<lparr>mc_Down := [], mc_Nodes := []\<rparr>\<rparr> else m)
      in (False,
          case rp_oops d of
            Some err \<Rightarrow> m\<lparr>m_WorkingMetadata := (m_WorkingMetadata m)\<lparr>mc_Down :=
                mc_Down (m_WorkingMetadata m) @ [noReply_of shardMap d err]\<rparr>\<rparr>
          | None \<Rightarrow> bytesToNodeMetadata d m))"

definition header_reply :: "shardMap \<Rightarrow> reply \<Rightarrow> bool \<times> monitor \<Rightarrow> bool \<times> monitor" where
  "header_reply shardMap d st =
     (let (first, m) = st;
          m = (if first then m\<lparr>m_WorkingBlockHeader :=
                 (m_WorkingBlockHeader m)\<lparr>bc_Down := [], bc_Nodes := []\<rparr>\<rparr> else m)
      in (False,
          case rp_oops d of
            Some err \<Rightarrow> m\<lparr>m_WorkingBlockHeader := (m_WorkingBlockHeader m)\<lparr>bc_Down :=
                bc_Down (m_WorkingBlockHeader m) @ [noReply_of shardMap d err]\<rparr>\<rparr>
          | None \<Rightarrow> bytesToNodeMetadata d m))"

fun getBeaconChainNode :: "shardMap \<Rightarrow> string" where
  "getBeaconChainNode [] = []"
| "getBeaconChainNode ((k, v) # sm) = (if v = 0 then k else getBeaconChainNode sm)"

text \<open>The loop that looks for a new epoch stops at the first header of shard 0.\<close>

fun epoch_check :: "string \<Rightarrow> BlockHeader list \<Rightarrow> u64 \<Rightarrow> u64 \<times> call list" where
  "epoch_check beacon [] prevEpoch = (prevEpoch, [])"
| "epoch_check beacon (n # ns) prevEpoch =
     (if hdr_shard n = 0 then
        (if prevEpoch < hdr_epoch n
         then (hdr_epoch n, [Go_stakingCommitteeUpdate beacon]) else (prevEpoch, []))
      else epoch_check beacon ns prevEpoch)"

text \<open>
  One iteration of the loop of \<^verbatim>\<open>manager\<close> at time \<open>now\<close>, from the drained channel on: the new
  state with \<^verbatim>\<open>prevEpoch\<close>, or \<open>None\<close> when it waits for the lock forever, and the goroutines it
  starts.
\<close>

definition manager_round ::
  "((string \<times> int) list \<Rightarrow> (string \<times> int) list) \<Rightarrow> int \<Rightarrow> shardMap \<Rightarrow> string \<Rightarrow> string \<Rightarrow> string \<Rightarrow>
   int \<Rightarrow> reply list \<Rightarrow> monitor \<times> u64 \<Rightarrow> (monitor \<times> u64) option \<times> call list" where
  "manager_round ord tolerance shardMap rpc pdServiceKey chain now cs st =
     (let (m, prevEpoch) = st
      in if rpc = NodeMetadataRPC then
           (let m = m\<lparr>m_WorkingMetadata := (m_WorkingMetadata m)\<lparr>mc_TS := now\<rparr>\<rparr>;
                (_, m) = fold (metadata_reply shardMap) cs (True, m);
                containerCopy = zero_Metadata\<lparr>mc_Nodes := mc_Nodes (m_WorkingMetadata m)\<rparr>
            in (case lock m of
                  None \<Rightarrow> None
                | Some m \<Rightarrow> Some (unlock (metadataCopy (m_WorkingMetadata m) m), prevEpoch),
                [Go_p2pMonitor tolerance pdServiceKey chain containerCopy]))
         else if rpc = BlockHeaderRPC then
           (let m = m\<lparr>m_WorkingBlockHeader := (m_WorkingBlockHeader m)\<lparr>bc_TS := now\<rparr>\<rparr>;
                (_, m) = fold (header_reply shardMap) cs (True, m)
            in case lock m of
                 None \<Rightarrow> (None, [])
               | Some m \<Rightarrow>
                   (let (prevEpoch, calls) =
                          epoch_check (getBeaconChainNode (ord shardMap))
                            (bc_Nodes (m_WorkingBlockHeader m)) prevEpoch
                    in (Some (unlock (blockHeaderCopy (m_WorkingBlockHeader m) m), prevEpoch), calls)))
         else (Some (m, prevEpoch), []))"

text \<open>The jobs that \<^verbatim>\<open>manager\<close> sends at the start of a round.\<close>

definition manager_jobs ::
  "((string \<times> int) list \<Rightarrow> (string \<times> int) list) \<Rightarrow> string \<Rightarrow> shardMap \<Rightarrow> work list" where
  "manager_jobs ord rpc shardMap = jobs_for rpc (keys (ord shardMap))"

section \<open>Committees\<close>

definition stakingCommitteeUpdate :: "http \<Rightarrow> string \<Rightarrow> monitor \<Rightarrow> monitor" where
  "stakingCommitteeUpdate http beaconChainNode m =
     (let committeeRequestFields = AList.update ''id'' (JStr ''0'') (getRPCRequest SuperCommitteeRPC);
          requestBody = marshal_fields committeeRequestFields;
          (result, _, err) = request http (''http://'' @ beaconChainNode) requestBody
      in if err \<noteq> None then m
         else m\<lparr>m_SuperCommittee :=
                  Unmarshal (dec_result dec_SuperCommitteeReply) result zero_SuperCommitteeReply\<rparr>)"

section \<open>update\<close>

text \<open>
  The table, the pool's size and the goroutines that \<^verbatim>\<open>update\<close> starts. \<^verbatim>\<open>uint64(x)\<close> of a Go int
  reduces modulo \<open>2 ^ 64\<close>. A negative pool size starts no worker.
\<close>

definition update_calls ::
  "watchParams \<Rightarrow> shardMap \<Rightarrow> string \<Rightarrow> string \<Rightarrow> call list" where
  "update_calls params shardMap beacon rpc =
     (let key = wp_EventServiceKey params; chain = wp_TargetChain params;
          poolSize = wp_WorkerPoolSize params
      in if rpc = NodeMetadataRPC then
           [Go_manager (wp_Inspect_NodeMetadata params) (wp_Connectivity_Warning params)
              shardMap rpc key chain]
         else if rpc = BlockHeaderRPC then
           [Go_manager (wp_Inspect_BlockHeader params) 0 shardMap rpc [] [],
            Go_stakingCommitteeUpdate beacon,
            Go_consensusMonitor (word_of_int (wp_Consensus_Interval params))
              (word_of_int (wp_Consensus_Warning params))
              (word_of_int (wp_ShardHeight_Warning params)) poolSize key chain shardMap,
            Go_cxMonitor (word_of_int (wp_Inspect_CxPending params))
              (word_of_int (wp_CxPending_Warning params)) poolSize key chain shardMap,
            Go_crossLinkMonitor (word_of_int (wp_Inspect_CrossLink params))
              (word_of_int (wp_CrossLink_Warning params)) poolSize key chain shardMap]
         else [])"

definition update ::
  "((int \<times> committee) list \<Rightarrow> (int \<times> committee) list) \<Rightarrow>
   ((string \<times> int) list \<Rightarrow> (string \<times> int) list) \<Rightarrow> watchParams \<Rightarrow> (int, committee) gomap \<Rightarrow>
   string list \<Rightarrow> pool \<times> call list" where
  "update ord ord' params superCommittee rpcs =
     (let shardMap = shardMap_of (ord superCommittee);
          poolSize = nat (wp_WorkerPoolSize params)
      in (new_pool poolSize (length shardMap),
          replicate poolSize Go_worker @
          concat (map (update_calls params shardMap (getBeaconChainNode (ord' shardMap))) rpcs)))"

section \<open>Filling a working container\<close>

text \<open>
  The interface of the two loops: each reply without an error adds one node, each other reply
  adds one entry to the list of silent machines, and the first reply of a round drops what the
  last round left.
\<close>

definition answered_ok :: "reply list \<Rightarrow> reply list" where
  "answered_ok cs = filter (\<lambda>d. rp_oops d = None) cs"

definition silent_of :: "shardMap \<Rightarrow> reply list \<Rightarrow> noReply list" where
  "silent_of sm cs =
     map (\<lambda>d. noReply_of sm d (the (rp_oops d))) (filter (\<lambda>d. rp_oops d \<noteq> None) cs)"

lemma silent_shards: "n \<in> set (silent_of sm cs) \<Longrightarrow> nr_ShardID n = shard_of sm (nr_IP n)"
  by (auto simp: silent_of_def noReply_of_def)

lemma replies_split:
  "mset (map rp_address (answered_ok cs)) + mset (map nr_IP (silent_of sm cs)) =
   mset (map rp_address cs)"
  by (induction cs) (auto simp: answered_ok_def silent_of_def noReply_of_def)

locale reply_sink =
  fixes rpc :: string
    and put :: "shardMap \<Rightarrow> reply \<Rightarrow> bool \<times> monitor \<Rightarrow> bool \<times> monitor"
    and nodes :: "monitor \<Rightarrow> 'n list"
    and downs :: "monitor \<Rightarrow> noReply list"
    and node :: "reply \<Rightarrow> 'n"
    and stamp :: "monitor \<Rightarrow> int"
  assumes put_flag: "fst (put sm d st) = False"
    and put_ok: "rp_rpc d = rpc \<Longrightarrow> rp_oops d = None \<Longrightarrow>
      nodes (snd (put sm d (first, m))) = (if first then [] else nodes m) @ [node d] \<and>
      downs (snd (put sm d (first, m))) = (if first then [] else downs m)"
    and put_err: "rp_oops d = Some err \<Longrightarrow>
      nodes (snd (put sm d (first, m))) = (if first then [] else nodes m) \<and>
      downs (snd (put sm d (first, m))) = (if first then [] else downs m) @ [noReply_of sm d err]"
    and put_lock: "m_inUse (snd (put sm d st)) = m_inUse (snd st)"
    and put_stamp: "stamp (snd (put sm d st)) = stamp (snd st)"
begin

lemma fold_later:
  "\<forall>d \<in> set cs. rp_rpc d = rpc \<Longrightarrow>
   nodes (snd (fold (put sm) cs (False, m))) = nodes m @ map node (answered_ok cs) \<and>
   downs (snd (fold (put sm) cs (False, m))) = downs m @ silent_of sm cs"
proof (induction cs arbitrary: m)
  case (Cons d cs)
  obtain m' where m': "put sm d (False, m) = (False, m')"
    using put_flag [of sm d "(False, m)"] by (metis prod.collapse)
  show ?case
  proof (cases "rp_oops d")
    case None
    then show ?thesis
      using Cons.IH [of m'] Cons.prems put_ok [of d sm False m]
      by (simp add: m' answered_ok_def silent_of_def)
  next
    case (Some err)
    then show ?thesis
      using Cons.IH [of m'] Cons.prems put_err [of d err sm False m]
      by (simp add: m' answered_ok_def silent_of_def)
  qed
qed (simp add: answered_ok_def silent_of_def)

lemma round_result:
  assumes rpc: "\<forall>d \<in> set cs. rp_rpc d = rpc" and ne: "cs \<noteq> []"
  shows "nodes (snd (fold (put sm) cs (True, m))) = map node (answered_ok cs) \<and>
    downs (snd (fold (put sm) cs (True, m))) = silent_of sm cs"
proof -
  obtain d ds where cs: "cs = d # ds" using ne by (cases cs) auto
  obtain m' where m': "put sm d (True, m) = (False, m')"
    using put_flag [of sm d "(True, m)"] by (metis prod.collapse)
  show ?thesis
  proof (cases "rp_oops d")
    case None
    then show ?thesis
      using fold_later [of ds sm m'] rpc put_ok [of d sm True m]
      by (simp add: cs m' answered_ok_def silent_of_def)
  next
    case (Some err)
    then show ?thesis
      using fold_later [of ds sm m'] rpc put_err [of d err sm True m]
      by (simp add: cs m' answered_ok_def silent_of_def)
  qed
qed

lemma round_lock: "m_inUse (snd (fold (put sm) cs st)) = m_inUse (snd st)"
  by (induction cs arbitrary: st) (simp_all add: put_lock)

lemma round_stamp: "stamp (snd (fold (put sm) cs st)) = stamp (snd st)"
  by (induction cs arbitrary: st) (simp_all add: put_stamp)

end

interpretation ms: reply_sink NodeMetadataRPC metadata_reply
  "\<lambda>m. mc_Nodes (m_WorkingMetadata m)" "\<lambda>m. mc_Down (m_WorkingMetadata m)" node_of
  "\<lambda>m. mc_TS (m_WorkingMetadata m)"
  by unfold_locales
     (simp_all add: metadata_reply_def bytesToNodeMetadata_def case_prod_beta Let_def split: option.split)

interpretation hs: reply_sink BlockHeaderRPC header_reply
  "\<lambda>m. bc_Nodes (m_WorkingBlockHeader m)" "\<lambda>m. bc_Down (m_WorkingBlockHeader m)" header_of
  "\<lambda>m. bc_TS (m_WorkingBlockHeader m)"
  by unfold_locales
     (simp_all add: header_reply_def bytesToNodeMetadata_def rpc_names case_prod_beta Let_def
        split: option.split)

section \<open>The result of a round\<close>

context collector
begin

lemma round_replies:
  assumes "collects c (jobs_for rpc ns) cs"
  shows "mset (map rp_address (answered_ok cs)) + mset (map nr_IP (silent_of sm cs)) = mset ns"
    and "\<forall>d \<in> set cs. rp_rpc d = rpc"
    and "cs = [] \<longleftrightarrow> ns = []"
proof -
  show "mset (map rp_address (answered_ok cs)) + mset (map nr_IP (silent_of sm cs)) = mset ns"
    using addresses [OF assms] by (simp only: replies_split jobs_for_simps)
  show "\<forall>d \<in> set cs. rp_rpc d = rpc"
    using reply_origin [OF assms] by (metis answers_def jobs_for_rpc)
  show "cs = [] \<longleftrightarrow> ns = []"
    using replies_length [OF assms] by auto
qed

lemma silent_payload:
  assumes "collects c (jobs_for rpc ns) cs" and "n \<in> set (silent_of sm cs)"
  shows "nr_RPCPayload n = rpc_body rpc"
proof -
  obtain d err where d: "d \<in> set cs" "rp_oops d = Some err" "n = noReply_of sm d err"
    using assms(2) by (auto simp: silent_of_def)
  obtain w where w: "w \<in> set (jobs_for rpc ns)" "answers w d"
    using reply_origin [OF assms(1) d(1)] by blast
  have "wk_body w = rpc_body rpc" using jobs_for_rpc [OF w(1)] by simp
  with w(2) d(2,3) show ?thesis by (simp add: answers_def noReply_of_def)
qed

end

lemma metadata_round_eq:
  assumes "\<not> m_inUse m" and "\<forall>d \<in> set cs. rp_rpc d = NodeMetadataRPC" and "cs \<noteq> []"
  shows "\<exists>m'. manager_round ord tol sm NodeMetadataRPC key chain now cs (m, prev) =
      (Some (m', prev),
       [Go_p2pMonitor tol key chain (zero_Metadata\<lparr>mc_Nodes := map node_of (answered_ok cs)\<rparr>)]) \<and>
    m_MetadataSnapshot m' =
      \<lparr>mc_TS = now, mc_Nodes = map node_of (answered_ok cs), mc_Down = silent_of sm cs\<rparr> \<and>
    \<not> m_inUse m'"
proof -
  define m0 where "m0 = m\<lparr>m_WorkingMetadata := (m_WorkingMetadata m)\<lparr>mc_TS := now\<rparr>\<rparr>"
  obtain f m1 where m1: "fold (metadata_reply sm) cs (True, m0) = (f, m1)" by fastforce
  have "mc_Nodes (m_WorkingMetadata m1) = map node_of (answered_ok cs)"
    "mc_Down (m_WorkingMetadata m1) = silent_of sm cs" "\<not> m_inUse m1"
    "mc_TS (m_WorkingMetadata m1) = now"
    using ms.round_result [OF assms(2,3), of sm m0] ms.round_lock [of sm cs "(True, m0)"]
      ms.round_stamp [of sm cs "(True, m0)"] m1 assms(1)
    by (simp_all add: m0_def)
  then show ?thesis
    by (simp add: manager_round_def m0_def [symmetric] m1 metadataCopy_def unlock_def Let_def)
qed

lemma header_round_eq:
  assumes "\<not> m_inUse m" and "\<forall>d \<in> set cs. rp_rpc d = BlockHeaderRPC" and "cs \<noteq> []"
  shows "\<exists>m'. manager_round ord tol sm BlockHeaderRPC key chain now cs (m, prev) =
      (let (prev', calls) =
         epoch_check (getBeaconChainNode (ord sm)) (map header_of (answered_ok cs)) prev
       in (Some (m', prev'), calls)) \<and>
    m_BlockHeaderSnapshot m' =
      \<lparr>bc_TS = now, bc_Nodes = map header_of (answered_ok cs), bc_Down = silent_of sm cs\<rparr> \<and>
    \<not> m_inUse m'"
proof -
  define m0 where "m0 = m\<lparr>m_WorkingBlockHeader := (m_WorkingBlockHeader m)\<lparr>bc_TS := now\<rparr>\<rparr>"
  obtain f m1 where m1: "fold (header_reply sm) cs (True, m0) = (f, m1)" by fastforce
  have "bc_Nodes (m_WorkingBlockHeader m1) = map header_of (answered_ok cs)"
    "bc_Down (m_WorkingBlockHeader m1) = silent_of sm cs" "\<not> m_inUse m1"
    "bc_TS (m_WorkingBlockHeader m1) = now"
    using hs.round_result [OF assms(2,3), of sm m0] hs.round_lock [of sm cs "(True, m0)"]
      hs.round_stamp [of sm cs "(True, m0)"] m1 assms(1)
    by (simp_all add: m0_def)
  then show ?thesis
    by (simp add: manager_round_def m0_def [symmetric] m1 blockHeaderCopy_def unlock_def rpc_names
        case_prod_beta Let_def)
qed

section \<open>Epochs and the beacon node\<close>

lemma epoch_check_eq:
  "epoch_check beacon ns prev =
     (case find (\<lambda>n. hdr_shard n = 0) ns of
        None \<Rightarrow> (prev, [])
      | Some n \<Rightarrow> if prev < hdr_epoch n then (hdr_epoch n, [Go_stakingCommitteeUpdate beacon])
                  else (prev, []))"
  by (induction ns) auto

lemma getBeaconChainNode_mem:
  "0 \<in> snd ` set sm \<Longrightarrow> (getBeaconChainNode sm, 0) \<in> set sm"
  by (induction sm rule: getBeaconChainNode.induct) auto

lemma getBeaconChainNode_none: "0 \<notin> snd ` set sm \<Longrightarrow> getBeaconChainNode sm = []"
  by (induction sm rule: getBeaconChainNode.induct) auto

lemma getBeaconChainNode_shard:
  assumes "range_order ord" and "gomap sm" and "map_of sm a = Some 0"
  shows "map_of sm (getBeaconChainNode (ord sm)) = Some 0"
proof -
  have "0 \<in> snd ` set (ord sm)"
    using assms(3) by (force simp: range_order_set [OF assms(1)] dest: map_of_SomeD)
  then have "(getBeaconChainNode (ord sm), 0) \<in> set sm"
    using getBeaconChainNode_mem [of "ord sm"] by (simp add: range_order_set [OF assms(1)])
  then show ?thesis using assms(2) by (simp add: gomap_def)
qed

section \<open>Copying the summary\<close>

lemma fold_update_self:
  assumes "gomap xs"
  shows "map_of (fold (\<lambda>e. AList.update (fst e) (snd e)) xs []) = map_of xs"
proof
  fix a
  show "map_of (fold (\<lambda>e. AList.update (fst e) (snd e)) xs []) a = map_of xs a"
    using assms map_of_fold_update [of fst xs snd "[]" a]
    by (simp add: gomap_def split: option.splits)
qed

lemma summaryCopy_lookup:
  assumes "range_order ord" and "range_order ord'" and "gomap s" and "\<forall>kv \<in> set s. gomap (snd kv)"
  shows "map_of (sget (m_SummarySnapshot (summaryCopy ord ord' s m)) key) k = map_of (sget s key) k"
proof -
  let ?copy = "\<lambda>kv. fold (\<lambda>e. AList.update (fst e) (snd e)) (ord' (snd kv)) []"
  have copy: "map_of (?copy kv) = map_of (snd kv)" if "kv \<in> set s" for kv
    using that assms fold_update_self [of "ord' (snd kv)"] by simp
  have dist: "distinct (map fst (ord s))"
    using assms gomap_range [OF assms(1), of s] by (simp add: gomap_def)
  have eq: "map_of (m_SummarySnapshot (summaryCopy ord ord' s m)) key =
      map_of (map (\<lambda>kv. (fst kv, ?copy kv)) (ord s)) key"
    unfolding summaryCopy_def using map_of_fold_update [OF dist, of ?copy "[]" key]
    by (simp split: option.splits)
  show ?thesis
  proof (cases "map_of s key")
    case None
    then have "key \<notin> fst ` set (ord s)"
      by (simp add: map_of_eq_None_iff range_order_set [OF assms(1)])
    then have none: "map_of (map (\<lambda>kv. (fst kv, ?copy kv)) (ord s)) key = None"
      by (simp add: map_of_eq_None_iff image_image)
    show ?thesis unfolding sget_def eq none None by simp
  next
    case (Some v)
    then have v: "(key, v) \<in> set s" by (rule map_of_SomeD)
    then have "(key, ?copy (key, v)) \<in> set (map (\<lambda>kv. (fst kv, ?copy kv)) (ord s))"
      by (force simp: range_order_set [OF assms(1)])
    moreover have "distinct (map fst (map (\<lambda>kv. (fst kv, ?copy kv)) (ord s)))"
      using dist by (simp add: o_def)
    ultimately have some: "map_of (map (\<lambda>kv. (fst kv, ?copy kv)) (ord s)) key = Some (?copy (key, v))"
      by (rule map_of_is_SomeI [rotated])
    show ?thesis unfolding sget_def eq some Some using copy [OF v] by simp
  qed
qed

section \<open>Properties\<close>

definition sample_shardMap :: shardMap where
  "sample_shardMap = [(''10.0.0.1:9500'', 0), (''10.0.1.1:9500'', 1)]"

definition sample_replies :: "string \<Rightarrow> reply list" where
  "sample_replies rpc = map (serve sample_http) (manager_jobs (\<lambda>xs. xs) rpc sample_shardMap)"

lemma sample_collects:
  "pool_collects (4, 2, rpc) (manager_jobs (\<lambda>xs. xs) rpc sample_shardMap) (sample_replies rpc)"
  unfolding sample_replies_def
  by (rule wp.possible [OF _ serve_all])
     (simp add: pool_accepts_def manager_jobs_def sample_shardMap_def jobs_for_def)

text \<open>
  (C2) After a round of the metadata manager the snapshot accounts for every configured machine
  exactly once: the machines that answered are its nodes, all others are in the list of silent
  machines, each with the shard it is configured for and the request it did not answer. The
  snapshot carries the time of the tick, the lock is free again, and the connectivity check is
  started on the same nodes.
\<close>

theorem metadata_round_accounts:
  assumes "pool_collects (poolSize, nodes, NodeMetadataRPC)
      (manager_jobs ord NodeMetadataRPC shardMap) cs"
    and "range_order ord" and "shardMap \<noteq> []" and "\<not> m_inUse m"
  shows "\<exists>m' data. manager_round ord tolerance shardMap NodeMetadataRPC key chain now cs (m, prev) =
      (Some (m', prev), [Go_p2pMonitor tolerance key chain data]) \<and>
    mc_TS (m_MetadataSnapshot m') = now \<and>
    mset (map md_IP (mc_Nodes (m_MetadataSnapshot m')) @ map nr_IP (mc_Down (m_MetadataSnapshot m'))) =
      mset (keys shardMap) \<and>
    (\<forall>n \<in> set (mc_Down (m_MetadataSnapshot m')).
      nr_ShardID n = shard_of shardMap (nr_IP n) \<and> nr_RPCPayload n = rpc_body NodeMetadataRPC) \<and>
    mc_Nodes data = mc_Nodes (m_MetadataSnapshot m') \<and> \<not> m_inUse m'"
proof -
  note col = assms(1) [unfolded manager_jobs_def]
  have ne: "cs \<noteq> []"
    using wp.round_replies(3) [OF col] assms(3) range_order_length [OF assms(2), of shardMap] by auto
  obtain m' where m': "manager_round ord tolerance shardMap NodeMetadataRPC key chain now cs (m, prev) =
      (Some (m', prev),
       [Go_p2pMonitor tolerance key chain (zero_Metadata\<lparr>mc_Nodes := map node_of (answered_ok cs)\<rparr>)])"
    "m_MetadataSnapshot m' =
      \<lparr>mc_TS = now, mc_Nodes = map node_of (answered_ok cs), mc_Down = silent_of shardMap cs\<rparr>"
    "\<not> m_inUse m'"
    using metadata_round_eq [OF assms(4) wp.round_replies(2) [OF col] ne] by blast
  have "mset (map md_IP (map node_of (answered_ok cs)) @ map nr_IP (silent_of shardMap cs)) =
      mset (keys shardMap)"
    using wp.round_replies(1) [OF col, of shardMap] range_order_keys [OF assms(2), of shardMap]
    by (simp add: node_of_def o_def)
  then show ?thesis
    using m' silent_shards wp.silent_payload [OF col] by (intro exI conjI) (auto simp: m'(2))
qed

theorem metadata_round_accounts_witness:
  "\<exists>m' data. manager_round (\<lambda>xs. xs) 10 sample_shardMap NodeMetadataRPC ''key'' ''testnet'' 5
      (sample_replies NodeMetadataRPC) (new_monitor ''testnet'', 0) =
      (Some (m', 0), [Go_p2pMonitor 10 ''key'' ''testnet'' data]) \<and>
    mset (map md_IP (mc_Nodes (m_MetadataSnapshot m')) @ map nr_IP (mc_Down (m_MetadataSnapshot m'))) =
      mset (keys sample_shardMap)"
  using metadata_round_accounts [OF sample_collects, of "new_monitor ''testnet''" 10 "''key''" "''testnet''" 5 0]
  by (fastforce simp: new_monitor_def sample_shardMap_def)

text \<open>
  (C3) The same for the block header manager: nodes and silent machines of the new snapshot
  together are the configured machines. A committee update is started exactly if the first
  header of shard 0 shows an epoch above the last one seen, and the remembered epoch never
  decreases.
\<close>

theorem header_round_accounts:
  assumes "pool_collects (poolSize, nodes, BlockHeaderRPC)
      (manager_jobs ord BlockHeaderRPC shardMap) cs"
    and "range_order ord" and "shardMap \<noteq> []" and "\<not> m_inUse m"
  shows "\<exists>m' prev' calls. manager_round ord tolerance shardMap BlockHeaderRPC key chain now cs (m, prev) =
      (Some (m', prev'), calls) \<and>
    bc_TS (m_BlockHeaderSnapshot m') = now \<and>
    mset (map hd_IP (bc_Nodes (m_BlockHeaderSnapshot m')) @ map nr_IP (bc_Down (m_BlockHeaderSnapshot m'))) =
      mset (keys shardMap) \<and>
    (\<forall>n \<in> set (bc_Down (m_BlockHeaderSnapshot m')).
      nr_ShardID n = shard_of shardMap (nr_IP n) \<and> nr_RPCPayload n = rpc_body BlockHeaderRPC) \<and>
    prev \<le> prev' \<and>
    calls = (if prev < prev' then [Go_stakingCommitteeUpdate (getBeaconChainNode (ord shardMap))] else []) \<and>
    (case find (\<lambda>n. hdr_shard n = 0) (bc_Nodes (m_BlockHeaderSnapshot m')) of
       None \<Rightarrow> prev' = prev | Some n \<Rightarrow> prev' = max prev (hdr_epoch n)) \<and>
    \<not> m_inUse m'"
proof -
  note col = assms(1) [unfolded manager_jobs_def]
  have ne: "cs \<noteq> []"
    using wp.round_replies(3) [OF col] assms(3) range_order_length [OF assms(2), of shardMap] by auto
  obtain prev' calls where ec: "epoch_check (getBeaconChainNode (ord shardMap))
      (map header_of (answered_ok cs)) prev = (prev', calls)" by fastforce
  obtain m' where m': "manager_round ord tolerance shardMap BlockHeaderRPC key chain now cs (m, prev) =
      (Some (m', prev'), calls)"
    "m_BlockHeaderSnapshot m' =
      \<lparr>bc_TS = now, bc_Nodes = map header_of (answered_ok cs), bc_Down = silent_of shardMap cs\<rparr>"
    "\<not> m_inUse m'"
    using header_round_eq [OF assms(4) wp.round_replies(2) [OF col] ne, of ord tolerance shardMap key
        chain now prev] ec by auto
  have "mset (map hd_IP (map header_of (answered_ok cs)) @ map nr_IP (silent_of shardMap cs)) =
      mset (keys shardMap)"
    using wp.round_replies(1) [OF col, of shardMap] range_order_keys [OF assms(2), of shardMap]
    by (simp add: header_of_def o_def)
  moreover have "prev \<le> prev' \<and>
    calls = (if prev < prev' then [Go_stakingCommitteeUpdate (getBeaconChainNode (ord shardMap))] else []) \<and>
    (case find (\<lambda>n. hdr_shard n = 0) (map header_of (answered_ok cs)) of
       None \<Rightarrow> prev' = prev | Some n \<Rightarrow> prev' = max prev (hdr_epoch n))"
    using ec by (auto simp: epoch_check_eq max_def split: option.splits if_splits)
  ultimately show ?thesis
    using m' silent_shards wp.silent_payload [OF col] by (intro exI conjI) (auto simp: m'(2))
qed

theorem header_round_accounts_witness:
  "\<exists>m' prev' calls. manager_round (\<lambda>xs. xs) 0 sample_shardMap BlockHeaderRPC [] [] 5
      (sample_replies BlockHeaderRPC) (new_monitor ''testnet'', 3) = (Some (m', prev'), calls) \<and>
    mset (map hd_IP (bc_Nodes (m_BlockHeaderSnapshot m')) @ map nr_IP (bc_Down (m_BlockHeaderSnapshot m'))) =
      mset (keys sample_shardMap) \<and> 3 \<le> prev'"
  using header_round_accounts [OF sample_collects, of "new_monitor ''testnet''" 0 "[]" "[]" 5 3]
  by (fastforce simp: new_monitor_def sample_shardMap_def)

text \<open>
  A manager that finds the lock held never finishes its round, so the snapshots are never
  replaced again.
\<close>

theorem manager_blocked:
  assumes "m_inUse m"
    and "rpc = NodeMetadataRPC \<or> rpc = BlockHeaderRPC"
  shows "fst (manager_round ord tolerance shardMap rpc key chain now cs (m, prev)) = None"
proof -
  obtain f m1 where m1: "fold (metadata_reply shardMap) cs
      (True, m\<lparr>m_WorkingMetadata := (m_WorkingMetadata m)\<lparr>mc_TS := now\<rparr>\<rparr>) = (f, m1)" by fastforce
  obtain g m2 where m2: "fold (header_reply shardMap) cs
      (True, m\<lparr>m_WorkingBlockHeader := (m_WorkingBlockHeader m)\<lparr>bc_TS := now\<rparr>\<rparr>) = (g, m2)" by fastforce
  have "m_inUse m1" "m_inUse m2"
    using ms.round_lock [of shardMap cs] hs.round_lock [of shardMap cs] m1 m2 assms(1)
    by (metis monitor.select_convs(2) monitor.surjective monitor.update_convs snd_conv)+
  with assms(2) show ?thesis
    by (auto simp: manager_round_def m1 m2 Let_def)
qed

theorem manager_blocked_witness:
  "fst (manager_round (\<lambda>xs. xs) 0 sample_shardMap BlockHeaderRPC [] [] 5
      (sample_replies BlockHeaderRPC) ((new_monitor ''testnet'')\<lparr>m_inUse := True\<rparr>, 3)) = None"
  by (rule manager_blocked) simp_all

text \<open>
  The committee is asked from a machine configured for shard 0 whenever there is one,
  whatever the order in which the table is visited.
\<close>

theorem beacon_node_on_shard_0:
  assumes "range_order ord" and "gomap shardMap" and "map_of shardMap a = Some 0"
  shows "map_of shardMap (getBeaconChainNode (ord shardMap)) = Some 0"
  using assms by (rule getBeaconChainNode_shard)

theorem beacon_node_on_shard_0_witness:
  "map_of sample_shardMap (getBeaconChainNode (rev sample_shardMap)) = Some 0"
  by (rule beacon_node_on_shard_0 [where a = "''10.0.0.1:9500''"])
     (simp_all add: sample_shardMap_def gomap_def)

text \<open>
  A failed committee request leaves the monitor as it is; a successful one replaces the
  committees by the decoded reply and nothing else.
\<close>

theorem stakingCommitteeUpdate_result:
  "stakingCommitteeUpdate http node m =
     (let body = marshal_fields (AList.update ''id'' (JStr ''0'') (getRPCRequest SuperCommitteeRPC));
          d = serve http \<lparr>wk_address = node, wk_rpc = SuperCommitteeRPC, wk_body = body\<rparr>
      in m\<lparr>m_SuperCommittee :=
        (if rp_oops d = None
         then Unmarshal (dec_result dec_SuperCommitteeReply) (rp_rpcResult d) zero_SuperCommitteeReply
         else m_SuperCommittee m)\<rparr>)"
  by (simp add: stakingCommitteeUpdate_def serve_def case_prod_beta Let_def)

end
