(* ===== verification/Consensus.thy ===== *)
theory Consensus
  imports Stall Manager
begin

text \<open>
  \<^verbatim>\<open>consensus-monitor.go\<close>: one tick of \<^verbatim>\<open>consensusMonitor\<close> (after its requests went through the
  pool), \<^verbatim>\<open>checkShardHeight\<close> and \<^verbatim>\<open>checkSync\<close>. Instants are nanoseconds since the Unix epoch.
\<close>

section \<open>State\<close>

record lastSuccessfulBlock =
  lb_Height :: u64
  lb_TS :: int

record consensus_state =
  cs_lastShardData :: "(string, lastSuccessfulBlock) gomap"
  cs_consensusStatus :: "(string, bool) gomap"

definition new_consensus :: consensus_state where
  "new_consensus = \<lparr>cs_lastShardData = [], cs_consensusStatus = []\<rparr>"

text \<open>What the loop over the shards reads of one entry of the summary, at the time of the tick.\<close>

record shard_obs =
  ob_now :: int
  ob_shard :: string
  ob_height :: u64
  ob_header :: BlockHeader

section \<open>One shard\<close>

definition overdue :: "int \<Rightarrow> int \<Rightarrow> u64 \<Rightarrow> bool" where
  "overdue now ts warning \<longleftrightarrow>
     (let timeSinceLastSuccess = time_Sub now ts
      in 0 < duration_Seconds timeSinceLastSuccess \<and>
         warning < u64_of_float (duration_Seconds timeSinceLastSuccess))"

definition consensus_message :: "string \<Rightarrow> shard_obs \<Rightarrow> lastSuccessfulBlock \<Rightarrow> string" where
  "consensus_message chain ob lastBlock =
     (let d = time_Sub (ob_now ob) (lb_TS lastBlock); p = hd_Payload (ob_header ob)
      in Sprintf consensusMessage
           [AStr (ob_shard ob), AInt ''uint64'' (uint (ob_height ob)),
            AStr (format_time (lb_TS lastBlock)), AStr (bh_BlockHash p), AStr (bh_Leader p),
            AInt ''uint64'' (uint (bh_ViewID p)), AInt ''uint64'' (uint (bh_Epoch p)),
            AStr (bh_Timestamp p), AStr (bh_LastCommitSig p), AStr (bh_LastCommitBitmap p),
            AInt ''int64'' (int_of_float (duration_Seconds d)), AFloat (duration_Minutes d),
            AStr chain])"

definition consensus_key :: "string \<Rightarrow> string \<Rightarrow> string" where
  "consensus_key chain shard = Sprintf ''Shard %s consensus stuck! - %s'' [AStr shard, AStr chain]"

text \<open>The body of the loop after the type assertions.\<close>

definition consensus_shard ::
  "(V2Event \<Rightarrow> string option) \<Rightarrow> u64 \<Rightarrow> string \<Rightarrow> string \<Rightarrow> shard_obs \<Rightarrow> consensus_state \<Rightarrow>
   consensus_state \<times> action list" where
  "consensus_shard pd warning pdServiceKey chain ob st =
     (let good = st\<lparr>cs_lastShardData := AList.update (ob_shard ob)
                      \<lparr>lb_Height = ob_height ob,
                       lb_TS = time_Unix (bh_UnixTime (hd_Payload (ob_header ob)))\<rparr>
                      (cs_lastShardData st),
                    cs_consensusStatus := AList.update (ob_shard ob) True (cs_consensusStatus st)\<rparr>
      in case map_of (cs_lastShardData st) (ob_shard ob) of
           None \<Rightarrow> (good, [])
         | Some lastBlock \<Rightarrow>
             if ob_height ob \<le> lb_Height lastBlock \<and> overdue (ob_now ob) (lb_TS lastBlock) warning
             then (st\<lparr>cs_consensusStatus := AList.update (ob_shard ob) False (cs_consensusStatus st)\<rparr>,
                   raise_alert pd ''[consensusMonitor] Sent PagerDuty alert! '' pdServiceKey
                     (consensus_key chain (ob_shard ob)) chain (consensus_message chain ob lastBlock))
             else (good, []))"

section \<open>One tick\<close>

text \<open>The type assertions of the loop.\<close>

definition read_entry :: "int \<Rightarrow> string \<times> ival \<Rightarrow> shard_obs result" where
  "read_entry now kv =
     (case as_any (snd kv) of
        Inl p \<Rightarrow> Inl p
      | Inr summary \<Rightarrow>
          (case as_uint (iget summary blockMax) of
             Inl p \<Rightarrow> Inl p
           | Inr currentBlockHeight \<Rightarrow>
               (case as_header (iget summary ''latest-block'') of
                  Inl p \<Rightarrow> Inl p
                | Inr currentBlockHeader \<Rightarrow>
                    Inr \<lparr>ob_now = now, ob_shard = fst kv, ob_height = currentBlockHeight,
                         ob_header = currentBlockHeader\<rparr>)))"

fun consensus_loop ::
  "(V2Event \<Rightarrow> string option) \<Rightarrow> u64 \<Rightarrow> u64 \<Rightarrow> int \<Rightarrow> string \<Rightarrow> string \<Rightarrow> shardMap \<Rightarrow> int \<Rightarrow>
   (string \<times> ival) list \<Rightarrow> consensus_state \<Rightarrow> (consensus_state \<times> action list \<times> call list) result" where
  "consensus_loop pd warning tolerance poolSize key chain shardMap now [] st = Inr (st, [], [])"
| "consensus_loop pd warning tolerance poolSize key chain shardMap now (kv # kvs) st =
     (case read_entry now kv of
        Inl p \<Rightarrow> Inl p
      | Inr ob \<Rightarrow>
          (let calls = (if ob_shard ob = ''0''
                        then [Go_beaconSyncMonitor (ob_height ob) warning tolerance poolSize key chain
                                shardMap]
                        else []);
               (st, acts) = consensus_shard pd warning key chain ob st
           in case consensus_loop pd warning tolerance poolSize key chain shardMap now kvs st of
                Inl p \<Rightarrow> Inl p
              | Inr (st, acts', calls') \<Rightarrow> Inr (st, acts @ acts', calls @ calls')))"

text \<open>
  Collecting the replies. The list of silent machines is rebuilt from the manager's list at
  every failure.
\<close>

definition consensus_reply :: "shardMap \<Rightarrow> monitor \<Rightarrow> reply \<Rightarrow> BlockHeaderContainer \<Rightarrow> BlockHeaderContainer"
where
  "consensus_reply shardMap m d monitorData =
     (case rp_oops d of
        Some err \<Rightarrow> monitorData\<lparr>bc_Down :=
          bc_Down (m_WorkingBlockHeader m) @ [noReply_of shardMap d err]\<rparr>
      | None \<Rightarrow> monitorData\<lparr>bc_Nodes := bc_Nodes monitorData @ [header_of d]\<rparr>)"

text \<open>
  A tick: the new state, or \<open>None\<close> for the monitor if it waits for the lock forever; the actions
  and the goroutines started.
\<close>

definition consensus_tick ::
  "linq \<Rightarrow> (V2Event \<Rightarrow> string option) \<Rightarrow> ((string \<times> ival) list \<Rightarrow> (string \<times> ival) list) \<Rightarrow>
   u64 \<Rightarrow> u64 \<Rightarrow> int \<Rightarrow> string \<Rightarrow> string \<Rightarrow> shardMap \<Rightarrow> int \<Rightarrow> reply list \<Rightarrow> monitor \<times> consensus_state \<Rightarrow>
   (monitor option \<times> consensus_state \<times> action list \<times> call list) result" where
  "consensus_tick lq pd ord warning tolerance poolSize key chain shardMap now cs ms =
     (let (m, st) = ms;
          monitorData = fold (consensus_reply shardMap m) cs zero_BlockHeaders;
          containerCopy = zero_BlockHeaders\<lparr>bc_Nodes := bc_Nodes monitorData\<rparr>;
          blockHeaderData = blockHeaderSummary lq (bc_Nodes monitorData) True []
      in case consensus_loop pd warning tolerance poolSize key chain shardMap now
                (ord blockHeaderData) st of
           Inl p \<Rightarrow> Inl p
         | Inr (st, acts, calls) \<Rightarrow>
             Inr (case lock m of
                    None \<Rightarrow> None
                  | Some m \<Rightarrow> Some (unlock (m\<lparr>m_consensusProgress := cs_consensusStatus st\<rparr>)),
                  st, acts, Go_checkShardHeight containerCopy warning tolerance key chain # calls))"

section \<open>checkShardHeight\<close>

text \<open>\<^verbatim>\<open>shardHeightMap\<close>: the headers by shard and by block number.\<close>

definition height_add ::
  "BlockHeader \<Rightarrow> (u32, (u64, BlockHeader list) gomap) gomap \<Rightarrow> (u32, (u64, BlockHeader list) gomap) gomap"
where
  "height_add v hm =
     AList.update (hdr_shard v)
       (map_append (hdr_number v) v
          (case map_of hm (hdr_shard v) of None \<Rightarrow> [] | Some bs \<Rightarrow> bs)) hm"

text \<open>
  The loop over the unique heights of one shard. A height is kept as a Go int and converted
  back, which does not change it: \<^verbatim>\<open>uint64(int(h))\<close>.
\<close>

definition uniqueHeights :: "(u64, BlockHeader list) gomap \<Rightarrow> int list" where
  "uniqueHeights s = map (\<lambda>hb. sint (fst hb)) s"

definition maxHeight :: "int list \<Rightarrow> u64" where
  "maxHeight hs = fold (\<lambda>h m. if m < word_of_int h then word_of_int h else m) hs 0"

definition shard_laggards ::
  "((u64 \<times> BlockHeader list) list \<Rightarrow> (u64 \<times> BlockHeader list) list) \<Rightarrow> u64 \<Rightarrow> u64 \<Rightarrow> string \<Rightarrow>
   string \<Rightarrow> (u64, BlockHeader list) gomap \<Rightarrow> call list" where
  "shard_laggards ord syncTimer tolerance pdServiceKey chain s =
     (let hs = uniqueHeights (ord s); mx = maxHeight hs
      in concat (map (\<lambda>h.
           if tolerance < mx - word_of_int h
           then map (\<lambda>v. Go_checkSync (hd_IP v) pdServiceKey chain (hdr_number v) mx syncTimer)
                  (map_slice s (word_of_int h))
           else []) hs))"

definition checkShardHeight ::
  "((u32 \<times> (u64, BlockHeader list) gomap) list \<Rightarrow> (u32 \<times> (u64, BlockHeader list) gomap) list) \<Rightarrow>
   ((u64 \<times> BlockHeader list) list \<Rightarrow> (u64 \<times> BlockHeader list) list) \<Rightarrow>
   BlockHeaderContainer \<Rightarrow> u64 \<Rightarrow> u64 \<Rightarrow> string \<Rightarrow> string \<Rightarrow> call list" where
  "checkShardHeight ord ord' b syncTimer tolerance pdServiceKey chain =
     concat (map (\<lambda>is. shard_laggards ord' syncTimer tolerance pdServiceKey chain (snd is))
       (ord (fold height_add (bc_Nodes b) [])))"

section \<open>checkSync\<close>

text \<open>\<open>http\<close> is the network after the sleep of \<^verbatim>\<open>syncTimer\<close> seconds.\<close>

definition checkSync ::
  "(V2Event \<Rightarrow> string option) \<Rightarrow> http \<Rightarrow> string \<Rightarrow> string \<Rightarrow> string \<Rightarrow> u64 \<Rightarrow> u64 \<Rightarrow> action list" where
  "checkSync pd http IP pdServiceKey chain blockNumber shardHeight =
     (let (result, _, err) = request http (''http://'' @ IP) (rpc_body BlockHeaderRPC)
      in case err of
           Some _ \<Rightarrow> []
         | None \<Rightarrow>
             (let r = Unmarshal (dec_result dec_BlockHeaderReply) result zero_BlockHeaderReply
              in if \<not> blockNumber < bh_BlockNumber r then
                   (let message = Sprintf blockHeightMessage
                          [AStr IP, AInt ''uint64'' (uint (bh_BlockNumber r)),
                           AInt ''uint64'' (uint shardHeight), AInt ''uint32'' (uint (bh_ShardID r)), AStr chain];
                        incidentKey = Sprintf ''%s out of sync! - %s'' [AStr IP, AStr chain]
                    in raise_alert pd ''[checkSync] Sent PagerDuty alert! '' pdServiceKey incidentKey
                         chain message)
                 else []))"

section \<open>Overdue\<close>

text \<open>
  The test on the truncated floating-point seconds is the test on whole seconds, for gaps below
  \<open>2 ^ 22\<close> seconds; an instant in the future is never overdue.
\<close>

lemma overdue_exact:
  assumes "ts \<le> now" and "now - ts < 2 ^ 22 * 1000000000"
  shows "overdue now ts warning \<longleftrightarrow> uint warning < (now - ts) div 1000000000"
proof -
  let ?d = "now - ts"
  have d: "0 \<le> ?d" "?d < 2 ^ 63" "time_Sub now ts = ?d"
    using assms time_Sub_exact [of now ts] by (simp_all add: in_int64_def)
  have s: "?d div 1000000000 < 2 ^ 22" "0 \<le> ?d div 1000000000"
    using assms by (simp_all add: div_less_iff_less_mult pos_imp_zdiv_nonneg_iff)
  have t: "trunc (duration_Seconds ?d) = ?d div 1000000000"
    by (rule trunc_seconds(3) [OF d(1,2) s(1)])
  have "warning < u64_of_float (duration_Seconds ?d) \<longleftrightarrow> uint warning < ?d div 1000000000"
    using seconds_word [OF d(1) assms(2)] by (simp add: word_less_def)
  moreover have "0 < duration_Seconds ?d" if "uint warning < ?d div 1000000000"
  proof (rule ccontr)
    assume "\<not> 0 < duration_Seconds ?d"
    then have "trunc (duration_Seconds ?d) \<le> 0"
      by (cases "duration_Seconds ?d = 0") (simp_all add: trunc_def)
    moreover have "0 \<le> uint warning" by simp
    ultimately show False using t that by linarith
  qed
  ultimately show ?thesis by (auto simp: overdue_def d(3) Let_def)
qed

section \<open>The loop over the shards\<close>

lemma consensus_key_eq: "consensus_key chain shard = ''Shard '' @ shard @ '' consensus stuck! - '' @ chain"
  by (simp add: consensus_key_def fmt_verb_def)

definition recorded_height :: "consensus_state \<Rightarrow> string \<Rightarrow> u64 option" where
  "recorded_height st k = map_option lb_Height (map_of (cs_lastShardData st) k)"

definition shard_view :: "consensus_state \<Rightarrow> string \<Rightarrow> lastSuccessfulBlock option \<times> bool option" where
  "shard_view st k = (map_of (cs_lastShardData st) k, map_of (cs_consensusStatus st) k)"

interpretation cm: stall_view "consensus_shard pd warning key chain" ob_shard ob_height
  recorded_height "consensus_key chain" shard_view
  for pd warning key chain
  by unfold_locales
     (auto simp: consensus_shard_def recorded_height_def shard_view_def map_of_update_eq
        consensus_key_eq Let_def split: option.splits if_splits)

lemma consensus_loop_watch:
  assumes "\<forall>kv \<in> set kvs. \<exists>ob. read_entry now kv = Inr ob"
  shows "consensus_loop pd warning tolerance poolSize key chain shardMap now kvs st =
    (let obs = map (\<lambda>kv. projr (read_entry now kv)) kvs;
         (st', acts) = watch (consensus_shard pd warning key chain) obs st
     in Inr (st', acts, concat (map (\<lambda>ob. if ob_shard ob = ''0''
          then [Go_beaconSyncMonitor (ob_height ob) warning tolerance poolSize key chain shardMap]
          else []) obs)))"
  using assms
proof (induction kvs arbitrary: st)
  case (Cons kv kvs)
  then obtain ob where ob: "read_entry now kv = Inr ob" by auto
  from Cons ob show ?case
    by (simp add: case_prod_beta Let_def)
qed simp

text \<open>What a tick observes, one observation per shard among the headers.\<close>

definition observations ::
  "linq \<Rightarrow> ((string \<times> ival) list \<Rightarrow> (string \<times> ival) list) \<Rightarrow> int \<Rightarrow> BlockHeader list \<Rightarrow> shard_obs list"
where
  "observations lq ord now hs =
     map (\<lambda>kv. projr (read_entry now kv)) (ord (blockHeaderSummary lq hs True []))"

text \<open>
  An observation is right about its shard: the highest block number among the headers of the
  shard, and a header of that height.
\<close>

definition observes :: "BlockHeader list \<Rightarrow> shard_obs \<Rightarrow> bool" where
  "observes hs ob \<longleftrightarrow>
     (let group = filter (\<lambda>h. FormatUint (hdr_shard h) = ob_shard ob) hs
      in ob_header ob \<in> set group \<and> ob_height ob = hdr_number (ob_header ob) \<and>
         (\<forall>h \<in> set group. hdr_number h \<le> ob_height ob))"

lemma read_entry_ok:
  assumes lq: "linq_laws lq" and e: "(k, v) \<in> set (blockHeaderSummary lq hs True [])"
  shows "\<exists>ob. read_entry now (k, v) = Inr ob \<and> ob_now ob = now \<and> ob_shard ob = k \<and> observes hs ob"
proof -
  have "k \<in> (\<lambda>h. FormatUint (hdr_shard h)) ` set hs"
    using e blockHeaderSummary_keys [OF lq, of hs True "[]"] by force
  then obtain h where h: "h \<in> set hs" "k = FormatUint (hdr_shard h)" by auto
  obtain en where en: "map_of (blockHeaderSummary lq hs True []) k = Some (VAny en)"
    "summarises en (filter (\<lambda>x. hdr_shard x = hdr_shard h) hs)"
    using blockHeaderSummary_entry [OF lq h(1) refl, of "[]"] h(2) by blast
  have "v = VAny en"
    using e en(1) gomap_blockHeaderSummary [of "[]" lq hs True] by (simp add: gomap_def)
  let ?g = "filter (\<lambda>x. hdr_shard x = hdr_shard h) hs"
  obtain l where l: "iget en ''latest-block'' = VHeader l" "l \<in> set ?g"
    "hdr_number l = Max (hdr_number ` set ?g)" "iget en blockMax = VUint (Max (hdr_number ` set ?g))"
    using en(2) by (auto simp: summarises_def)
  have "\<forall>x \<in> set ?g. hdr_number x \<le> hdr_number l" using l(3) by simp
  then show ?thesis
    using l \<open>v = VAny en\<close> h(2) by (auto simp: read_entry_def assertions observes_def Let_def)
qed

lemma observations_props:
  assumes lq: "linq_laws lq" and ord: "range_order ord"
  shows "\<forall>kv \<in> set (ord (blockHeaderSummary lq hs True [])). \<exists>ob. read_entry now kv = Inr ob"
    and "map ob_shard (observations lq ord now hs) = keys (ord (blockHeaderSummary lq hs True []))"
    and "distinct (map ob_shard (observations lq ord now hs))"
    and "set (map ob_shard (observations lq ord now hs)) = (\<lambda>h. FormatUint (hdr_shard h)) ` set hs"
    and "\<forall>ob \<in> set (observations lq ord now hs). ob_now ob = now \<and> observes hs ob"
proof -
  let ?d = "blockHeaderSummary lq hs True []"
  have entry: "\<exists>ob. read_entry now kv = Inr ob \<and> ob_now ob = now \<and> ob_shard ob = fst kv \<and> observes hs ob"
    if "kv \<in> set (ord ?d)" for kv
    using read_entry_ok [OF lq, of "fst kv" "snd kv" hs now] that
    by (simp add: range_order_set [OF ord])
  then show "\<forall>kv \<in> set (ord ?d). \<exists>ob. read_entry now kv = Inr ob" by blast
  show ks: "map ob_shard (observations lq ord now hs) = keys (ord ?d)"
    unfolding observations_def map_map
    by (rule map_cong [OF refl]) (use entry in fastforce)
  have "gomap (ord ?d)" using gomap_blockHeaderSummary [of "[]"] ord by simp
  then show "distinct (map ob_shard (observations lq ord now hs))"
    unfolding ks gomap_def .
  show "set (map ob_shard (observations lq ord now hs)) = (\<lambda>h. FormatUint (hdr_shard h)) ` set hs"
    unfolding ks using blockHeaderSummary_keys [OF lq, of hs True "[]"]
    by (simp add: range_order_set [OF ord])
  show "\<forall>ob \<in> set (observations lq ord now hs). ob_now ob = now \<and> observes hs ob"
    using entry by (fastforce simp: observations_def)
qed

lemma consensus_nodes:
  "bc_Nodes (fold (consensus_reply shardMap m) cs data) = bc_Nodes data @ map header_of (answered_ok cs)"
  by (induction cs arbitrary: data)
     (auto simp: consensus_reply_def answered_ok_def split: option.splits)

lemma consensus_tick_eq:
  assumes "linq_laws lq" and "range_order ord"
  shows "consensus_tick lq pd ord warning tolerance poolSize key chain shardMap now cs (m, st) =
    (let hs = map header_of (answered_ok cs); obs = observations lq ord now hs;
         (st', acts) = watch (consensus_shard pd warning key chain) obs st
     in Inr (if m_inUse m then None else Some (m\<lparr>m_consensusProgress := cs_consensusStatus st'\<rparr>),
          st', acts,
          Go_checkShardHeight (zero_BlockHeaders\<lparr>bc_Nodes := hs\<rparr>) warning tolerance key chain #
          concat (map (\<lambda>ob. if ob_shard ob = ''0''
            then [Go_beaconSyncMonitor (ob_height ob) warning tolerance poolSize key chain shardMap]
            else []) obs)))"
  using consensus_loop_watch [OF observations_props(1) [OF assms]]
  by (cases m) (simp add: consensus_tick_def consensus_nodes zero_BlockHeaders_def observations_def
      case_prod_beta Let_def unlock_def lock_def)

section \<open>The verdict on one shard\<close>

definition stuck :: "u64 \<Rightarrow> consensus_state \<Rightarrow> shard_obs \<Rightarrow> bool" where
  "stuck warning st ob \<longleftrightarrow>
     (case map_of (cs_lastShardData st) (ob_shard ob) of
        None \<Rightarrow> False
      | Some lastBlock \<Rightarrow>
          ob_height ob \<le> lb_Height lastBlock \<and> overdue (ob_now ob) (lb_TS lastBlock) warning)"

lemma shard_verdict:
  "topics (snd (consensus_shard pd warning key chain ob st)) =
     (if stuck warning st ob then [consensus_key chain (ob_shard ob)] else [])"
  "shard_view (fst (consensus_shard pd warning key chain ob st)) (ob_shard ob) =
     (if stuck warning st ob then (map_of (cs_lastShardData st) (ob_shard ob), Some False)
      else (Some \<lparr>lb_Height = ob_height ob, lb_TS = time_Unix (bh_UnixTime (hd_Payload (ob_header ob)))\<rparr>,
            Some True))"
  by (auto simp: consensus_shard_def shard_view_def stuck_def map_of_update_eq Let_def split: option.splits)

lemma inj_consensus_key: "inj (consensus_key chain)"
  by (auto simp: consensus_key_eq intro: injI)

lemma tick_verdicts:
  fixes now :: int and hs :: "BlockHeader list"
  assumes "linq_laws lq" and "range_order ord"
  defines "obs \<equiv> observations lq ord now hs"
  shows "topics (snd (watch (consensus_shard pd warning key chain) obs st)) =
      map (\<lambda>ob. consensus_key chain (ob_shard ob)) (filter (stuck warning st) obs)"
    and "distinct (topics (snd (watch (consensus_shard pd warning key chain) obs st)))"
    and "ob \<in> set obs \<Longrightarrow>
      shard_view (fst (watch (consensus_shard pd warning key chain) obs st)) (ob_shard ob) =
      (if stuck warning st ob then (map_of (cs_lastShardData st) (ob_shard ob), Some False)
       else (Some \<lparr>lb_Height = ob_height ob, lb_TS = time_Unix (bh_UnixTime (hd_Payload (ob_header ob)))\<rparr>,
             Some True))"
proof -
  note d = observations_props(3) [OF assms(1,2), of now hs, folded obs_def]
  note w = cm.watch_distinct [OF d, of pd warning key chain st]
  show t: "topics (snd (watch (consensus_shard pd warning key chain) obs st)) =
      map (\<lambda>ob. consensus_key chain (ob_shard ob)) (filter (stuck warning st) obs)"
    using w [THEN conjunct1] by (simp add: shard_verdict concat_singletons)
  have "distinct (map (consensus_key chain) (map ob_shard (filter (stuck warning st) obs)))"
    using d inj_consensus_key [of chain] by (simp add: distinct_map_filter distinct_map inj_on_def inj_def)
  then show "distinct (topics (snd (watch (consensus_shard pd warning key chain) obs st)))"
    unfolding t by (simp add: o_def)
  show "ob \<in> set obs \<Longrightarrow>
      shard_view (fst (watch (consensus_shard pd warning key chain) obs st)) (ob_shard ob) =
      (if stuck warning st ob then (map_of (cs_lastShardData st) (ob_shard ob), Some False)
       else (Some \<lparr>lb_Height = ob_height ob, lb_TS = time_Unix (bh_UnixTime (hd_Payload (ob_header ob)))\<rparr>,
             Some True))"
    using w [THEN conjunct2] by (simp add: shard_verdict)
qed

section \<open>Lagging nodes\<close>

definition hget :: "(u32, (u64, BlockHeader list) gomap) gomap \<Rightarrow> u32 \<Rightarrow> (u64, BlockHeader list) gomap" where
  "hget hm k = (case map_of hm k of None \<Rightarrow> [] | Some bs \<Rightarrow> bs)"

lemma hget_add:
  "hget (height_add v hm) k =
     (if hdr_shard v = k then map_append (hdr_number v) v (hget hm k) else hget hm k)"
  by (simp add: hget_def height_add_def map_of_update_eq)

lemma hget_fold:
  "hget (fold height_add nodes hm) k =
     fold (\<lambda>v. map_append (hdr_number v) v) (filter (\<lambda>v. hdr_shard v = k) nodes) (hget hm k)"
  by (induction nodes arbitrary: hm) (simp_all add: hget_add)

lemma height_keys:
  "fst ` set (fold height_add nodes hm) = fst ` set hm \<union> hdr_shard ` set nodes"
  by (induction nodes arbitrary: hm) (auto simp: height_add_def dom_update)

lemma gomap_height: "gomap hm \<Longrightarrow> gomap (fold height_add nodes hm)"
  by (induction nodes arbitrary: hm) (simp_all add: height_add_def)

text \<open>The entry of a shard holds its headers under their block numbers.\<close>

lemma height_entry:
  assumes "(k, s) \<in> set (fold height_add nodes [])"
  defines "grp \<equiv> filter (\<lambda>v. hdr_shard v = k) nodes"
  shows "gomap s" and "fst ` set s = hdr_number ` set grp"
    and "map_slice s n = filter (\<lambda>v. hdr_number v = n) grp"
proof -
  have "map_of (fold height_add nodes []) k = Some s"
    using assms(1) gomap_height [of "[]" nodes] by (simp add: gomap_def)
  then have s: "s = fold (\<lambda>v. map_append (hdr_number v) v) grp []"
    using hget_fold [of nodes "[]" k] by (simp add: hget_def grp_def)
  show "gomap s" unfolding s by (rule gomap_fold_append) simp
  show "fst ` set s = hdr_number ` set grp" unfolding s by (simp add: keys_fold_append)
  show "map_slice s n = filter (\<lambda>v. hdr_number v = n) grp"
    unfolding s by (simp add: map_slice_fold)
qed

lemma maxHeight_words: "maxHeight (map sint (ws :: u64 list)) = fold max ws 0"
proof -
  have "fold (\<lambda>h m. if m < word_of_int h then word_of_int h else m) (map sint ws) a = fold max ws a"
    for a :: u64
    by (induction ws arbitrary: a) (auto simp: max_def not_less intro: arg_cong)
  then show ?thesis by (simp add: maxHeight_def)
qed

lemma maxHeight_Max:
  assumes "ws \<noteq> []"
  shows "maxHeight (map sint (ws :: u64 list)) = Max (set ws)"
proof -
  have "fold max ws 0 = Max (insert 0 (set ws))"
    using Max.set_eq_fold [of 0 ws] by simp
  also have "\<dots> = Max (set ws)"
    using assms by (simp add: max_def)
  finally show ?thesis by (simp add: maxHeight_words)
qed

text \<open>The highest block number among the headers of a shard.\<close>

definition top_height :: "BlockHeader list \<Rightarrow> u32 \<Rightarrow> u64" where
  "top_height nodes k = Max (hdr_number ` {v \<in> set nodes. hdr_shard v = k})"

definition sync_call :: "u64 \<Rightarrow> string \<Rightarrow> string \<Rightarrow> BlockHeader list \<Rightarrow> BlockHeader \<Rightarrow> call" where
  "sync_call syncTimer key chain nodes v =
     Go_checkSync (hd_IP v) key chain (hdr_number v) (top_height nodes (hdr_shard v)) syncTimer"

lemma filter_key_group:
  "filter (\<lambda>v. g v = n) (filter (\<lambda>v. P (g v)) xs) = (if P n then filter (\<lambda>v. g v = n) xs else [])"
  by (induction xs) auto

lemma shard_laggards_mset:
  assumes e: "(k, s) \<in> set (fold height_add nodes [])" and ord: "range_order ord"
  shows "mset (shard_laggards ord syncTimer tolerance key chain s) =
    mset (map (sync_call syncTimer key chain nodes)
      (filter (\<lambda>v. hdr_shard v = k) (filter (\<lambda>v. tolerance < top_height nodes (hdr_shard v) - hdr_number v) nodes)))"
proof -
  let ?grp = "filter (\<lambda>v. hdr_shard v = k) nodes"
  let ?ks = "keys (ord s)"
  note en = height_entry [OF e]
  have ks: "set ?ks = hdr_number ` set ?grp" "distinct ?ks"
    using en(1,2) range_order_set [OF ord, of s] gomap_range [OF ord, of s]
    by (simp_all add: gomap_def)
  have "k \<in> hdr_shard ` set nodes"
    using e height_keys [of nodes "[]"] by force
  then have "set ?ks \<noteq> {}" unfolding ks(1) by auto
  then have ne: "?ks \<noteq> []" by auto
  have mx: "maxHeight (map sint ?ks) = top_height nodes k"
    using maxHeight_Max [OF ne] ks(1) by (simp only: top_height_def set_filter)
  have hs: "uniqueHeights (ord s) = map sint ?ks" by (simp add: uniqueHeights_def)
  let ?lag = "filter (\<lambda>v. tolerance < top_height nodes k - hdr_number v) ?grp"
  have "shard_laggards ord syncTimer tolerance key chain s =
      concat (map (\<lambda>n. map (sync_call syncTimer key chain nodes) (filter (\<lambda>v. hdr_number v = n) ?lag)) ?ks)"
    unfolding shard_laggards_def Let_def hs mx unfolding map_map
    by (intro arg_cong [of _ _ concat] map_cong refl)
       (simp add: en(3) filter_key_group [of hdr_number _ "\<lambda>n. tolerance < top_height nodes k - n"]
          sync_call_def del: filter_filter)
  also have "\<dots> = map (sync_call syncTimer key chain nodes)
      (concat (map (\<lambda>n. filter (\<lambda>v. hdr_number v = n) ?lag) ?ks))"
    by (simp add: map_concat o_def)
  moreover have sub: "hdr_number ` set ?lag \<subseteq> set ?ks"
    unfolding ks(1) by auto
  ultimately have "mset (shard_laggards ord syncTimer tolerance key chain s) =
      mset (map (sync_call syncTimer key chain nodes) ?lag)"
    using mset_groups [OF ks(2) sub] by (simp only: mset_map)
  also have "filter (\<lambda>v. tolerance < top_height nodes k - hdr_number v) ?grp =
      filter (\<lambda>v. hdr_shard v = k) (filter (\<lambda>v. tolerance < top_height nodes (hdr_shard v) - hdr_number v) nodes)"
    unfolding filter_filter by (rule filter_cong) auto
  finally show ?thesis .
qed

lemma checkShardHeight_mset:
  assumes "range_order ord" and "range_order ord'"
  shows "mset (checkShardHeight ord ord' b syncTimer tolerance key chain) =
    mset (map (sync_call syncTimer key chain (bc_Nodes b))
      (filter (\<lambda>v. tolerance < top_height (bc_Nodes b) (hdr_shard v) - hdr_number v) (bc_Nodes b)))"
proof -
  let ?hm = "fold height_add (bc_Nodes b) []"
  let ?lag = "filter (\<lambda>v. tolerance < top_height (bc_Nodes b) (hdr_shard v) - hdr_number v) (bc_Nodes b)"
  let ?f = "sync_call syncTimer key chain (bc_Nodes b)"
  have "mset (concat (map (\<lambda>is. shard_laggards ord' syncTimer tolerance key chain (snd is)) es)) =
      mset (map ?f (concat (map (\<lambda>k. filter (\<lambda>v. hdr_shard v = k) ?lag) (keys es))))"
    if "set es \<subseteq> set ?hm" for es
    using that
  proof (induction es)
    case (Cons e es)
    obtain k s where e: "e = (k, s)" by fastforce
    then have "(k, s) \<in> set ?hm" using Cons.prems by simp
    from shard_laggards_mset [OF this assms(2), of syncTimer tolerance key chain] Cons
    show ?case by (simp add: e)
  qed simp
  from this [of "ord ?hm"] have "mset (checkShardHeight ord ord' b syncTimer tolerance key chain) =
      mset (map ?f (concat (map (\<lambda>k. filter (\<lambda>v. hdr_shard v = k) ?lag) (keys (ord ?hm)))))"
    by (simp add: checkShardHeight_def range_order_set [OF assms(1)])
  moreover have "distinct (keys (ord ?hm))"
    using gomap_range [OF assms(1), of ?hm] gomap_height [of "[]"] by (metis gomap_Nil gomap_def)
  moreover have "hdr_shard ` set ?lag \<subseteq> set (keys (ord ?hm))"
    using height_keys [of "bc_Nodes b" "[]"] by (auto simp: range_order_set [OF assms(1)])
  ultimately show ?thesis
    using mset_groups [of "keys (ord ?hm)" hdr_shard ?lag] by (simp only: mset_map)
qed

section \<open>Several ticks\<close>

fun consensus_run ::
  "linq \<Rightarrow> (V2Event \<Rightarrow> string option) \<Rightarrow> ((string \<times> ival) list \<Rightarrow> (string \<times> ival) list) \<Rightarrow>
   u64 \<Rightarrow> u64 \<Rightarrow> int \<Rightarrow> string \<Rightarrow> string \<Rightarrow> shardMap \<Rightarrow> (int \<times> reply list) list \<Rightarrow>
   monitor \<times> consensus_state \<Rightarrow> (monitor option \<times> consensus_state \<times> action list) result" where
  "consensus_run lq pd ord warning tolerance poolSize key chain shardMap [] (m, st) =
     Inr (Some m, st, [])"
| "consensus_run lq pd ord warning tolerance poolSize key chain shardMap ((now, cs) # ticks) (m, st) =
     (case consensus_tick lq pd ord warning tolerance poolSize key chain shardMap now cs (m, st) of
        Inl p \<Rightarrow> Inl p
      | Inr (None, st, acts, calls) \<Rightarrow> Inr (None, st, acts)
      | Inr (Some m, st, acts, calls) \<Rightarrow>
          (case consensus_run lq pd ord warning tolerance poolSize key chain shardMap ticks (m, st) of
             Inl p \<Rightarrow> Inl p
           | Inr (m', st', acts') \<Rightarrow> Inr (m', st', acts @ acts')))"

definition tick_observations ::
  "linq \<Rightarrow> ((string \<times> ival) list \<Rightarrow> (string \<times> ival) list) \<Rightarrow> int \<times> reply list \<Rightarrow> shard_obs list" where
  "tick_observations lq ord t = observations lq ord (fst t) (map header_of (answered_ok (snd t)))"

lemma consensus_run_watch:
  assumes "linq_laws lq" and "range_order ord" and "\<not> m_inUse m"
  shows "\<exists>m'. consensus_run lq pd ord warning tolerance poolSize key chain shardMap ticks (m, st) =
    (let (st', acts) = watch (consensus_shard pd warning key chain)
           (concat (map (tick_observations lq ord) ticks)) st
     in Inr (Some m', st', acts))"
  using assms(3)
proof (induction ticks arbitrary: m st)
  case (Cons t ticks)
  obtain now cs where t: "t = (now, cs)" by fastforce
  obtain st1 acts1 where w: "watch (consensus_shard pd warning key chain)
      (observations lq ord now (map header_of (answered_ok cs))) st = (st1, acts1)" by fastforce
  let ?m = "m\<lparr>m_consensusProgress := cs_consensusStatus st1\<rparr>"
  obtain m' where "consensus_run lq pd ord warning tolerance poolSize key chain shardMap ticks (?m, st1) =
    (let (st', acts) = watch (consensus_shard pd warning key chain)
           (concat (map (tick_observations lq ord) ticks)) st1
     in Inr (Some m', st', acts))"
    using Cons.IH [of ?m st1] Cons.prems by auto
  moreover have "tick_observations lq ord (now, cs) =
      observations lq ord now (map header_of (answered_ok cs))"
    by (simp add: tick_observations_def)
  ultimately show ?case
    using w Cons.prems
    by (simp add: t consensus_tick_eq [OF assms(1,2)] watch_append case_prod_beta Let_def)
qed simp

section \<open>Properties\<close>

text \<open>
  A network with one machine of shard 0 that stays at block 7 of time 100, and the state after
  that block was seen, for the witnesses.
\<close>

definition stalled_reply :: "reply" where
  "stalled_reply =
     \<lparr>rp_address = ''10.0.0.1:9500'', rp_rpc = BlockHeaderRPC, rp_rpcPayload = [],
      rp_rpcResult = map (\<lambda>c. if c = CHR ''~'' then CHR 0x22 else c)
        ''{~result~:{~blockNumber~:7,~shardID~:0,~unixtime~:100}}'', rp_oops = None\<rparr>"

definition stalled_state :: consensus_state where
  "stalled_state =
     \<lparr>cs_lastShardData = [(''0'', \<lparr>lb_Height = 7, lb_TS = 100 * 1000000000\<rparr>)],
      cs_consensusStatus = [(''0'', True)]\<rparr>"

lemma stalled_header:
  "map header_of (answered_ok [stalled_reply]) =
     [\<lparr>hd_Payload = zero_BlockHeaderReply\<lparr>bh_BlockNumber := 7, bh_UnixTime := 100\<rparr>, hd_IP = ''10.0.0.1:9500''\<rparr>]"
  by code_simp

text \<open>
  (C16) A tick of the consensus monitor never fails and reaches the right verdict on every
  shard, whatever the order of the shards: a shard that answered is judged by its highest block;
  if the shard is stuck its status becomes false, the remembered block stays and exactly one
  alert names it; otherwise its block is remembered with the time in the block's header and its
  status becomes true. A shard without an answer keeps its record, and the new status is what
  the reports read.
\<close>

theorem consensus_tick_verdicts:
  assumes "linq_laws lq" and "range_order ord" and "\<not> m_inUse m"
  shows "\<exists>m' st' acts calls.
    consensus_tick lq pd ord warning tolerance poolSize key chain shardMap now cs (m, st) =
      Inr (Some m', st', acts, calls) \<and>
    m_consensusProgress m' = cs_consensusStatus st' \<and> distinct (topics acts) \<and>
    (\<forall>k. k \<notin> (\<lambda>h. FormatUint (hdr_shard h)) ` set (map header_of (answered_ok cs)) \<longrightarrow>
      shard_view st' k = shard_view st k \<and> consensus_key chain k \<notin> set (topics acts)) \<and>
    (\<forall>k \<in> (\<lambda>h. FormatUint (hdr_shard h)) ` set (map header_of (answered_ok cs)). \<exists>ob.
      observes (map header_of (answered_ok cs)) ob \<and> ob_shard ob = k \<and> ob_now ob = now \<and>
      (consensus_key chain k \<in> set (topics acts) \<longleftrightarrow> stuck warning st ob) \<and>
      shard_view st' k =
        (if stuck warning st ob then (map_of (cs_lastShardData st) k, Some False)
         else (Some \<lparr>lb_Height = ob_height ob, lb_TS = time_Unix (bh_UnixTime (hd_Payload (ob_header ob)))\<rparr>,
               Some True)))"
proof -
  let ?hs = "map header_of (answered_ok cs)"
  let ?obs = "observations lq ord now ?hs"
  obtain st' acts where w: "watch (consensus_shard pd warning key chain) ?obs st = (st', acts)" by fastforce
  note v = tick_verdicts [OF assms(1,2), where pd = pd and warning = warning and key = key and chain = chain
    and now = now and hs = ?hs and st = st, unfolded w fst_conv snd_conv]
  note o = observations_props [OF assms(1,2), where now = now and hs = ?hs]
  let ?m = "m\<lparr>m_consensusProgress := cs_consensusStatus st'\<rparr>"
  obtain calls where t: "consensus_tick lq pd ord warning tolerance poolSize key chain shardMap now cs (m, st) =
      Inr (Some ?m, st', acts, calls)"
    using consensus_tick_eq [OF assms(1,2), of pd warning tolerance poolSize key chain shardMap now cs m st]
      w assms(3) by (simp add: Let_def)
  have out: "shard_view st' k = shard_view st k \<and> consensus_key chain k \<notin> set (topics acts)"
    if "k \<notin> (\<lambda>h. FormatUint (hdr_shard h)) ` set ?hs" for k
  proof -
    have "k \<notin> ob_shard ` set ?obs" using that o(4) by simp
    then show ?thesis
      using cm.view_keep [of k ?obs pd warning key chain st]
        cm.unobserved [of k ?obs pd warning key chain st] w by simp
  qed
  have inn: "\<exists>ob. observes ?hs ob \<and> ob_shard ob = k \<and> ob_now ob = now \<and>
      (consensus_key chain k \<in> set (topics acts) \<longleftrightarrow> stuck warning st ob) \<and>
      shard_view st' k =
        (if stuck warning st ob then (map_of (cs_lastShardData st) k, Some False)
         else (Some \<lparr>lb_Height = ob_height ob, lb_TS = time_Unix (bh_UnixTime (hd_Payload (ob_header ob)))\<rparr>,
               Some True))"
    if "k \<in> (\<lambda>h. FormatUint (hdr_shard h)) ` set ?hs" for k
  proof -
    have "k \<in> ob_shard ` set ?obs" using that o(4) by simp
    then obtain ob where ob: "ob \<in> set ?obs" "k = ob_shard ob" by auto
    have "consensus_key chain k \<in> set (topics acts) \<longleftrightarrow> stuck warning st ob"
      using v(1) ob o(3) by (auto simp: inj_eq [OF inj_consensus_key] distinct_map dest: inj_onD)
    then show ?thesis using v(3) [OF ob(1)] o(5) ob by (intro exI [of _ ob]) simp
  qed
  show ?thesis
    by (intro exI conjI, rule t) (use v(2) out inn in auto)
qed

theorem consensus_tick_verdicts_witness:
  "\<exists>m' st' acts calls. consensus_tick linq_ref (\<lambda>_. None) (\<lambda>xs. xs) 70 1000 4 ''key'' ''testnet''
      [(''10.0.0.1:9500'', 0)] (200 * 1000000000) [stalled_reply] (new_monitor ''testnet'', stalled_state) =
      Inr (Some m', st', acts, calls) \<and> m_consensusProgress m' = cs_consensusStatus st'"
  using consensus_tick_verdicts [OF linq_ref_laws range_order_id, of "new_monitor ''testnet''" "\<lambda>_. None" 70 1000 4
      "''key''" "''testnet''" "[(''10.0.0.1:9500'', 0)]" "200 * 1000000000" "[stalled_reply]" stalled_state]
  by (fastforce simp: new_monitor_def)

text \<open>
  (C17) A stalled shard is reported exactly when it is due: if no header of the shard is above
  the remembered height, the tick alerts about it exactly if more whole seconds than the warning
  threshold have passed since the remembered block (gaps below \<open>2 ^ 22\<close> seconds, for which the
  floating-point seconds are exact).
\<close>

theorem consensus_stall_reported:
  assumes "linq_laws lq" and "range_order ord" and "\<not> m_inUse m"
    and "map_of (cs_lastShardData st) k = Some \<lparr>lb_Height = h, lb_TS = ts\<rparr>"
    and "k \<in> (\<lambda>x. FormatUint (hdr_shard x)) ` set (map header_of (answered_ok cs))"
    and "\<forall>x \<in> set (map header_of (answered_ok cs)). FormatUint (hdr_shard x) = k \<longrightarrow> hdr_number x \<le> h"
    and "ts \<le> now" and "now - ts < 2 ^ 22 * 1000000000"
  shows "\<exists>m' st' acts calls.
    consensus_tick lq pd ord warning tolerance poolSize key chain shardMap now cs (m, st) =
      Inr (Some m', st', acts, calls) \<and>
    (consensus_key chain k \<in> set (topics acts) \<longleftrightarrow> uint warning < (now - ts) div 1000000000) \<and>
    map_of (m_consensusProgress m') k = Some (\<not> uint warning < (now - ts) div 1000000000)"
proof -
  let ?hs = "map header_of (answered_ok cs)"
  let ?obs = "observations lq ord now ?hs"
  obtain st' acts where w: "watch (consensus_shard pd warning key chain) ?obs st = (st', acts)" by fastforce
  note v = tick_verdicts [OF assms(1,2), where pd = pd and warning = warning and key = key and chain = chain
    and now = now and hs = ?hs and st = st, unfolded w fst_conv snd_conv]
  note o = observations_props [OF assms(1,2), where now = now and hs = ?hs]
  have "k \<in> ob_shard ` set ?obs" using assms(5) o(4) by simp
  then obtain ob where ob: "ob \<in> set ?obs" "k = ob_shard ob" by auto
  have "observes ?hs ob" "ob_now ob = now" using o(5) ob by auto
  then have "ob_height ob \<le> h" using assms(6) ob(2) by (auto simp: observes_def Let_def)
  then have st: "stuck warning st ob \<longleftrightarrow> uint warning < (now - ts) div 1000000000"
    using assms(4) ob(2) overdue_exact [OF assms(7,8)] \<open>ob_now ob = now\<close> by (simp add: stuck_def)
  have t: "consensus_key chain k \<in> set (topics acts) \<longleftrightarrow> stuck warning st ob"
    using v(1) ob o(3) by (auto simp: inj_eq [OF inj_consensus_key] distinct_map dest: inj_onD)
  have "map_of (cs_consensusStatus st') k = Some (\<not> stuck warning st ob)"
    using v(3) [OF ob(1)] ob(2) by (auto simp: shard_view_def split: if_splits)
  then show ?thesis
    using consensus_tick_eq [OF assms(1,2), of pd warning tolerance poolSize key chain shardMap now cs m st]
      w assms(3) t st by (simp add: Let_def)
qed

theorem consensus_stall_reported_witness:
  "\<exists>m' st' acts calls. consensus_tick linq_ref (\<lambda>_. None) (\<lambda>xs. xs) 70 1000 4 ''key'' ''testnet''
      [(''10.0.0.1:9500'', 0)] (200 * 1000000000) [stalled_reply] (new_monitor ''testnet'', stalled_state) =
      Inr (Some m', st', acts, calls) \<and> ''Shard 0 consensus stuck! - testnet'' \<in> set (topics acts)"
proof -
  have k: "consensus_key ''testnet'' ''0'' = ''Shard 0 consensus stuck! - testnet''"
    by (simp add: consensus_key_eq)
  have u: "uint (70 :: u64) = 70" by simp
  have z: "FormatUint (0 :: u32) = ''0''" by code_simp
  have "\<exists>m' st' acts calls. consensus_tick linq_ref (\<lambda>_. None) (\<lambda>xs. xs) 70 1000 4 ''key'' ''testnet''
      [(''10.0.0.1:9500'', 0)] (200 * 1000000000) [stalled_reply] (new_monitor ''testnet'', stalled_state) =
      Inr (Some m', st', acts, calls) \<and>
    (consensus_key ''testnet'' ''0'' \<in> set (topics acts) \<longleftrightarrow>
       uint (70 :: u64) < (200 * 1000000000 - 100 * 1000000000) div 1000000000) \<and>
    map_of (m_consensusProgress m') ''0'' =
       Some (\<not> uint (70 :: u64) < (200 * 1000000000 - 100 * 1000000000) div 1000000000)"
    by (rule consensus_stall_reported [OF linq_ref_laws range_order_id, where h = 7])
       (simp_all add: new_monitor_def stalled_state_def stalled_header zero_BlockHeaderReply_def z)
  then show ?thesis unfolding k u by fastforce
qed

text \<open>
  (C18) No false alarms over any number of ticks: a shard whose highest block grows from one tick
  in which it answers to the next is never reported, whatever the other shards, the times and
  the silent machines are.
\<close>

theorem consensus_progress_never_reported:
  assumes "linq_laws lq" and "range_order ord" and "\<not> m_inUse m"
    and "growing ob_shard ob_height k (recorded_height st k) (concat (map (tick_observations lq ord) ticks))"
  shows "\<exists>m' st' acts.
    consensus_run lq pd ord warning tolerance poolSize key chain shardMap ticks (m, st) =
      Inr (Some m', st', acts) \<and> consensus_key chain k \<notin> set (topics acts)"
  using consensus_run_watch [OF assms(1-3), of pd warning tolerance poolSize key chain shardMap ticks st]
    cm.growing_no_alert [OF assms(4), of chain pd warning key]
  by (cases "watch (consensus_shard pd warning key chain)
        (concat (map (tick_observations lq ord) ticks)) st") auto

theorem consensus_progress_never_reported_witness:
  "\<exists>m' st' acts. consensus_run linq_ref (\<lambda>_. None) (\<lambda>xs. xs) 70 1000 4 ''key'' ''testnet''
      [(''10.0.0.1:9500'', 0)] [(200 * 1000000000, [stalled_reply])] (new_monitor ''testnet'', new_consensus) =
      Inr (Some m', st', acts) \<and> consensus_key ''testnet'' ''0'' \<notin> set (topics acts)"
proof (rule consensus_progress_never_reported [OF linq_ref_laws range_order_id])
  have r: "recorded_height new_consensus ''0'' = None"
    by (simp add: recorded_height_def new_consensus_def)
  have "growing ob_shard ob_height ''0'' None xs" if "length xs \<le> 1" for xs
    using that by (cases xs) auto
  moreover have "length (concat (map (tick_observations linq_ref (\<lambda>xs. xs))
      [(200 * 1000000000, [stalled_reply])])) \<le> 1"
    by (simp add: tick_observations_def observations_def stalled_header blockHeaderSummary_def
        linq_ref_def groupBy_ref_def)
  ultimately show "growing ob_shard ob_height ''0'' (recorded_height new_consensus ''0'')
      (concat (map (tick_observations linq_ref (\<lambda>xs. xs)) [(200 * 1000000000, [stalled_reply])]))"
    unfolding r by blast
qed (simp add: new_monitor_def)

text \<open>
  (C19) The shard height check starts exactly one synchronisation check for every node whose
  block number is more than the tolerance below the highest of its shard, with that node's own
  block number and the shard's height, and none for any other node. The subtraction on 64-bit
  words cannot wrap around, and the detour over signed integers changes nothing.
\<close>

theorem checkShardHeight_laggards:
  assumes "range_order ord" and "range_order ord'"
  shows "mset (checkShardHeight ord ord' b syncTimer tolerance key chain) =
    mset (map (\<lambda>v. Go_checkSync (hd_IP v) key chain (hdr_number v)
             (top_height (bc_Nodes b) (hdr_shard v)) syncTimer)
      (filter (\<lambda>v. uint tolerance + uint (hdr_number v) < uint (top_height (bc_Nodes b) (hdr_shard v)))
        (bc_Nodes b)))"
proof -
  have "filter (\<lambda>v. tolerance < top_height (bc_Nodes b) (hdr_shard v) - hdr_number v) (bc_Nodes b) =
      filter (\<lambda>v. uint tolerance + uint (hdr_number v) < uint (top_height (bc_Nodes b) (hdr_shard v)))
        (bc_Nodes b)"
  proof (rule filter_cong [OF refl])
    fix v assume "v \<in> set (bc_Nodes b)"
    then have "hdr_number v \<le> top_height (bc_Nodes b) (hdr_shard v)" by (simp add: top_height_def)
    then have "uint (top_height (bc_Nodes b) (hdr_shard v) - hdr_number v) =
        uint (top_height (bc_Nodes b) (hdr_shard v)) - uint (hdr_number v)"
      by (simp add: uint_minus_simple_alt word_le_def)
    then show "tolerance < top_height (bc_Nodes b) (hdr_shard v) - hdr_number v \<longleftrightarrow>
        uint tolerance + uint (hdr_number v) < uint (top_height (bc_Nodes b) (hdr_shard v))"
      by (simp add: word_less_def) linarith
  qed
  then show ?thesis
    unfolding checkShardHeight_mset [OF assms] sync_call_def [abs_def] by simp
qed

theorem checkShardHeight_laggards_witness:
  "mset (checkShardHeight rev (\<lambda>xs. xs) (zero_BlockHeaders\<lparr>bc_Nodes :=
      [sample_header ''a'' 0 7 [], sample_header ''b'' 0 5000 []]\<rparr>) 70 1000 ''key'' ''testnet'') =
    {#Go_checkSync ''a'' ''key'' ''testnet'' 7 5000 70#}"
proof -
  let ?hs = "[sample_header ''a'' 0 7 [], sample_header ''b'' 0 5000 []]"
  have "{v \<in> set ?hs. hdr_shard v = 0} = set ?hs"
    by (auto simp: sample_header_def)
  then have "top_height ?hs 0 = 5000"
    unfolding top_height_def by (simp add: sample_header_def)
  then show ?thesis
    unfolding checkShardHeight_laggards [OF range_order_rev range_order_id]
    by (simp add: sample_header_def zero_BlockHeaders_def zero_BlockHeaderReply_def)
qed

text \<open>
  The synchronisation check alerts about a node exactly if the node answers the second
  request with a block number that is not above the one it had before; a node that does not
  answer, or that moved, is not reported.
\<close>

theorem checkSync_alerts_iff:
  "topics (checkSync pd http IP key chain blockNumber shardHeight) =
     (let d = serve http \<lparr>wk_address = IP, wk_rpc = BlockHeaderRPC, wk_body = rpc_body BlockHeaderRPC\<rparr>
      in if rp_oops d = None \<and> hdr_number (header_of d) \<le> blockNumber
         then [IP @ '' out of sync! - '' @ chain] else [])"
  by (simp add: checkSync_def serve_def header_of_def case_prod_beta Let_def not_less fmt_verb_def
      split: option.splits)

text \<open>
  The list of silent machines that the consensus monitor counts is rebuilt from the
  manager's list at every failure, so of all the machines that did not answer it only holds the
  last one (behind the manager's own).
\<close>

theorem consensus_down_last_only:
  assumes "rp_oops d = Some err" and "\<forall>x \<in> set later. rp_oops x = None"
  shows "bc_Down (fold (consensus_reply shardMap m) (earlier @ d # later) zero_BlockHeaders) =
    bc_Down (m_WorkingBlockHeader m) @ [noReply_of shardMap d err]"
proof -
  have "bc_Down (fold (consensus_reply shardMap m) later data) = bc_Down data" for data
    using assms(2) by (induction later arbitrary: data) (auto simp: consensus_reply_def)
  then show ?thesis using assms(1) by (simp add: consensus_reply_def)
qed

theorem consensus_down_last_only_witness:
  "bc_Down (fold (consensus_reply sample_shardMap (new_monitor ''testnet''))
      ([serve (\<lambda>_. Inl ''timeout'') \<lparr>wk_address = ''a'', wk_rpc = ''r'', wk_body = ''b''\<rparr>] @
       serve (\<lambda>_. Inl ''timeout'') \<lparr>wk_address = ''c'', wk_rpc = ''r'', wk_body = ''b''\<rparr> # []) zero_BlockHeaders) =
    [\<lparr>nr_IP = ''c'', nr_FailureReason = ''timeout'', nr_RPCPayload = ''b'', nr_ShardID = 0\<rparr>]"
  by (subst consensus_down_last_only [where err = "''timeout''"])
     (simp_all add: serve_def request_def noReply_of_def new_monitor_def zero_BlockHeaders_def
        shard_of_def sample_shardMap_def)

end
