(* ===== verification/P2p.thy ===== *)
theory P2p
  imports Alerts Summary
begin

text \<open>
  \<^verbatim>\<open>p2p-monitor.go\<close>: the connectivity check that the metadata manager starts after every round.
  The sums of percentages are far below \<open>2 ^ 63\<close> and are not reduced.
\<close>

section \<open>Definitions\<close>

definition connection :: "NodeMetadata \<Rightarrow> int" where
  "connection metadata =
     (let p = nm_P2PConnectivity (md_Payload metadata)
      in if p2p_TotalKnown p \<noteq> 0
         then int_of_float
                (fl (fl (float_of_int (p2p_Connected p) / float_of_int (p2p_TotalKnown p)) * 100))
         else 0)"

definition percent_of :: "NodeMetadata list \<Rightarrow> (int, int list) gomap" where
  "percent_of nodes = fold (\<lambda>d. map_append (uint (meta_shard d)) (connection d)) nodes []"

definition average :: "int list \<Rightarrow> int" where
  "average values = int_of_float (fl (float_of_int (sum_list values) / float_of_int (int (length values))))"

text \<open>The body of the loop over the shards, up to the progress log.\<close>

definition p2p_check ::
  "(V2Event \<Rightarrow> string option) \<Rightarrow> int \<Rightarrow> string \<Rightarrow> string \<Rightarrow> int \<times> int list \<Rightarrow> action list" where
  "p2p_check pd tolerance pdServiceKey chain sv =
     (let (shard, values) = sv
      in if 0 < length values then
           (let avg = average values
            in if avg \<noteq> 0 \<and> avg < tolerance then
                 (let message = Sprintf p2pMessage [AInt ''int'' shard, AInt ''int'' avg];
                      incidentKey = Sprintf ''Shard %d connectivity lower than threshold - %s''
                        [AInt ''int'' shard, AStr chain]
                  in raise_alert pd ''[p2pMonitor] Send PagerDuty alert! '' pdServiceKey incidentKey
                       chain message)
               else [])
         else [])"

definition p2pMonitor ::
  "(V2Event \<Rightarrow> string option) \<Rightarrow> ((int \<times> int list) list \<Rightarrow> (int \<times> int list) list) \<Rightarrow> int \<Rightarrow>
   string \<Rightarrow> string \<Rightarrow> MetadataContainer \<Rightarrow> action list" where
  "p2pMonitor pd ord tolerance pdServiceKey chain data =
     concat (map (p2p_check pd tolerance pdServiceKey chain) (ord (percent_of (mc_Nodes data))))"

section \<open>Lemmas\<close>

lemma percent_of_slice:
  "map_slice (percent_of nodes) k = map connection (filter (\<lambda>d. uint (meta_shard d) = k) nodes)"
  by (simp add: percent_of_def map_slice_fold)

lemma percent_of_keys: "fst ` set (percent_of nodes) = (\<lambda>d. uint (meta_shard d)) ` set nodes"
  by (simp add: percent_of_def keys_fold_append)

lemma gomap_percent_of [simp]: "gomap (percent_of nodes)"
  by (simp add: percent_of_def gomap_fold_append)

text \<open>The values of a shard, as an entry of the map.\<close>

lemma percent_of_entry:
  "(k, vs) \<in> set (percent_of nodes) \<Longrightarrow>
   vs = map connection (filter (\<lambda>d. uint (meta_shard d) = k) nodes) \<and> vs \<noteq> []"
proof -
  assume e: "(k, vs) \<in> set (percent_of nodes)"
  then have "vs = map connection (filter (\<lambda>d. uint (meta_shard d) = k) nodes)"
    using gomap_map_slice [OF gomap_percent_of e] by (simp add: percent_of_slice)
  moreover have "k \<in> (\<lambda>d. uint (meta_shard d)) ` set nodes"
    using e percent_of_keys [of nodes] by force
  ultimately show ?thesis by (auto simp: filter_empty_conv)
qed

lemma int_of_float_range:
  assumes "0 \<le> x" and "x \<le> of_int n" and "n < 2 ^ 63"
  shows "0 \<le> int_of_float x \<and> int_of_float x \<le> n"
proof -
  have "\<lfloor>x\<rfloor> \<le> n" "0 \<le> \<lfloor>x\<rfloor>" using assms by (simp_all add: floor_le_iff)
  then show ?thesis using assms by (auto simp: int_of_float_def trunc_def in_int64_def)
qed

lemma connection_range:
  assumes "0 \<le> p2p_Connected (nm_P2PConnectivity (md_Payload d))"
    and "p2p_Connected (nm_P2PConnectivity (md_Payload d)) \<le> p2p_TotalKnown (nm_P2PConnectivity (md_Payload d))"
  shows "0 \<le> connection d \<and> connection d \<le> 100"
proof (cases "p2p_TotalKnown (nm_P2PConnectivity (md_Payload d)) = 0")
  case False
  define c k where "c = float_of_int (p2p_Connected (nm_P2PConnectivity (md_Payload d)))"
    and "k = float_of_int (p2p_TotalKnown (nm_P2PConnectivity (md_Payload d)))"
  have "0 \<le> c" "c \<le> k"
    using assms by (auto simp: c_def k_def float_of_int_def intro: fl_nonneg fl_mono)
  then have q: "0 \<le> c / k" "c / k \<le> 1"
    by (auto simp: divide_le_eq_1)
  have "fl (c / k) \<le> fl (of_int 1)" by (rule fl_mono) (use q in simp_all)
  then have f: "0 \<le> fl (c / k) * 100" "fl (c / k) * 100 \<le> of_int 100"
    using fl_nonneg [OF q(1)] fl_int [of 1] by simp_all
  have "fl (fl (c / k) * 100) \<le> fl (of_int 100)" by (rule fl_mono [OF f])
  then have "fl (fl (c / k) * 100) \<le> of_int 100" using fl_int [of 100] by simp
  with int_of_float_range [OF fl_nonneg [OF f(1)] this] False show ?thesis
    by (simp add: connection_def c_def k_def Let_def)
qed (simp add: connection_def Let_def)

lemma average_range:
  assumes "vs \<noteq> []" and "\<forall>v \<in> set vs. 0 \<le> v \<and> v \<le> 100" and "int (length vs) \<le> 2 ^ 46"
  shows "0 \<le> average vs \<and> average vs \<le> 100"
proof -
  let ?s = "sum_list vs" and ?n = "int (length vs)"
  have s: "0 \<le> ?s" "?s \<le> 100 * ?n"
    using assms(2) by (induction vs) (auto simp: algebra_simps)
  then have s': "?s \<le> 2 ^ 53" using assms(3) by simp
  have n: "0 < ?n" "?n \<le> 2 ^ 53" using assms(1,3) by simp_all
  have eq: "float_of_int ?s = of_int ?s" "float_of_int ?n = of_int ?n"
    unfolding float_of_int_def using s s' n by (simp_all del: of_int_of_nat_eq)
  have "(of_int ?s :: rat) \<le> of_int (100 * ?n)" using s(2) by (simp only: of_int_le_iff)
  then have q: "0 \<le> (of_int ?s / of_int ?n :: rat)" "(of_int ?s / of_int ?n :: rat) \<le> of_int 100"
    using s n by (simp_all add: divide_le_eq)
  have "fl (of_int ?s / of_int ?n) \<le> fl (of_int 100)" by (rule fl_mono [OF q])
  then have "fl (of_int ?s / of_int ?n) \<le> of_int 100" using fl_int [of 100] by simp
  with int_of_float_range [OF fl_nonneg [OF q(1)] this] show ?thesis
    unfolding average_def eq by simp
qed

lemma average_zero: "\<forall>v \<in> set vs. v = 0 \<Longrightarrow> average vs = 0"
proof -
  assume "\<forall>v \<in> set vs. v = 0"
  then have "sum_list vs = 0" by (induction vs) auto
  then show ?thesis by (simp add: average_def float_of_int_def int_of_float_def trunc_def in_int64_def)
qed

text \<open>The text of the deduplication key tells the shards apart.\<close>

definition p2p_key :: "string \<Rightarrow> int \<Rightarrow> string" where
  "p2p_key chain shard =
     ''Shard '' @ FormatInt shard @ '' connectivity lower than threshold - '' @ chain"

lemma p2p_key_inject [simp]: "p2p_key chain i = p2p_key chain j \<longleftrightarrow> i = j"
  by (simp add: p2p_key_def)

definition shard_average :: "NodeMetadata list \<Rightarrow> int \<Rightarrow> int" where
  "shard_average nodes k = average (map connection (filter (\<lambda>d. uint (meta_shard d) = k) nodes))"

definition low_shards :: "int \<Rightarrow> NodeMetadata list \<Rightarrow> int set" where
  "low_shards tolerance nodes =
     {k \<in> (\<lambda>d. uint (meta_shard d)) ` set nodes.
        shard_average nodes k \<noteq> 0 \<and> shard_average nodes k < tolerance}"

lemma p2p_check_keys:
  assumes "(k, vs) \<in> set (percent_of nodes)"
  shows "map v2_DedupKey (alerts (p2p_check pd tolerance key chain (k, vs))) =
    (if shard_average nodes k \<noteq> 0 \<and> shard_average nodes k < tolerance then [p2p_key chain k] else [])"
  using percent_of_entry [OF assms]
  by (auto simp: p2p_check_def shard_average_def Let_def p2p_key_def fmt_verb_def)

lemma p2p_keys:
  assumes "range_order ord"
  shows "map v2_DedupKey (alerts (p2pMonitor pd ord tolerance key chain data)) =
    map (p2p_key chain) (filter (\<lambda>k. shard_average (mc_Nodes data) k \<noteq> 0 \<and>
      shard_average (mc_Nodes data) k < tolerance) (keys (ord (percent_of (mc_Nodes data)))))"
proof -
  have "map v2_DedupKey (alerts (concat (map (p2p_check pd tolerance key chain) xs))) =
      map (p2p_key chain) (filter (\<lambda>k. shard_average (mc_Nodes data) k \<noteq> 0 \<and>
        shard_average (mc_Nodes data) k < tolerance) (keys xs))"
    if "set xs \<subseteq> set (percent_of (mc_Nodes data))" for xs
    using that
  proof (induction xs)
    case (Cons x xs)
    obtain k vs where x: "x = (k, vs)" by fastforce
    then have "(k, vs) \<in> set (percent_of (mc_Nodes data))" using Cons.prems by simp
    from p2p_check_keys [OF this] show ?case
      using Cons by (simp add: x)
  qed simp
  then show ?thesis
    by (simp add: p2pMonitor_def range_order_set [OF assms])
qed

section \<open>Properties\<close>

definition sample_peers :: "u32 \<Rightarrow> int \<Rightarrow> int \<Rightarrow> NodeMetadata" where
  "sample_peers shard conn known =
     \<lparr>md_Payload = zero_NodeMetadataReply\<lparr>nm_ShardID := shard,
        nm_P2PConnectivity := \<lparr>p2p_Connected = conn, p2p_NotConnected = 0, p2p_TotalKnown = known\<rparr>\<rparr>,
      md_IP = ''10.0.0.1''\<rparr>"



text \<open>
  (C40) A node that reports between no and all of its known peers as connected counts for between
  0 and 100 percent, in spite of the rounding of floating-point division, and so does the
  average of a shard of such nodes.
\<close>

theorem connectivity_bounds:
  assumes "\<forall>d \<in> set nodes. 0 \<le> p2p_Connected (nm_P2PConnectivity (md_Payload d)) \<and>
      p2p_Connected (nm_P2PConnectivity (md_Payload d)) \<le> p2p_TotalKnown (nm_P2PConnectivity (md_Payload d))"
    and "k \<in> (\<lambda>d. uint (meta_shard d)) ` set nodes" and "int (length nodes) \<le> 2 ^ 46"
  shows "(\<forall>d \<in> set nodes. 0 \<le> connection d \<and> connection d \<le> 100) \<and>
    0 \<le> shard_average nodes k \<and> shard_average nodes k \<le> 100"
proof -
  let ?vs = "map connection (filter (\<lambda>d. uint (meta_shard d) = k) nodes)"
  have c: "\<forall>d \<in> set nodes. 0 \<le> connection d \<and> connection d \<le> 100"
    using connection_range assms(1) by blast
  have "?vs \<noteq> []" using assms(2) by (auto simp: filter_empty_conv)
  moreover have "length ?vs \<le> length nodes" by simp
  then have "int (length ?vs) \<le> 2 ^ 46" using assms(3) by linarith
  ultimately have "0 \<le> average ?vs \<and> average ?vs \<le> 100"
    using c by (intro average_range) auto
  with c show ?thesis by (simp add: shard_average_def)
qed

theorem connectivity_bounds_witness:
  "0 \<le> shard_average [sample_peers 0 1 4] 0 \<and> shard_average [sample_peers 0 1 4] 0 \<le> 100"
  using connectivity_bounds [of "[sample_peers 0 1 4]" 0] by (simp add: sample_peers_def)

text \<open>
  A shard none of whose nodes is connected to any peer never raises an alert, whatever the
  threshold is.
\<close>

theorem p2p_silent_when_isolated:
  assumes "range_order ord"
    and "\<forall>d \<in> set (mc_Nodes data). uint (meta_shard d) = k \<longrightarrow> connection d = 0"
  shows "p2p_key chain k \<notin> set (map v2_DedupKey (alerts (p2pMonitor pd ord tolerance key chain data)))"
proof -
  have "shard_average (mc_Nodes data) k = 0"
    unfolding shard_average_def using assms(2) by (intro average_zero) auto
  then show ?thesis unfolding p2p_keys [OF assms(1)] by auto
qed

theorem p2p_silent_when_isolated_witness:
  "p2p_key ''testnet'' 0 \<notin> set (map v2_DedupKey (alerts (p2pMonitor (\<lambda>_. None) rev 33 ''k'' ''testnet''
     (zero_Metadata\<lparr>mc_Nodes := [sample_peers 0 0 40]\<rparr>))))"
proof -
  have "connection (sample_peers 0 0 40) = 0" by code_simp
  then show ?thesis by (intro p2p_silent_when_isolated) simp_all
qed

text \<open>
  The message of a connectivity alert does not show the shard number properly: its format
  has the verb for strings where the code passes an integer.
\<close>

theorem p2p_message_text:
  "Sprintf p2pMessage [AInt ''int'' shard, AInt ''int'' avg] =
     [CHR 0x0A] @ ''Shard: %!s(int='' @ FormatInt shard @ '')'' @ [CHR 0x0A, CHR 0x0A] @
     ''Avg Connectivity: '' @ FormatInt avg @ [CHR 0x0A]"
  by (simp add: p2pMessage_def fmt_verb_def)

end
