(* ===== verification/CrossLink.thy ===== *)
theory CrossLink
  imports Stall Manager
begin

text \<open>
  \<^verbatim>\<open>crosslink-monitor.go\<close>: one tick of \<^verbatim>\<open>crossLinkMonitor\<close>. The monitor first asks the machines
  of shard 0 for their metadata, then the leaders among them for the last cross links; both
  rounds go through its own pool.
\<close>

section \<open>Definitions\<close>

record processedCrossLink =
  pc_BlockNum :: int
  pc_CrossLink :: CrossLink
  pc_TS :: int

text \<open>The jobs of the two rounds.\<close>

definition crosslink_nodes :: "((string \<times> int) list \<Rightarrow> (string \<times> int) list) \<Rightarrow> shardMap \<Rightarrow> work list" where
  "crosslink_nodes ord shardMap =
     jobs_for NodeMetadataRPC (keys (filter (\<lambda>kv. snd kv = 0) (ord shardMap)))"

definition crosslink_leader :: "reply list \<Rightarrow> string list" where
  "crosslink_leader cs =
     concat (map (\<lambda>d.
       if rp_oops d = None then
         (let r = Unmarshal (dec_result dec_NodeMetadataReply) (rp_rpcResult d) zero_NodeMetadataReply
          in if nm_IsLeader r \<and> nm_ShardID r = 0 then [rp_address d] else [])
       else []) cs)"

definition crosslink_jobs :: "string list \<Rightarrow> work list" where
  "crosslink_jobs leader = jobs_for LastCrossLinkRPC leader"

text \<open>The body of the loop over the cross links of a reply; the first component is \<^verbatim>\<open>now\<close>.\<close>

definition crosslink_key :: "string \<Rightarrow> int \<Rightarrow> string" where
  "crosslink_key chain shard =
     Sprintf ''Chain: %s, Shard %d, CrossLinkMonitor'' [AStr chain, AInt ''int'' shard]"

definition crosslink_message :: "CrossLink \<Rightarrow> int \<Rightarrow> string" where
  "crosslink_message result elapsedTime =
     Sprintf crossLinkMessage
       [AInt ''int'' (cl_ShardID result), AStr (cl_Hash result), AInt ''int'' (cl_ShardID result),
        AInt ''int'' (cl_BlockNumber result), AInt ''int'' (cl_ShardID result),
        AInt ''int'' (cl_EpochNumber result), AStr (cl_Signature result),
        AStr (cl_SignatureBitmap result), AFloat (duration_Seconds elapsedTime),
        AFloat (duration_Minutes elapsedTime)]"

definition crosslink_check ::
  "(V2Event \<Rightarrow> string option) \<Rightarrow> u64 \<Rightarrow> string \<Rightarrow> string \<Rightarrow> int \<times> CrossLink \<Rightarrow>
   (int, processedCrossLink) gomap \<Rightarrow> (int, processedCrossLink) gomap \<times> action list" where
  "crosslink_check pd warning pdServiceKey chain ob lastProcessed =
     (let (now, result) = ob;
          processed = AList.update (cl_ShardID result)
            \<lparr>pc_BlockNum = cl_BlockNumber result, pc_CrossLink = result, pc_TS = now\<rparr> lastProcessed
      in case map_of lastProcessed (cl_ShardID result) of
           None \<Rightarrow> (processed, [])
         | Some entry \<Rightarrow>
             (let elapsedTime = time_Sub now (pc_TS entry)
              in if cl_BlockNumber result \<le> pc_BlockNum entry then
                   (lastProcessed,
                    if warning \<le> u64_of_float (duration_Seconds elapsedTime)
                    then raise_alert pd ''[crossLinkMonitor] Sent PagerDuty alert! '' pdServiceKey
                           (crosslink_key chain (cl_ShardID result)) chain
                           (crosslink_message result elapsedTime)
                    else [])
                 else (processed, [])))"

text \<open>
  The loop over the replies: it stops after the first reply without an error, whose cross links
  are all processed.
\<close>

fun crosslink_replies ::
  "(V2Event \<Rightarrow> string option) \<Rightarrow> u64 \<Rightarrow> string \<Rightarrow> string \<Rightarrow> int \<Rightarrow> reply list \<Rightarrow>
   (int, processedCrossLink) gomap \<Rightarrow>
   LastCrossLinkReply \<times> (int, processedCrossLink) gomap \<times> action list" where
  "crosslink_replies pd warning key chain now [] lastProcessed = (\<lparr>lc_CrossLinks = []\<rparr>, lastProcessed, [])"
| "crosslink_replies pd warning key chain now (i # is) lastProcessed =
     (if rp_oops i = None then
        (let crossLinks = Unmarshal dec_LastCrossLinkReply (rp_rpcResult i) \<lparr>lc_CrossLinks = []\<rparr>
         in (crossLinks, watch (crosslink_check pd warning key chain)
               (map (Pair now) (lc_CrossLinks crossLinks)) lastProcessed))
      else crosslink_replies pd warning key chain now is lastProcessed)"

text \<open>One tick, after the replies \<open>cs\<close> to the second round have been collected.\<close>

definition crosslink_tick ::
  "(V2Event \<Rightarrow> string option) \<Rightarrow> u64 \<Rightarrow> string \<Rightarrow> string \<Rightarrow> int \<Rightarrow> reply list \<Rightarrow>
   monitor \<times> (int, processedCrossLink) gomap \<Rightarrow>
   monitor option \<times> (int, processedCrossLink) gomap \<times> action list" where
  "crosslink_tick pd warning key chain now cs st =
     (let (m, lastProcessed) = st;
          (crossLinks, lastProcessed, acts) =
            crosslink_replies pd warning key chain now cs lastProcessed
      in (case lock m of
            None \<Rightarrow> None
          | Some m \<Rightarrow> Some (unlock (m\<lparr>m_LastCrossLinks := \<lparr>lc_CrossLinks = lc_CrossLinks crossLinks\<rparr>\<rparr>)),
          lastProcessed, acts))"

section \<open>The loop over the cross links\<close>

lemma crosslink_key_eq:
  "crosslink_key chain shard = ''Chain: '' @ chain @ '', Shard '' @ FormatInt shard @ '', CrossLinkMonitor''"
  by (simp add: crosslink_key_def fmt_verb_def)

abbreviation link_shard :: "int \<times> CrossLink \<Rightarrow> int" where
  "link_shard ob \<equiv> cl_ShardID (snd ob)"

abbreviation link_block :: "int \<times> CrossLink \<Rightarrow> int" where
  "link_block ob \<equiv> cl_BlockNumber (snd ob)"

definition recorded_link :: "(int, processedCrossLink) gomap \<Rightarrow> int \<Rightarrow> int option" where
  "recorded_link st k = map_option pc_BlockNum (map_of st k)"

interpretation lm: stall_view "crosslink_check pd warning key chain" link_shard link_block
  recorded_link "crosslink_key chain" map_of
  for pd warning key chain
  by unfold_locales
     (auto simp: crosslink_check_def recorded_link_def map_of_update_eq crosslink_key_eq Let_def
        split: option.splits if_splits)

text \<open>The cross links that a tick processes: those of the first machine that answers.\<close>

definition first_links :: "reply list \<Rightarrow> CrossLink list" where
  "first_links cs =
     (case find (\<lambda>d. rp_oops d = None) cs of
        None \<Rightarrow> []
      | Some d \<Rightarrow> lc_CrossLinks (Unmarshal dec_LastCrossLinkReply (rp_rpcResult d) \<lparr>lc_CrossLinks = []\<rparr>))"

lemma links_eta [simp]: "\<lparr>lc_CrossLinks = lc_CrossLinks x\<rparr> = x"
  by (cases x) simp

lemma crosslink_replies_watch:
  "crosslink_replies pd warning key chain now cs st =
     (\<lparr>lc_CrossLinks = first_links cs\<rparr>,
      watch (crosslink_check pd warning key chain) (map (Pair now) (first_links cs)) st)"
  by (induction cs) (simp_all add: first_links_def Let_def)

lemma crosslink_tick_eq:
  "crosslink_tick pd warning key chain now cs (m, st) =
     (if m_inUse m then None else Some (m\<lparr>m_LastCrossLinks := \<lparr>lc_CrossLinks = first_links cs\<rparr>\<rparr>),
      watch (crosslink_check pd warning key chain) (map (Pair now) (first_links cs)) st)"
  by (cases m) (simp add: crosslink_tick_def crosslink_replies_watch unlock_def lock_def Let_def
      case_prod_beta)

text \<open>A cross link is reported when its block is not new and the last new one is old enough.\<close>

definition link_stuck :: "u64 \<Rightarrow> (int, processedCrossLink) gomap \<Rightarrow> int \<times> CrossLink \<Rightarrow> bool" where
  "link_stuck warning st ob \<longleftrightarrow>
     (case map_of st (link_shard ob) of
        None \<Rightarrow> False
      | Some entry \<Rightarrow> link_block ob \<le> pc_BlockNum entry \<and>
          warning \<le> u64_of_float (duration_Seconds (time_Sub (fst ob) (pc_TS entry))))"

lemma link_verdict:
  "topics (snd (crosslink_check pd warning key chain ob st)) =
     (if link_stuck warning st ob then [crosslink_key chain (link_shard ob)] else [])"
  "map_of (fst (crosslink_check pd warning key chain ob st)) (link_shard ob) =
     (case map_of st (link_shard ob) of
        Some entry \<Rightarrow> if link_block ob \<le> pc_BlockNum entry then Some entry
          else Some \<lparr>pc_BlockNum = link_block ob, pc_CrossLink = snd ob, pc_TS = fst ob\<rparr>
      | None \<Rightarrow> Some \<lparr>pc_BlockNum = link_block ob, pc_CrossLink = snd ob, pc_TS = fst ob\<rparr>)"
  by (auto simp: crosslink_check_def link_stuck_def map_of_update_eq Let_def case_prod_beta
      split: option.splits)

lemma late_exact:
  assumes "ts \<le> now" and "now - ts < 2 ^ 22 * 1000000000"
  shows "warning \<le> u64_of_float (duration_Seconds (time_Sub now ts)) \<longleftrightarrow>
    uint warning \<le> (now - ts) div 1000000000"
proof -
  have "time_Sub now ts = now - ts"
    using assms time_Sub_exact [of now ts] by (simp add: in_int64_def)
  then show ?thesis using seconds_word [of "now - ts"] assms by (simp add: word_le_def)
qed

section \<open>Several ticks\<close>

fun crosslink_run ::
  "(V2Event \<Rightarrow> string option) \<Rightarrow> u64 \<Rightarrow> string \<Rightarrow> string \<Rightarrow> (int \<times> reply list) list \<Rightarrow>
   monitor \<times> (int, processedCrossLink) gomap \<Rightarrow>
   monitor option \<times> (int, processedCrossLink) gomap \<times> action list" where
  "crosslink_run pd warning key chain [] (m, st) = (Some m, st, [])"
| "crosslink_run pd warning key chain ((now, cs) # ticks) (m, st) =
     (case crosslink_tick pd warning key chain now cs (m, st) of
        (None, st, acts) \<Rightarrow> (None, st, acts)
      | (Some m, st, acts) \<Rightarrow>
          (let (m, st, acts') = crosslink_run pd warning key chain ticks (m, st)
           in (m, st, acts @ acts')))"

definition tick_links :: "int \<times> reply list \<Rightarrow> (int \<times> CrossLink) list" where
  "tick_links t = map (Pair (fst t)) (first_links (snd t))"

lemma crosslink_run_watch:
  "\<not> m_inUse m \<Longrightarrow> \<exists>m'. crosslink_run pd warning key chain ticks (m, st) =
     (Some m', watch (crosslink_check pd warning key chain) (concat (map tick_links ticks)) st)"
proof (induction ticks arbitrary: m st)
  case (Cons t ticks)
  obtain now cs where t: "t = (now, cs)" by fastforce
  obtain st1 acts1 where w: "watch (crosslink_check pd warning key chain) (tick_links t) st = (st1, acts1)"
    by fastforce
  let ?m = "m\<lparr>m_LastCrossLinks := \<lparr>lc_CrossLinks = first_links cs\<rparr>\<rparr>"
  obtain m' where "crosslink_run pd warning key chain ticks (?m, st1) =
     (Some m', watch (crosslink_check pd warning key chain) (concat (map tick_links ticks)) st1)"
    using Cons.IH [of ?m st1] Cons.prems by auto
  moreover have "tick_links (now, cs) = map (Pair now) (first_links cs)"
    by (simp add: tick_links_def)
  ultimately show ?case
    using w Cons.prems
    by (simp add: t crosslink_tick_eq watch_append case_prod_beta Let_def)
qed simp

lemma stalled_record:
  assumes "map_of st k = Some entry"
    and "\<forall>ob \<in> set obs. link_shard ob = k \<longrightarrow> link_block ob \<le> pc_BlockNum entry"
  shows "map_of (fst (watch (crosslink_check pd warning key chain) obs st)) k = Some entry"
  using assms
proof (induction obs arbitrary: st)
  case (Cons ob obs)
  have "map_of (fst (crosslink_check pd warning key chain ob st)) k = Some entry"
    using Cons.prems link_verdict(2) [of pd warning key chain ob st] lm.view_frame [of k ob pd warning key chain st]
    by (cases "link_shard ob = k") auto
  then show ?case using Cons by (simp add: case_prod_beta Let_def)
qed simp

lemma reported_if_stuck:
  assumes "map_of st k = Some entry" and "k \<in> link_shard ` set obs"
    and "\<forall>ob \<in> set obs. link_shard ob = k \<longrightarrow> link_block ob \<le> pc_BlockNum entry"
    and "\<forall>ob \<in> set obs. fst ob = now"
  shows "crosslink_key chain k \<in> set (topics (snd (watch (crosslink_check pd warning key chain) obs st))) \<longleftrightarrow>
    warning \<le> u64_of_float (duration_Seconds (time_Sub now (pc_TS entry)))"
  using assms
proof (induction obs arbitrary: st)
  case (Cons ob obs)
  let ?st = "fst (crosslink_check pd warning key chain ob st)"
  have e: "map_of ?st k = Some entry"
    using stalled_record [of st k entry "[ob]" pd warning key chain] Cons.prems by (simp add: case_prod_beta)
  have rest: "crosslink_key chain k \<in> set (topics (snd (watch (crosslink_check pd warning key chain) obs ?st)))
      \<longrightarrow> warning \<le> u64_of_float (duration_Seconds (time_Sub now (pc_TS entry)))"
    using Cons.IH [OF e] lm.unobserved [of k obs pd warning key chain ?st] Cons.prems
    by (cases "k \<in> link_shard ` set obs") simp_all
  show ?case
  proof (cases "link_shard ob = k")
    case True
    then have "crosslink_key chain k \<in> set (topics (snd (crosslink_check pd warning key chain ob st))) \<longleftrightarrow>
        warning \<le> u64_of_float (duration_Seconds (time_Sub now (pc_TS entry)))"
      using Cons.prems by (simp add: link_verdict(1) link_stuck_def)
    with rest show ?thesis by (auto simp: case_prod_beta Let_def)
  next
    case False
    then have "crosslink_key chain k \<notin> set (topics (snd (crosslink_check pd warning key chain ob st)))"
      using lm.check_topics [of pd warning key chain ob st] by (auto simp: crosslink_key_eq)
    with Cons.IH [OF e] Cons.prems False show ?thesis by (auto simp: case_prod_beta Let_def)
  qed
qed simp

lemma crosslink_leader_filter:
  "crosslink_leader cs = map rp_address (filter (\<lambda>d. rp_oops d = None \<and>
     nm_IsLeader (md_Payload (node_of d)) \<and> nm_ShardID (md_Payload (node_of d)) = 0) cs)"
  by (induction cs) (auto simp: crosslink_leader_def node_of_def Let_def)

section \<open>Properties\<close>

text \<open>
  The second round only asks configured machines of shard 0 that say they lead shard 0,
  each of them once, and whatever the machines answer, both rounds fit the channels of the pool.
\<close>

theorem crosslink_rounds:
  assumes "gomap shardMap" and "range_order ord" and "0 < poolSize"
    and "pool_collects (poolSize, length shardMap, NodeMetadataRPC) (crosslink_nodes ord shardMap) cs"
  shows "pool_accepts (poolSize, length shardMap, NodeMetadataRPC) (crosslink_nodes ord shardMap) \<and>
    pool_accepts (poolSize, length shardMap, LastCrossLinkRPC) (crosslink_jobs (crosslink_leader cs)) \<and>
    distinct (crosslink_leader cs) \<and>
    (\<forall>a \<in> set (crosslink_leader cs). map_of shardMap a = Some 0 \<and>
      (\<exists>d \<in> set cs. rp_address d = a \<and> rp_oops d = None \<and>
        nm_IsLeader (md_Payload (node_of d)) \<and> nm_ShardID (md_Payload (node_of d)) = 0))"
proof -
  let ?ks = "keys (filter (\<lambda>kv. snd kv = 0) (ord shardMap))"
  have adr: "mset (map rp_address cs) = mset ?ks"
    using wp.addresses [OF assms(4)] by (simp add: crosslink_nodes_def)
  have len: "length ?ks \<le> length shardMap"
    using length_filter_le [of "\<lambda>kv. snd kv = 0" "ord shardMap"] range_order_length [OF assms(2)] by simp
  have "gomap (ord shardMap)" using assms(1,2) by simp
  then have dk: "distinct ?ks" by (simp add: gomap_def distinct_map_filter)
  then have "distinct (map rp_address cs)" using adr mset_eq_imp_distinct_iff by blast
  then have dl: "distinct (crosslink_leader cs)"
    unfolding crosslink_leader_filter by (simp add: distinct_map_filter)
  have "length cs = length ?ks" using mset_eq_length [OF adr] by simp
  then have ll: "length (crosslink_leader cs) \<le> length shardMap"
    using len by (simp add: crosslink_leader_filter length_filter_le [THEN le_trans])
  have src: "map_of shardMap a = Some 0" if "a \<in> set (crosslink_leader cs)" for a
  proof -
    have "a \<in> set (map rp_address cs)" using that by (auto simp: crosslink_leader_filter)
    then have "a \<in> set ?ks" using mset_eq_setD [OF adr] by blast
    then have "(a, 0) \<in> set shardMap" by (auto simp: range_order_set [OF assms(2)])
    then show ?thesis using assms(1) by (simp add: gomap_def)
  qed
  have sec: "\<exists>d \<in> set cs. rp_address d = a \<and> rp_oops d = None \<and>
        nm_IsLeader (md_Payload (node_of d)) \<and> nm_ShardID (md_Payload (node_of d)) = 0"
    if "a \<in> set (crosslink_leader cs)" for a
    using that by (auto simp: crosslink_leader_filter)
  have "pool_accepts (poolSize, length shardMap, NodeMetadataRPC) (crosslink_nodes ord shardMap)"
    using assms(3) len by (simp add: pool_accepts_def crosslink_nodes_def jobs_for_rpc)
  moreover have "pool_accepts (poolSize, length shardMap, LastCrossLinkRPC) (crosslink_jobs (crosslink_leader cs))"
    using assms(3) ll by (simp add: pool_accepts_def crosslink_jobs_def jobs_for_rpc)
  ultimately show ?thesis using dl src sec by blast
qed

theorem crosslink_rounds_witness:
  "distinct (crosslink_leader (map (serve sample_http) (crosslink_nodes rev sample_shardMap)))"
proof -
  have "pool_collects (4, length sample_shardMap, NodeMetadataRPC) (crosslink_nodes rev sample_shardMap)
      (map (serve sample_http) (crosslink_nodes rev sample_shardMap))"
    by (rule wp.possible [OF _ serve_all])
       (simp add: pool_accepts_def crosslink_nodes_def sample_shardMap_def jobs_for_def)
  from crosslink_rounds [OF _ range_order_rev _ this] show ?thesis
    by (simp add: gomap_def sample_shardMap_def)
qed


text \<open>A leader that reports cross links of two shards, and a state that has seen both.\<close>

definition sample_links :: "reply list" where
  "sample_links =
     [\<lparr>rp_address = ''10.0.0.1:9500'', rp_rpc = LastCrossLinkRPC, rp_rpcPayload = [],
       rp_rpcResult = map (\<lambda>c. if c = CHR ''~'' then CHR 0x22 else c)
         ''{~result~:[{~shard-id~:1,~block-number~:7},{~shard-id~:2,~block-number~:9}]}'',
       rp_oops = None\<rparr>]"

definition sample_processed :: "(int, processedCrossLink) gomap" where
  "sample_processed =
     [(1, \<lparr>pc_BlockNum = 7, pc_CrossLink = zero_CrossLink, pc_TS = 100 * 1000000000\<rparr>),
      (2, \<lparr>pc_BlockNum = 8, pc_CrossLink = zero_CrossLink, pc_TS = 100 * 1000000000\<rparr>)]"

lemma sample_first_links:
  "first_links sample_links =
     [zero_CrossLink\<lparr>cl_ShardID := 1, cl_BlockNumber := 7\<rparr>,
      zero_CrossLink\<lparr>cl_ShardID := 2, cl_BlockNumber := 9\<rparr>]"
  by code_simp


text \<open>
  (C20) A shard whose cross links stop is reported in time and not before: as long as no newer
  cross link of the shard arrives, over any number of ticks, a tick that sees a cross link of the
  shard alerts exactly if at least the warning threshold has passed since the tick that processed
  the last new one. (Gaps below \<open>2 ^ 22\<close> seconds.)
\<close>

theorem crosslink_stall_reported:
  assumes "\<not> m_inUse m" and "map_of st k = Some entry"
    and "\<forall>t \<in> set ticks. \<forall>x \<in> set (first_links (snd t)). cl_ShardID x = k \<longrightarrow> cl_BlockNumber x \<le> pc_BlockNum entry"
    and "k \<in> cl_ShardID ` set (first_links cs)"
    and "\<forall>x \<in> set (first_links cs). cl_ShardID x = k \<longrightarrow> cl_BlockNumber x \<le> pc_BlockNum entry"
    and "pc_TS entry \<le> now" and "now - pc_TS entry < 2 ^ 22 * 1000000000"
  shows "\<exists>m1 st1 acts1 m2 st2 acts2.
    crosslink_run pd warning key chain ticks (m, st) = (Some m1, st1, acts1) \<and>
    crosslink_tick pd warning key chain now cs (m1, st1) = (m2, st2, acts2) \<and>
    (crosslink_key chain k \<in> set (topics acts2) \<longleftrightarrow> uint warning \<le> (now - pc_TS entry) div 1000000000)"
proof -
  let ?st1 = "fst (watch (crosslink_check pd warning key chain) (concat (map tick_links ticks)) st)"
  let ?obs = "map (Pair now) (first_links cs)"
  obtain m1 where r: "crosslink_run pd warning key chain ticks (m, st) =
      (Some m1, ?st1, snd (watch (crosslink_check pd warning key chain) (concat (map tick_links ticks)) st))"
    using crosslink_run_watch [OF assms(1), of pd warning key chain ticks st] by auto
  have e: "map_of ?st1 k = Some entry"
    by (rule stalled_record [OF assms(2)]) (use assms(3) in \<open>auto simp: tick_links_def\<close>)
  have k: "k \<in> link_shard ` set ?obs" using assms(4) by (auto simp: image_iff)
  have b: "\<forall>ob \<in> set ?obs. link_shard ob = k \<longrightarrow> link_block ob \<le> pc_BlockNum entry" using assms(5) by auto
  have n: "\<forall>ob \<in> set ?obs. fst ob = now" by auto
  note f = reported_if_stuck [OF e k b n, of chain pd warning key, unfolded late_exact [OF assms(6,7)]]
  obtain st2 acts2 where w: "watch (crosslink_check pd warning key chain) ?obs ?st1 = (st2, acts2)" by fastforce
  note t = crosslink_tick_eq [of pd warning key chain now cs m1 ?st1, unfolded w]
  show ?thesis
    by (intro exI conjI, rule r, rule t) (use f in \<open>simp add: w\<close>)
qed

theorem crosslink_stall_reported_witness:
  "\<exists>m1 st1 acts1 m2 st2 acts2.
    crosslink_run (\<lambda>_. None) 600 ''key'' ''testnet'' [(200 * 1000000000, sample_links)]
      (new_monitor ''testnet'', sample_processed) = (Some m1, st1, acts1) \<and>
    crosslink_tick (\<lambda>_. None) 600 ''key'' ''testnet'' (900 * 1000000000) sample_links (m1, st1) =
      (m2, st2, acts2) \<and>
    crosslink_key ''testnet'' 1 \<in> set (topics acts2)"
proof -
  let ?e = "\<lparr>pc_BlockNum = 7, pc_CrossLink = zero_CrossLink, pc_TS = 100 * 1000000000\<rparr>"
  have "map_of sample_processed 1 = Some ?e" by (simp add: sample_processed_def)
  from crosslink_stall_reported [where pd = "\<lambda>_. None" and warning = 600 and key = "''key''" and
      chain = "''testnet''" and ticks = "[(200 * 1000000000, sample_links)]" and cs = sample_links and
      now = "900 * 1000000000" and m = "new_monitor ''testnet''", OF _ this]
  show ?thesis
    by (simp add: sample_first_links new_monitor_def zero_CrossLink_def)
qed

text \<open>
  A shard whose cross links keep arriving is never reported, over any number of ticks and
  whatever happens to the other shards.
\<close>

theorem crosslink_progress_never_reported:
  assumes "\<not> m_inUse m" and "growing link_shard link_block k (recorded_link st k) (concat (map tick_links ticks))"
  shows "\<exists>m' st' acts. crosslink_run pd warning key chain ticks (m, st) = (Some m', st', acts) \<and>
    crosslink_key chain k \<notin> set (topics acts)"
  using crosslink_run_watch [OF assms(1), of pd warning key chain ticks st]
    lm.growing_no_alert [OF assms(2), of chain pd warning key]
  by (cases "watch (crosslink_check pd warning key chain) (concat (map tick_links ticks)) st") auto

theorem crosslink_progress_never_reported_witness:
  "\<exists>m' st' acts. crosslink_run (\<lambda>_. None) 600 ''key'' ''testnet'' [(900 * 1000000000, sample_links)]
      (new_monitor ''testnet'', sample_processed) = (Some m', st', acts) \<and>
    crosslink_key ''testnet'' 2 \<notin> set (topics acts)"
  by (rule crosslink_progress_never_reported)
     (simp_all add: new_monitor_def sample_processed_def recorded_link_def tick_links_def
        sample_first_links zero_CrossLink_def)

end
