(* ===== verification/Cx.thy ===== *)
theory Cx
  imports Stall Manager
begin

text \<open>
  \<^verbatim>\<open>cx-monitor.go\<close>: one tick of \<^verbatim>\<open>cxMonitor\<close>. The monitor asks every machine for its metadata,
  then the leaders of every shard for the size of their pool of pending cross-shard
  transactions; both rounds go through its own pool.
\<close>

section \<open>Definitions\<close>

definition cx_nodes :: "((string \<times> int) list \<Rightarrow> (string \<times> int) list) \<Rightarrow> shardMap \<Rightarrow> work list" where
  "cx_nodes ord shardMap = jobs_for NodeMetadataRPC (keys (ord shardMap))"

definition cx_leader :: "reply \<Rightarrow> (int, string list) gomap \<Rightarrow> (int, string list) gomap" where
  "cx_leader d leaders =
     (if rp_oops d = None then
        (let r = Unmarshal (dec_result dec_NodeMetadataReply) (rp_rpcResult d) zero_NodeMetadataReply
         in if nm_IsLeader r then map_append (uint (nm_ShardID r)) (rp_address d) leaders else leaders)
      else leaders)"

definition cx_leaders :: "reply list \<Rightarrow> (int, string list) gomap" where
  "cx_leaders cs = fold cx_leader cs []"

definition cx_jobs ::
  "((int \<times> string list) list \<Rightarrow> (int \<times> string list) list) \<Rightarrow> (int, string list) gomap \<Rightarrow> work list" where
  "cx_jobs ord leaders = jobs_for PendingCXRPC (concat (map snd (ord leaders)))"

text \<open>
  The shard of a reply: the last entry of the map, in the order in which it is traversed for this
  reply, that lists the address.
\<close>

definition cx_shard ::
  "((int \<times> string list) list \<Rightarrow> (int \<times> string list) list) \<Rightarrow> (int, string list) gomap \<Rightarrow> string \<Rightarrow> int" where
  "cx_shard ord leaders address =
     fold (\<lambda>sv shard. if address \<in> set (snd sv) then fst sv else shard) (ord leaders) 0"

definition cx_key :: "string \<Rightarrow> int \<Rightarrow> string" where
  "cx_key chain shard =
     Sprintf ''Shard %d cx pool size greater than pending limit! - %s'' [AInt ''int'' shard, AStr chain]"

definition cx_result :: "reply \<Rightarrow> u64" where
  "cx_result d = Unmarshal (dec_result dec_uint) (rp_rpcResult d) 0"

definition cx_reply ::
  "(V2Event \<Rightarrow> string option) \<Rightarrow> (reply \<Rightarrow> (int \<times> string list) list \<Rightarrow> (int \<times> string list) list) \<Rightarrow>
   u64 \<Rightarrow> string \<Rightarrow> string \<Rightarrow> (int, string list) gomap \<Rightarrow> reply \<Rightarrow>
   (int, u64 list) gomap \<times> action list \<Rightarrow> (int, u64 list) gomap \<times> action list" where
  "cx_reply pd ord limit pdServiceKey chain leaders i st =
     (let (cxPoolSize, acts) = st
      in if rp_oops i = None then
           (let shard = cx_shard (ord i) leaders (rp_address i);
                result = cx_result i
            in (map_append shard result cxPoolSize,
                acts @
                (if limit < result then
                   raise_alert pd ''[cxMonitor] Sent PagerDuty alert: '' pdServiceKey
                     (cx_key chain shard) chain
                     (Sprintf crossShardTransactionMessage
                        [AInt ''int'' shard, AInt ''uint64'' (uint result)])
                 else [])))
         else st)"

text \<open>
  One tick after both rounds: \<open>leaders\<close> is what the first round gave, \<open>cs\<close> the replies to the
  second. The map of pool sizes is logged.
\<close>

definition cx_tick ::
  "(V2Event \<Rightarrow> string option) \<Rightarrow> (reply \<Rightarrow> (int \<times> string list) list \<Rightarrow> (int \<times> string list) list) \<Rightarrow>
   u64 \<Rightarrow> string \<Rightarrow> string \<Rightarrow> (int, string list) gomap \<Rightarrow> reply list \<Rightarrow>
   (int, u64 list) gomap \<times> action list" where
  "cx_tick pd ord limit pdServiceKey chain leaders cs =
     fold (cx_reply pd ord limit pdServiceKey chain leaders) cs ([], [])"

section \<open>Leaders\<close>

definition leads :: "reply \<Rightarrow> bool" where
  "leads d \<longleftrightarrow> rp_oops d = None \<and> nm_IsLeader (md_Payload (node_of d))"

definition claimed_shard :: "reply \<Rightarrow> int" where
  "claimed_shard d = uint (meta_shard (node_of d))"

lemma cx_leaders_fold:
  "fold cx_leader cs leaders = fold (\<lambda>d. map_append (claimed_shard d) (rp_address d)) (filter leads cs) leaders"
  by (induction cs arbitrary: leaders)
     (simp_all add: cx_leader_def leads_def claimed_shard_def node_of_def Let_def)

lemma gomap_cx_leaders [simp]: "gomap (cx_leaders cs)"
  by (simp add: cx_leaders_def cx_leaders_fold gomap_fold_append)

lemma cx_leaders_slice:
  "map_slice (cx_leaders cs) k = map rp_address (filter (\<lambda>d. claimed_shard d = k) (filter leads cs))"
  unfolding cx_leaders_def cx_leaders_fold map_slice_fold by simp

lemma cx_leaders_keys: "fst ` set (cx_leaders cs) = claimed_shard ` set (filter leads cs)"
  unfolding cx_leaders_def cx_leaders_fold keys_fold_append by simp

lemma cx_leaders_entry:
  "(k, as) \<in> set (cx_leaders cs) \<Longrightarrow>
   as = map rp_address (filter (\<lambda>d. claimed_shard d = k) (filter leads cs))"
  using gomap_map_slice [OF gomap_cx_leaders] by (metis cx_leaders_slice)

text \<open>The machines asked in the second round are the leaders, each once.\<close>

lemma cx_leaders_asked:
  assumes "range_order ord"
  shows "mset (concat (map snd (ord (cx_leaders cs)))) = mset (map rp_address (filter leads cs))"
proof -
  let ?l = "ord (cx_leaders cs)"
  have "map snd ?l = map (\<lambda>k. map rp_address (filter (\<lambda>d. claimed_shard d = k) (filter leads cs))) (keys ?l)"
    unfolding map_map
    by (rule map_cong [OF refl], unfold o_def, rule cx_leaders_entry) (simp add: range_order_set [OF assms])
  then have "concat (map snd ?l) =
      map rp_address (concat (map (\<lambda>k. filter (\<lambda>d. claimed_shard d = k) (filter leads cs)) (keys ?l)))"
    by (simp only: map_concat map_map o_def)
  moreover have "distinct (keys ?l)" using assms by (metis gomap_cx_leaders gomap_range gomap_def)
  moreover have "claimed_shard ` set (filter leads cs) \<subseteq> set (keys ?l)"
    using cx_leaders_keys [of cs] range_order_set [OF assms, of "cx_leaders cs"] by simp
  ultimately show ?thesis using mset_groups [of "keys ?l" claimed_shard "filter leads cs"] by (simp only: mset_map)
qed

text \<open>With one reply per address, the traversal order of the map does not matter.\<close>

lemma cx_shard_unique:
  assumes "range_order ord" and "distinct (map rp_address cs)" and "d \<in> set cs" and "leads d"
  shows "cx_shard ord (cx_leaders cs) (rp_address d) = claimed_shard d"
proof -
  let ?a = "rp_address d"
  have uniq: "k = claimed_shard d" if e: "(k, as) \<in> set (ord (cx_leaders cs))" "?a \<in> set as" for k as
  proof -
    obtain d' where "d' \<in> set cs" "rp_address d' = ?a" "claimed_shard d' = k"
      using cx_leaders_entry [of k as cs] e by (auto simp: range_order_set [OF assms(1)])
    moreover have "inj_on rp_address (set cs)" using assms(2) by (simp add: distinct_map)
    ultimately show ?thesis using assms(3) by (metis inj_onD)
  qed
  have "claimed_shard d \<in> fst ` set (ord (cx_leaders cs))"
    using cx_leaders_keys [of cs] assms(3,4) by (simp add: range_order_set [OF assms(1)])
  then obtain as where as: "(claimed_shard d, as) \<in> set (ord (cx_leaders cs))" by auto
  then have a: "?a \<in> set as"
    using cx_leaders_entry [of "claimed_shard d" as cs] assms(3,4) by (auto simp: range_order_set [OF assms(1)])
  have f: "fold (\<lambda>sv shard. if ?a \<in> set (snd sv) then fst sv else shard) xs s = claimed_shard d"
    if "set xs \<subseteq> set (ord (cx_leaders cs))"
      "s = claimed_shard d \<or> (\<exists>sv \<in> set xs. ?a \<in> set (snd sv))" for xs s
    using that
  proof (induction xs arbitrary: s)
    case (Cons x xs)
    have "fst x = claimed_shard d" if "?a \<in> set (snd x)"
      using uniq [of "fst x" "snd x"] Cons.prems(1) that by simp
    then show ?case using Cons by auto
  qed simp
  show ?thesis unfolding cx_shard_def by (rule f [OF subset_refl]) (use as a in force)
qed

section \<open>Replies\<close>

definition pool_large :: "u64 \<Rightarrow> reply \<Rightarrow> bool" where
  "pool_large limit d \<longleftrightarrow> rp_oops d = None \<and> limit < cx_result d"

lemma cx_tick_topics:
  "topics (snd (fold (cx_reply pd ord limit key chain leaders) cs st)) =
     topics (snd st) @
     map (\<lambda>d. cx_key chain (cx_shard (ord d) leaders (rp_address d))) (filter (pool_large limit) cs)"
  by (induction cs arbitrary: st) (simp_all add: cx_reply_def pool_large_def Let_def case_prod_beta)

lemma cx_tick_sizes:
  "map_slice (fst (fold (cx_reply pd ord limit key chain leaders) cs st)) k =
     map_slice (fst st) k @
     map cx_result (filter (\<lambda>d. cx_shard (ord d) leaders (rp_address d) = k) (answered_ok cs))"
  by (induction cs arbitrary: st)
     (simp_all add: cx_reply_def answered_ok_def map_slice_append Let_def case_prod_beta)

section \<open>Properties\<close>

text \<open>The two rounds of a tick: whom they ask, and that both fit into the pool.\<close>

lemma cx_first_round:
  assumes "gomap shardMap" and "range_order ord"
    and "pool_collects (poolSize, length shardMap, NodeMetadataRPC) (cx_nodes ord shardMap) cs"
  shows "distinct (map rp_address cs)" and "length cs = length shardMap"
proof -
  have adr: "mset (map rp_address cs) = mset (keys (ord shardMap))"
    using wp.addresses [OF assms(3)] by (simp add: cx_nodes_def)
  have "gomap (ord shardMap)" using assms(1,2) by simp
  then show "distinct (map rp_address cs)"
    unfolding gomap_def using adr mset_eq_imp_distinct_iff by blast
  show "length cs = length shardMap" using mset_eq_length [OF adr] range_order_length [OF assms(2)] by simp
qed

lemma cx_second_round:
  assumes "range_order ord'" and "distinct (map rp_address cs)"
    and "pool_collects (poolSize, nodes, PendingCXRPC) (cx_jobs ord' (cx_leaders cs)) cs'"
  shows "distinct (map rp_address cs')" and "set (map rp_address cs') = rp_address ` {d \<in> set cs. leads d}"
proof -
  have adr: "mset (map rp_address cs') = mset (map rp_address (filter leads cs))"
    using wp.addresses [OF assms(3)] cx_leaders_asked [OF assms(1), of cs]
    by (simp only: cx_jobs_def jobs_for_simps)
  show "distinct (map rp_address cs')"
    using mset_eq_imp_distinct_iff [OF adr] assms(2) by (simp add: distinct_map_filter)
  show "set (map rp_address cs') = rp_address ` {d \<in> set cs. leads d}"
    using mset_eq_setD [OF adr] by simp
qed

lemma cx_rounds_fit:
  assumes "range_order ord" and "range_order ord'" and "0 < poolSize" and "length cs = length shardMap"
  shows "pool_accepts (poolSize, length shardMap, NodeMetadataRPC) (cx_nodes ord shardMap)"
    and "pool_accepts (poolSize, length shardMap, PendingCXRPC) (cx_jobs ord' (cx_leaders cs))"
proof -
  have "length (keys (ord shardMap)) = length shardMap" using range_order_length [OF assms(1)] by simp
  then show "pool_accepts (poolSize, length shardMap, NodeMetadataRPC) (cx_nodes ord shardMap)"
    using assms(3) by (simp add: pool_accepts_def cx_nodes_def jobs_for_rpc)
  have "length (concat (map snd (ord' (cx_leaders cs)))) = length (filter leads cs)"
    using mset_eq_length [OF cx_leaders_asked [OF assms(2), of cs]] by simp
  also have "\<dots> \<le> length shardMap" using length_filter_le [of leads cs] unfolding assms(4) .
  finally show "pool_accepts (poolSize, length shardMap, PendingCXRPC) (cx_jobs ord' (cx_leaders cs))"
    using assms(3) by (simp add: pool_accepts_def cx_jobs_def jobs_for_rpc)
qed

text \<open>Addresses that are all different name one reply each.\<close>

lemma shard_by_address:
  assumes "distinct (map rp_address cs)"
  shows "\<exists>shard. \<forall>d \<in> set cs. shard (rp_address d) = claimed_shard d"
proof (rule exI, rule ballI)
  fix d assume d: "d \<in> set cs"
  obtain x where "find (\<lambda>e. rp_address e = rp_address d) cs = Some x" "x \<in> set cs" "rp_address x = rp_address d"
    using d by (cases "find (\<lambda>e. rp_address e = rp_address d) cs")
      (auto simp: find_None_iff find_Some_iff in_set_conv_nth)
  then show "(\<lambda>a. claimed_shard (the (find (\<lambda>e. rp_address e = a) cs))) (rp_address d) = claimed_shard d"
    using assms d by (auto simp: distinct_map dest: inj_onD)
qed


text \<open>A network in which both machines lead their shards and report 2000 pending transactions.\<close>

definition busy_http :: http where
  "busy_http rq = Inr (200, map (\<lambda>c. if c = CHR ''~'' then CHR 0x22 else c)
     (if rq_body rq = rpc_body PendingCXRPC then ''{~result~:2000}''
      else if rq_uri rq = ''http://10.0.0.1:9500'' then ''{~result~:{~is-leader~:true,~shard-id~:0}}''
      else ''{~result~:{~is-leader~:true,~shard-id~:1}}''))"

definition busy_first :: "reply list" where
  "busy_first = map (serve busy_http) (cx_nodes (\<lambda>xs. xs) sample_shardMap)"

definition busy_second :: "reply list" where
  "busy_second = map (serve busy_http) (cx_jobs (\<lambda>xs. xs) (cx_leaders busy_first))"

lemma busy_leaders: "cx_leaders busy_first = [(0, [''10.0.0.1:9500'']), (1, [''10.0.1.1:9500''])]"
  by code_simp

lemma busy_large: "filter (pool_large 1000) busy_second = busy_second"
  by code_simp


end
