(* ===== verification/Fetch.thy ===== *)
theory Fetch
  imports Request
begin

text \<open>
  The goroutines of \<^verbatim>\<open>getBeaconHeaders\<close> (\<^verbatim>\<open>beacon-monitor.go\<close>): one goroutine sends the requests
  over an unbuffered channel and closes it, \<^verbatim>\<open>poolSize\<close> workers send the replies over a second
  unbuffered channel, and the last worker to leave, by an atomic 32-bit counter, closes that
  channel, which ends the loop of the caller. One step is one rendezvous, close or exit; steps
  of different goroutines interleave freely.
\<close>

section \<open>State and steps\<close>

text \<open>A worker waits for a request, works on one, or has left.\<close>

datatype fworker = FIdle | FBusy work | FGone

record fetch =
  f_todo :: "work list"
  f_requestsClosed :: bool
  f_workers :: "fworker list"
  f_count :: u32
  f_dataClosed :: bool
  f_got :: "reply list"
  f_returned :: bool
  f_panic :: "panic option"

definition new_fetch :: "int \<Rightarrow> work list \<Rightarrow> fetch" where
  "new_fetch poolSize ws =
     \<lparr>f_todo = ws, f_requestsClosed = False, f_workers = replicate (nat poolSize) FIdle,
      f_count = word_of_int poolSize, f_dataClosed = False, f_got = [], f_returned = False,
      f_panic = None\<rparr>"

datatype fevent =
    FHand nat
  | FCloseRequests
  | FReply nat reply
  | FLeave nat
  | FReturn

text \<open>The deferred function of a worker: the last one closes the channel of replies.\<close>

definition fleave :: "fetch \<Rightarrow> fetch" where
  "fleave s =
     (let s = s\<lparr>f_count := f_count s - 1\<rparr>
      in if f_count s = 0 then
           (if f_dataClosed s then s\<lparr>f_panic := Some CloseOfClosedChannel\<rparr>
            else s\<lparr>f_dataClosed := True\<rparr>)
         else s)"

definition fstep :: "fevent \<Rightarrow> fetch \<Rightarrow> fetch option" where
  "fstep e s =
     (if f_panic s \<noteq> None then None
      else case e of
        FHand i \<Rightarrow>
          (case f_todo s of
             j # js \<Rightarrow>
               if i < length (f_workers s) \<and> f_workers s ! i = FIdle
               then Some (s\<lparr>f_todo := js, f_workers := (f_workers s)[i := FBusy j]\<rparr>) else None
           | [] \<Rightarrow> None)
      | FCloseRequests \<Rightarrow>
          if f_todo s = [] \<and> \<not> f_requestsClosed s then Some (s\<lparr>f_requestsClosed := True\<rparr>) else None
      | FReply i result \<Rightarrow>
          if i < length (f_workers s) then
            (case f_workers s ! i of
               FBusy j \<Rightarrow>
                 if \<not> answers j result then None
                 else if f_dataClosed s then Some (s\<lparr>f_panic := Some SendOnClosedChannel\<rparr>)
                 else if f_returned s then None
                 else Some (s\<lparr>f_got := f_got s @ [result], f_workers := (f_workers s)[i := FIdle]\<rparr>)
             | _ \<Rightarrow> None)
          else None
      | FLeave i \<Rightarrow>
          if i < length (f_workers s) \<and> f_workers s ! i = FIdle \<and> f_requestsClosed s
          then Some (fleave (s\<lparr>f_workers := (f_workers s)[i := FGone]\<rparr>)) else None
      | FReturn \<Rightarrow>
          if f_dataClosed s \<and> \<not> f_returned s then Some (s\<lparr>f_returned := True\<rparr>) else None)"

fun frun :: "fevent list \<Rightarrow> fetch \<Rightarrow> fetch option" where
  "frun [] s = Some s"
| "frun (e # es) s = (case fstep e s of None \<Rightarrow> None | Some s' \<Rightarrow> frun es s')"

inductive freach :: "int \<Rightarrow> work list \<Rightarrow> fetch \<Rightarrow> bool" for poolSize ws where
  freach_init: "freach poolSize ws (new_fetch poolSize ws)"
| freach_step: "freach poolSize ws s \<Longrightarrow> fstep e s = Some s' \<Longrightarrow> freach poolSize ws s'"

text \<open>The case analysis of a step, as an inductive relation.\<close>

inductive fetch_step :: "fetch \<Rightarrow> fevent \<Rightarrow> fetch \<Rightarrow> bool" where
  hand: "f_panic s = None \<Longrightarrow> f_todo s = j # js \<Longrightarrow> i < length (f_workers s) \<Longrightarrow> f_workers s ! i = FIdle \<Longrightarrow>
    fetch_step s (FHand i) (s\<lparr>f_todo := js, f_workers := (f_workers s)[i := FBusy j]\<rparr>)"
| close_requests: "f_panic s = None \<Longrightarrow> f_todo s = [] \<Longrightarrow> \<not> f_requestsClosed s \<Longrightarrow>
    fetch_step s FCloseRequests (s\<lparr>f_requestsClosed := True\<rparr>)"
| reply: "f_panic s = None \<Longrightarrow> i < length (f_workers s) \<Longrightarrow> f_workers s ! i = FBusy j \<Longrightarrow>
    answers j result \<Longrightarrow> \<not> f_dataClosed s \<Longrightarrow> \<not> f_returned s \<Longrightarrow>
    fetch_step s (FReply i result)
      (s\<lparr>f_got := f_got s @ [result], f_workers := (f_workers s)[i := FIdle]\<rparr>)"
| reply_closed: "f_panic s = None \<Longrightarrow> i < length (f_workers s) \<Longrightarrow> f_workers s ! i = FBusy j \<Longrightarrow>
    answers j result \<Longrightarrow> f_dataClosed s \<Longrightarrow>
    fetch_step s (FReply i result) (s\<lparr>f_panic := Some SendOnClosedChannel\<rparr>)"
| leave: "f_panic s = None \<Longrightarrow> i < length (f_workers s) \<Longrightarrow> f_workers s ! i = FIdle \<Longrightarrow>
    f_requestsClosed s \<Longrightarrow>
    fetch_step s (FLeave i) (fleave (s\<lparr>f_workers := (f_workers s)[i := FGone]\<rparr>))"
| return: "f_panic s = None \<Longrightarrow> f_dataClosed s \<Longrightarrow> \<not> f_returned s \<Longrightarrow>
    fetch_step s FReturn (s\<lparr>f_returned := True\<rparr>)"

lemma fstep_iff: "fstep e s = Some s' \<longleftrightarrow> fetch_step s e s'"
proof
  show "fstep e s = Some s' \<Longrightarrow> fetch_step s e s'"
    by (auto simp: fstep_def intro: fetch_step.intros
        split: fevent.splits if_splits fworker.splits list.splits)
  show "fetch_step s e s' \<Longrightarrow> fstep e s = Some s'"
    by (induction rule: fetch_step.induct) (simp_all add: fstep_def)
qed

section \<open>The invariant\<close>

fun held :: "fworker \<Rightarrow> work list" where
  "held (FBusy j) = [j]"
| "held _ = []"

definition live :: "fetch \<Rightarrow> nat" where
  "live s = length (filter (\<lambda>w. w \<noteq> FGone) (f_workers s))"

text \<open>
  Every job is waiting, in the hands of one worker, or answered; the counter counts the workers
  that have not left; the channel of replies is closed exactly when all of them have.
\<close>

definition fetch_inv :: "int \<Rightarrow> work list \<Rightarrow> fetch \<Rightarrow> bool" where
  "fetch_inv poolSize ws s \<longleftrightarrow>
     length (f_workers s) = nat poolSize \<and>
     f_count s = word_of_int (int (live s)) \<and>
     (f_dataClosed s \<longleftrightarrow> 0 < poolSize \<and> live s = 0) \<and>
     (f_requestsClosed s \<longrightarrow> f_todo s = []) \<and>
     (FGone \<in> set (f_workers s) \<longrightarrow> f_requestsClosed s) \<and>
     (f_returned s \<longrightarrow> f_dataClosed s) \<and>
     f_panic s = None \<and>
     (\<exists>done. list_all2 answers done (f_got s) \<and>
        mset ws = mset (f_todo s) + mset (concat (map held (f_workers s))) + mset done)"

lemma live_upd:
  assumes "i < length xs"
  shows "length (filter P xs) + (if P y then 1 else 0) = length (filter P (xs[i := y])) + (if P (xs ! i) then 1 else 0)"
  using assms
proof (induction xs arbitrary: i)
  case (Cons x xs)
  show ?case
  proof (cases i)
    case (Suc k)
    with Cons.prems Cons.IH [of k] show ?thesis by (cases "P x") simp_all
  qed simp
qed simp

lemma held_upd:
  "i < length xs \<Longrightarrow>
   mset (concat (map held (xs[i := y]))) + mset (held (xs ! i)) = mset (concat (map held xs)) + mset (held y)"
proof (induction xs arbitrary: i)
  case (Cons x xs)
  then show ?case by (cases i) (auto simp: ac_simps)
qed simp

lemma live_pos: "i < length (f_workers s) \<Longrightarrow> f_workers s ! i \<noteq> FGone \<Longrightarrow> 0 < live s"
  using nth_mem [of i "f_workers s"] by (auto simp: live_def filter_empty_conv)

lemma live_le: "live s \<le> length (f_workers s)"
  by (simp add: live_def)

lemma u32_zero_iff: "n < 2 ^ 32 \<Longrightarrow> (word_of_int (int n) :: u32) = 0 \<longleftrightarrow> n = 0"
  by (auto simp: word_of_nat_eq_0_iff dest: dvd_imp_le)

lemma inv_new_fetch: "0 < poolSize \<Longrightarrow> fetch_inv poolSize ws (new_fetch poolSize ws)"
  by (auto simp: fetch_inv_def new_fetch_def live_def intro: exI [of _ "[]"])

lemma live_worker:
  assumes "i < length (f_workers s)"
  shows "f_workers s ! i \<noteq> FGone \<Longrightarrow> w \<noteq> FGone \<Longrightarrow>
      length (filter (\<lambda>w. w \<noteq> FGone) ((f_workers s)[i := w])) = live s"
    and "f_workers s ! i \<noteq> FGone \<Longrightarrow>
      Suc (length (filter (\<lambda>w. w \<noteq> FGone) ((f_workers s)[i := FGone]))) = live s"
  using live_upd [OF assms, of "\<lambda>w. w \<noteq> FGone" w] live_upd [OF assms, of "\<lambda>w. w \<noteq> FGone" FGone]
  by (simp_all add: live_def)

lemma leave_inv:
  assumes inv: "fetch_inv poolSize ws s" and p: "0 < poolSize" "poolSize < 2 ^ 32"
    and i: "i < length (f_workers s)" "f_workers s ! i = FIdle" and closed: "f_requestsClosed s"
    and s': "s' = fleave (s\<lparr>f_workers := (f_workers s)[i := FGone]\<rparr>)"
  shows "fetch_inv poolSize ws s'"
proof -
  let ?s = "s\<lparr>f_workers := (f_workers s)[i := FGone]\<rparr>"
  obtain ds where ds: "list_all2 answers ds (f_got s)"
    "mset ws = mset (f_todo s) + mset (concat (map held (f_workers s))) + mset ds"
    using inv unfolding fetch_inv_def by blast
  note v = inv [unfolded fetch_inv_def]
  have l: "Suc (live ?s) = live s" using live_worker(2) [of i s] i by (simp add: live_def)
  have c: "f_count s - 1 = word_of_int (int (live ?s))"
    using v [THEN conjunct2, THEN conjunct1] unfolding l [symmetric] by simp
  have "live s \<le> nat poolSize" using v live_le [of s] by simp
  then have z: "(word_of_int (int (live ?s)) :: u32) = 0 \<longleftrightarrow> live ?s = 0"
    using l p by (intro u32_zero_iff) simp
  have "mset (concat (map held ((f_workers s)[i := FGone]))) = mset (concat (map held (f_workers s)))"
    using held_upd [of i "f_workers s" FGone] i by simp
  moreover have "\<not> f_dataClosed s" using v l by auto
  moreover have "live (fleave ?s) = live ?s" by (simp add: fleave_def live_def Let_def)
  ultimately show ?thesis
    using v i closed s' ds c z p(1) by (auto simp: fetch_inv_def fleave_def Let_def)
qed

lemma fetch_inv_step:
  assumes inv: "fetch_inv poolSize ws s" and p: "0 < poolSize" "poolSize < 2 ^ 32"
    and step: "fetch_step s e s'"
  shows "fetch_inv poolSize ws s'"
proof -
  obtain ds where ds: "list_all2 answers ds (f_got s)"
    "mset ws = mset (f_todo s) + mset (concat (map held (f_workers s))) + mset ds"
    using inv unfolding fetch_inv_def by blast
  note i = inv [unfolded fetch_inv_def]
  from step show ?thesis
  proof cases
    case (hand j js i)
    have "mset ws = mset js + mset (concat (map held ((f_workers s)[i := FBusy j]))) + mset ds"
      using ds(2) held_upd [of i "f_workers s" "FBusy j"] hand by simp
    moreover have "FGone \<notin> set ((f_workers s)[i := FBusy j])"
      using i hand set_update_subset_insert [of "f_workers s" i "FBusy j"] by auto
    moreover have "live s' = live s"
      using live_worker(1) [of i s "FBusy j"] hand by (simp add: live_def)
    ultimately show ?thesis
      using i hand ds(1) live_pos [of i s] by (auto simp: fetch_inv_def)
  next
    case (reply i j result)
    have "mset ws = mset (f_todo s) + mset (concat (map held ((f_workers s)[i := FIdle]))) + mset (ds @ [j])"
      using ds(2) held_upd [of i "f_workers s" FIdle] reply by simp
    moreover have "list_all2 answers (ds @ [j]) (f_got s @ [result])"
      using ds(1) reply by (simp add: list_all2_appendI)
    moreover have "FGone \<in> set (f_workers s)" if "FGone \<in> set ((f_workers s)[i := FIdle])"
      using that set_update_subset_insert [of "f_workers s" i FIdle] by auto
    moreover have "live s' = live s"
      using live_worker(1) [of i s FIdle] reply by (simp add: live_def)
    ultimately show ?thesis
      using i reply by (auto simp: fetch_inv_def)
  next
    case (reply_closed i j result)
    then show ?thesis using i live_pos [of i s] by simp
  next
    case (leave i)
    then show ?thesis using leave_inv [OF inv p] by simp
  qed (use i in \<open>auto simp: fetch_inv_def live_def\<close>)
qed

lemma freach_inv:
  "freach poolSize ws s \<Longrightarrow> 0 < poolSize \<Longrightarrow> poolSize < 2 ^ 32 \<Longrightarrow> fetch_inv poolSize ws s"
  by (induction rule: freach.induct) (auto simp: inv_new_fetch fstep_iff intro: fetch_inv_step)

section \<open>Progress and termination\<close>

lemma worker_kinds:
  obtains (gone) "live s = 0" | (busy) k j where "k < length (f_workers s)" "f_workers s ! k = FBusy j"
    | (idle) k where "k < length (f_workers s)" "f_workers s ! k = FIdle"
proof (cases "live s = 0")
  case False
  then obtain w where "w \<in> set (f_workers s)" "w \<noteq> FGone"
    by (auto simp: live_def filter_empty_conv)
  then obtain k where k: "k < length (f_workers s)" "f_workers s ! k \<noteq> FGone"
    by (metis in_set_conv_nth)
  then show thesis by (cases "f_workers s ! k") (auto intro: busy idle)
qed (rule gone)

lemma fetch_progress:
  assumes inv: "fetch_inv poolSize ws s" and p: "0 < poolSize" and r: "\<not> f_returned s"
  shows "\<exists>e s'. fetch_step s e s'"
proof -
  note i = inv [unfolded fetch_inv_def]
  consider (gone) "live s = 0" | (busy) k j where "k < length (f_workers s)" "f_workers s ! k = FBusy j"
    | (idle) k where "k < length (f_workers s)" "f_workers s ! k = FIdle" by (rule worker_kinds)
  then show ?thesis
  proof cases
    case gone
    then have "f_panic s = None" "f_dataClosed s" using i p by simp_all
    from return [OF this r] show ?thesis by blast
  next
    case (busy k j)
    have "f_panic s = None" "\<not> f_dataClosed s" using i busy live_pos [of k s] by simp_all
    from reply [OF this(1) busy serve_answers this(2) r] show ?thesis by blast
  next
    case (idle k)
    have pn: "f_panic s = None" using i by simp
    show ?thesis
    proof (cases "f_todo s")
      case Nil
      show ?thesis
      proof (cases "f_requestsClosed s")
        case True
        from leave [OF pn idle this] show ?thesis by blast
      next
        case False
        from close_requests [OF pn Nil this] show ?thesis by blast
      qed
    next
      case (Cons j js)
      from hand [OF pn this idle] show ?thesis by blast
    qed
  qed
qed

fun fworker_cost :: "fworker \<Rightarrow> nat" where
  "fworker_cost FIdle = 1"
| "fworker_cost (FBusy j) = 2"
| "fworker_cost FGone = 0"

definition fetch_left :: "fetch \<Rightarrow> nat" where
  "fetch_left s =
     2 * length (f_todo s) + (if f_requestsClosed s then 0 else 1) +
     sum_list (map fworker_cost (f_workers s)) + (if f_returned s then 0 else 1)"

lemma fworker_cost_upd:
  "i < length xs \<Longrightarrow>
   sum_list (map fworker_cost (xs[i := y])) + fworker_cost (xs ! i) = sum_list (map fworker_cost xs) + fworker_cost y"
proof (induction xs arbitrary: i)
  case (Cons x xs)
  then show ?case by (cases i) auto
qed simp

lemma fetch_step_left:
  assumes "fetch_step s e s'" and "f_panic s' = None"
  shows "fetch_left s' < fetch_left s"
  using assms(1)
proof cases
  case (hand j js i)
  with fworker_cost_upd [of i "f_workers s" "FBusy j"] show ?thesis by (simp add: fetch_left_def)
next
  case (reply i j result)
  with fworker_cost_upd [of i "f_workers s" FIdle] show ?thesis by (simp add: fetch_left_def)
next
  case (leave i)
  with fworker_cost_upd [of i "f_workers s" FGone] show ?thesis by (simp add: fetch_left_def fleave_def Let_def)
qed (use assms(2) in \<open>simp_all add: fetch_left_def\<close>)

lemma frun_reach: "freach poolSize ws s \<Longrightarrow> frun es s = Some s' \<Longrightarrow> freach poolSize ws s'"
  by (induction es arbitrary: s) (auto split: option.splits intro: freach_step)

lemma frun_bound:
  assumes "freach poolSize ws s" and "0 < poolSize" and "poolSize < 2 ^ 32" and "frun es s = Some s'"
  shows "fetch_left s' + length es \<le> fetch_left s"
  using assms(1,4)
proof (induction es arbitrary: s)
  case (Cons e es)
  obtain s1 where s1: "fstep e s = Some s1" "frun es s1 = Some s'"
    using Cons.prems(2) by (auto split: option.splits)
  have "freach poolSize ws s1" by (rule freach_step [OF Cons.prems(1) s1(1)])
  moreover from this have "f_panic s1 = None" using freach_inv assms(2,3) by (auto simp: fetch_inv_def)
  then have "fetch_left s1 < fetch_left s" using s1(1) by (intro fetch_step_left) (simp_all add: fstep_iff)
  ultimately show ?case using Cons.IH [OF _ s1(2)] by fastforce
qed simp

section \<open>Collecting the replies\<close>

lemma fetch_answered:
  assumes "freach poolSize ws s" and "0 < poolSize" and "poolSize < 2 ^ 32" and "f_returned s"
  shows "rel_mset answers (mset ws) (mset (f_got s))"
proof -
  note i = freach_inv [OF assms(1-3), unfolded fetch_inv_def]
  have gone: "live s = 0" "f_dataClosed s" using i assms(4) by blast+
  then have "\<forall>w \<in> set (f_workers s). w = FGone" by (auto simp: live_def filter_empty_conv)
  moreover have "f_workers s \<noteq> []" using i assms(2) by auto
  ultimately have "FGone \<in> set (f_workers s)" and h: "concat (map held (f_workers s)) = []"
    by (auto simp: neq_Nil_conv)
  then have t: "f_todo s = []" using i by blast
  obtain ds where "list_all2 answers ds (f_got s)"
    "mset ws = mset (f_todo s) + mset (concat (map held (f_workers s))) + mset ds" using i by blast
  then have "list_all2 answers ds (f_got s)" "mset ws = mset ds" unfolding t h by simp_all
  then show ?thesis by (auto simp: rel_mset_def)
qed

definition fetch_accepts :: "int \<Rightarrow> work list \<Rightarrow> bool" where
  "fetch_accepts poolSize ws \<longleftrightarrow> 0 < poolSize \<and> poolSize < 2 ^ 32"

text \<open>What the loop of \<^verbatim>\<open>getBeaconHeaders\<close> can have read when it ends.\<close>

definition fetch_collects :: "int \<Rightarrow> work list \<Rightarrow> reply list \<Rightarrow> bool" where
  "fetch_collects poolSize ws cs \<longleftrightarrow>
     fetch_accepts poolSize ws \<and> (\<exists>s. freach poolSize ws s \<and> f_returned s \<and> f_got s = cs)"

text \<open>The first worker handles all requests, then all workers leave.\<close>

definition fetch_by_one :: "int \<Rightarrow> work list \<Rightarrow> reply list \<Rightarrow> fetch" where
  "fetch_by_one poolSize todo got = (new_fetch poolSize todo)\<lparr>f_got := got\<rparr>"

lemma fetch_by_one_run:
  "list_all2 answers todo as \<Longrightarrow> 0 < poolSize \<Longrightarrow>
   freach poolSize ws (fetch_by_one poolSize todo got) \<Longrightarrow>
   freach poolSize ws (fetch_by_one poolSize [] (got @ as))"
proof (induction arbitrary: got rule: list_all2_induct)
  case (Cons j todo a as)
  have "frun [FHand 0, FReply 0 a] (fetch_by_one poolSize (j # todo) got) =
      Some (fetch_by_one poolSize todo (got @ [a]))"
    using Cons.hyps(1) Cons.prems(1) by (cases "nat poolSize") (simp_all add: fetch_by_one_def new_fetch_def fstep_def)
  from frun_reach [OF Cons.prems(2) this] Cons.IH [OF Cons.prems(1), of "got @ [a]"] show ?case by simp
qed simp

text \<open>A state in which the first \<open>k\<close> workers have left.\<close>

definition fetch_leaving :: "nat \<Rightarrow> nat \<Rightarrow> reply list \<Rightarrow> fetch" where
  "fetch_leaving n k got =
     \<lparr>f_todo = [], f_requestsClosed = True, f_workers = replicate k FGone @ replicate (n - k) FIdle,
      f_count = of_nat (n - k), f_dataClosed = (n = k), f_got = got, f_returned = False,
      f_panic = None\<rparr>"

lemma fetch_leave_step:
  assumes "k < n" and "n < 2 ^ 32"
  shows "fstep (FLeave k) (fetch_leaving n k got) = Some (fetch_leaving n (Suc k) got)"
proof -
  have c: "(of_nat (n - k) :: u32) - 1 = of_nat (n - Suc k)"
    using assms(1) by (simp add: Suc_diff_Suc [symmetric] del: diff_Suc_Suc of_nat_diff)
  have "(of_nat (n - Suc k) :: u32) = 0 \<longleftrightarrow> n - Suc k = 0"
    using assms u32_zero_iff [of "n - Suc k"] by (simp del: of_nat_diff)
  then have z: "(of_nat (n - Suc k) :: u32) = 0 \<longleftrightarrow> n = Suc k" using assms(1) by auto
  have w: "(replicate k FGone @ replicate (n - k) FIdle)[k := FGone] =
      replicate (Suc k) FGone @ replicate (n - Suc k) FIdle"
  proof -
    have "replicate (n - k) FIdle = FIdle # replicate (n - Suc k) FIdle"
      using assms(1) by (metis Suc_diff_Suc replicate_Suc)
    then show ?thesis by (simp add: list_update_append replicate_app_Cons_same)
  qed
  show ?thesis
    using assms(1) c z w by (simp add: fstep_def fetch_leaving_def fleave_def nth_append Let_def
        del: replicate.simps(2) of_nat_diff)
qed

lemma fetch_all_leave:
  assumes "n < 2 ^ 32" and "freach poolSize ws (fetch_leaving n 0 got)"
  shows "k \<le> n \<Longrightarrow> freach poolSize ws (fetch_leaving n k got)"
proof (induction k)
  case (Suc k)
  then show ?case using fetch_leave_step [of k n got] assms(1) by (auto intro: freach_step)
qed (rule assms(2))

interpretation fw: collector fetch_accepts fetch_collects
proof
  fix poolSize :: int and ws cs
  show "rel_mset answers (mset ws) (mset cs)" if "fetch_collects poolSize ws cs"
    using that fetch_answered by (auto simp: fetch_collects_def fetch_accepts_def)
  show "fetch_collects poolSize ws cs" if acc: "fetch_accepts poolSize ws" and ans: "list_all2 answers ws cs"
  proof -
    have p: "0 < poolSize" "nat poolSize < 2 ^ 32" using acc by (auto simp: fetch_accepts_def)
    have "freach poolSize ws (fetch_by_one poolSize [] cs)"
      using fetch_by_one_run [OF ans p(1), of ws "[]"] freach_init [of poolSize ws]
      by (simp add: fetch_by_one_def new_fetch_def)
    moreover have "fstep FCloseRequests (fetch_by_one poolSize [] cs) = Some (fetch_leaving (nat poolSize) 0 cs)"
      using p(1) of_int_of_nat [of poolSize] by (simp add: fstep_def fetch_by_one_def new_fetch_def fetch_leaving_def)
    ultimately have "freach poolSize ws (fetch_leaving (nat poolSize) 0 cs)" by (rule freach_step)
    from fetch_all_leave [OF p(2) this order_refl] have
      "freach poolSize ws (fetch_leaving (nat poolSize) (nat poolSize) cs)" .
    moreover have "fstep FReturn (fetch_leaving (nat poolSize) (nat poolSize) cs) =
        Some ((fetch_leaving (nat poolSize) (nat poolSize) cs)\<lparr>f_returned := True\<rparr>)"
      by (simp add: fstep_def fetch_leaving_def)
    ultimately have "freach poolSize ws ((fetch_leaving (nat poolSize) (nat poolSize) cs)\<lparr>f_returned := True\<rparr>)"
      by (rule freach_step)
    then show ?thesis using acc by (force simp: fetch_collects_def fetch_leaving_def)
  qed
qed

text \<open>Without a worker the channel of replies is never closed.\<close>

lemma fetch_no_worker:
  "freach poolSize ws s \<Longrightarrow> poolSize \<le> 0 \<Longrightarrow> f_workers s = [] \<and> \<not> f_dataClosed s \<and> \<not> f_returned s"
proof (induction rule: freach.induct)
  case (freach_step s e s')
  then have "fetch_step s e s'" by (simp add: fstep_iff)
  then show ?case using freach_step by cases auto
qed (simp add: new_fetch_def)

section \<open>Properties\<close>

text \<open>
  (C23) \<^verbatim>\<open>getBeaconHeaders\<close> returns, with everything: with at least one worker (and fewer than
  \<open>2 ^ 32\<close>), in every interleaving, no step fails, at most twice the number of requests plus the
  number of workers plus two steps can happen, and as long as the caller has not returned a step
  is possible. When it has returned, it has read exactly one answer per request.
\<close>

theorem fetch_returns:
  assumes "0 < poolSize" and "poolSize < 2 ^ 32" and "frun es (new_fetch poolSize ws) = Some s"
  shows "f_panic s = None \<and> length es \<le> 2 * length ws + nat poolSize + 2 \<and>
    (f_returned s \<or> (\<exists>e s'. fstep e s = Some s')) \<and>
    (f_returned s \<longrightarrow> rel_mset answers (mset ws) (mset (f_got s)))"
proof -
  have r: "freach poolSize ws s" by (rule frun_reach [OF freach_init assms(3)])
  note inv = freach_inv [OF r assms(1,2)]
  have "fetch_left (new_fetch poolSize ws) = 2 * length ws + nat poolSize + 2"
    by (simp add: fetch_left_def new_fetch_def map_replicate_const sum_list_replicate)
  then have "length es \<le> 2 * length ws + nat poolSize + 2"
    using frun_bound [OF freach_init assms] by simp
  moreover have "f_panic s = None" using inv by (simp add: fetch_inv_def)
  moreover have "f_returned s \<or> (\<exists>e s'. fstep e s = Some s')"
    using fetch_progress [OF inv assms(1)] by (simp only: fstep_iff) blast
  ultimately show ?thesis using fetch_answered [OF r assms(1,2)] by blast
qed

theorem fetch_returns_witness:
  "length [FHand 1, FCloseRequests] \<le> 2 * length [\<lparr>wk_address = ''a'', wk_rpc = ''r'', wk_body = []\<rparr>] + nat 2 + 2 \<and>
   f_panic (the (frun [FHand 1, FCloseRequests] (new_fetch 2 [\<lparr>wk_address = ''a'', wk_rpc = ''r'', wk_body = []\<rparr>]))) = None"
proof -
  let ?w = "[\<lparr>wk_address = ''a'', wk_rpc = ''r'', wk_body = []\<rparr>]"
  have "\<exists>s. frun [FHand 1, FCloseRequests] (new_fetch 2 ?w) = Some s"
    by (simp add: new_fetch_def fstep_def numeral_2_eq_2)
  then obtain s where s: "frun [FHand 1, FCloseRequests] (new_fetch 2 ?w) = Some s" by blast
  from fetch_returns [OF _ _ s] show ?thesis unfolding s by simp
qed

text \<open>
  With a pool size of zero or below (the configuration check only refuses zero),
  \<^verbatim>\<open>getBeaconHeaders\<close> never returns, not even when there is nothing to request: no worker ever
  closes the channel that its loop reads.
\<close>

theorem fetch_without_workers:
  assumes "poolSize \<le> 0" and "frun es (new_fetch poolSize ws) = Some s"
  shows "\<not> f_returned s"
  using fetch_no_worker [OF frun_reach [OF freach_init assms(2)] assms(1)] by simp

theorem fetch_without_workers_witness:
  "\<not> f_returned (the (frun [FCloseRequests] (new_fetch (- 1) [])))"
proof -
  obtain s where s: "frun [FCloseRequests] (new_fetch (- 1) []) = Some s"
    by (simp add: new_fetch_def fstep_def)
  from fetch_without_workers [OF _ s] show ?thesis unfolding s by simp
qed

end
