(* ===== verification/Beacon.thy ===== *)
theory Beacon
  imports Fetch Stall Manager
begin

text \<open>
  \<^verbatim>\<open>beacon-monitor.go\<close>: \<^verbatim>\<open>getBeaconHeaders\<close> from the replies it reads (how it gets them is in the
  theory on its goroutines), \<^verbatim>\<open>beaconSyncMonitor\<close> and \<^verbatim>\<open>checkBeaconSync\<close>.
\<close>

section \<open>getBeaconHeaders\<close>

definition beacon_jobs :: "((string \<times> int) list \<Rightarrow> (string \<times> int) list) \<Rightarrow> shardMap \<Rightarrow> work list" where
  "beacon_jobs ord shardMap =
     jobs_for LatestHeadersRPC (keys (filter (\<lambda>ns. snd ns \<noteq> 0) (ord shardMap)))"

definition header_pair :: "string \<Rightarrow> HeaderPair" where
  "header_pair result = Unmarshal (dec_result dec_HeaderPair) result zero_HeaderPair"

text \<open>A machine that did not answer has the nil pointer.\<close>

definition getBeaconHeaders :: "reply list \<Rightarrow> (string, Header option) gomap" where
  "getBeaconHeaders cs =
     fold (\<lambda>d ret.
       let ret = AList.update (rp_address d) None ret
       in if rp_oops d = None
          then AList.update (rp_address d) (Some (hp_Beacon (header_pair (rp_rpcResult d)))) ret
          else ret) cs []"

section \<open>beaconSyncMonitor\<close>

definition beacon_call ::
  "u64 \<Rightarrow> u64 \<Rightarrow> u64 \<Rightarrow> string \<Rightarrow> string \<Rightarrow> string \<times> Header option \<Rightarrow> call list" where
  "beacon_call beaconBlock interval threshold pdServiceKey chain e =
     (case snd e of
        None \<Rightarrow> []
      | Some header \<Rightarrow>
          if h_Number header < beaconBlock \<and> threshold \<le> beaconBlock - h_Number header
          then [Go_checkBeaconSync (h_Number header) beaconBlock threshold interval (fst e)
                  pdServiceKey chain]
          else [])"

text \<open>\<^verbatim>\<open>shardBeaconMap\<close>: the set of beacon heights per shard.\<close>

definition shard_beacon ::
  "shardMap \<Rightarrow> string \<times> Header option \<Rightarrow> (int, (u64, bool) gomap) gomap \<Rightarrow> (int, (u64, bool) gomap) gomap"
where
  "shard_beacon shardMap e sbm =
     (case snd e of
        None \<Rightarrow> sbm
      | Some header \<Rightarrow>
          (let k = shard_of shardMap (fst e);
               sbm = (if map_of sbm k = None then AList.update k [] sbm else sbm);
               blocks = (case map_of sbm k of None \<Rightarrow> [] | Some bs \<Rightarrow> bs)
           in if map_of blocks (h_Number header) = None
              then AList.update k (AList.update (h_Number header) True blocks) sbm
              else sbm))"

text \<open>
  The goroutines that are started, and for every shard but 0 the unique heights in descending
  order, which are logged. \<open>ord\<close> is the order of the headers; the two loops over the maps of
  heights have their own.
\<close>

definition beaconSyncMonitor ::
  "((string \<times> Header option) list \<Rightarrow> (string \<times> Header option) list) \<Rightarrow>
   ((int \<times> (u64, bool) gomap) list \<Rightarrow> (int \<times> (u64, bool) gomap) list) \<Rightarrow>
   ((u64 \<times> bool) list \<Rightarrow> (u64 \<times> bool) list) \<Rightarrow>
   u64 \<Rightarrow> u64 \<Rightarrow> u64 \<Rightarrow> string \<Rightarrow> string \<Rightarrow> shardMap \<Rightarrow> reply list \<Rightarrow> call list \<times> (int \<times> u64 list) list" where
  "beaconSyncMonitor ord ord' ord'' beaconBlock interval threshold pdServiceKey chain shardMap cs =
     (let currentBeaconHeaders = ord (getBeaconHeaders cs);
          shardBeaconMap = fold (shard_beacon shardMap) currentBeaconHeaders []
      in (concat (map (beacon_call beaconBlock interval threshold pdServiceKey chain) currentBeaconHeaders),
          concat (map (\<lambda>(shard, blocks).
            if shard \<noteq> 0 then [(shard, sort_desc (keys (ord'' blocks)))] else []) (ord' shardBeaconMap))))"

section \<open>checkBeaconSync\<close>

text \<open>\<open>http\<close> is the network after the sleep of \<^verbatim>\<open>syncTimer\<close> seconds.\<close>

definition checkBeaconSync ::
  "(V2Event \<Rightarrow> string option) \<Rightarrow> http \<Rightarrow> u64 \<Rightarrow> u64 \<Rightarrow> u64 \<Rightarrow> string \<Rightarrow> string \<Rightarrow> string \<Rightarrow> action list" where
  "checkBeaconSync pd http blockNum beaconHeight threshold IP pdServiceKey chain =
     (let (result, _, err) = request http (''http://'' @ IP) (rpc_body LatestHeadersRPC)
      in case err of
           Some _ \<Rightarrow> []
         | None \<Rightarrow>
             (let headers = header_pair result; number = h_Number (hp_Beacon headers)
              in if \<not> blockNum < number \<and> threshold < beaconHeight - number then
                   (let message = Sprintf beaconSyncMessage
                          [AStr IP, AInt ''uint64'' (uint number), AInt ''uint64'' (uint beaconHeight),
                           AInt ''uint32'' (uint (h_ShardID (hp_AuxShard headers))), AStr chain];
                        incidentKey = Sprintf ''%s beacon out of sync! - %s'' [AStr IP, AStr chain]
                    in raise_alert pd ''[checkBeaconSync] Sent PagerDuty alert! '' pdServiceKey incidentKey
                         chain message)
                 else []))"

section \<open>The table of headers\<close>

definition beacon_of :: "reply \<Rightarrow> Header option" where
  "beacon_of d = (if rp_oops d = None then Some (hp_Beacon (header_pair (rp_rpcResult d))) else None)"

lemma getBeaconHeaders_fold:
  "getBeaconHeaders cs = fold (\<lambda>d. AList.update (rp_address d) (beacon_of d)) cs []"
  unfolding getBeaconHeaders_def by (rule fold_cong) (auto simp: fun_eq_iff beacon_of_def)

lemma gomap_getBeaconHeaders [simp]: "gomap (getBeaconHeaders cs)"
  by (simp add: getBeaconHeaders_fold gomap_fold_update)

lemma update_new: "k \<notin> fst ` set m \<Longrightarrow> AList.update k v m = m @ [(k, v)]"
  by (induction m) auto

text \<open>With one reply per address, the table is the list of the replies.\<close>

lemma getBeaconHeaders_distinct:
  assumes "distinct (map rp_address cs)"
  shows "getBeaconHeaders cs = map (\<lambda>d. (rp_address d, beacon_of d)) cs"
proof -
  have "fold (\<lambda>d. AList.update (rp_address d) (beacon_of d)) cs m =
      m @ map (\<lambda>d. (rp_address d, beacon_of d)) cs"
    if "distinct (map rp_address cs)" "rp_address ` set cs \<inter> fst ` set m = {}" for m
    using that
  proof (induction cs arbitrary: m)
    case (Cons d cs)
    have "AList.update (rp_address d) (beacon_of d) m = m @ [(rp_address d, beacon_of d)]"
      using Cons.prems(2) by (intro update_new) auto
    then show ?case using Cons.prems Cons.IH [of "m @ [(rp_address d, beacon_of d)]"] by auto
  qed simp
  from this [OF assms, of "[]"] show ?thesis by (simp add: getBeaconHeaders_fold)
qed

section \<open>The heights per shard\<close>

definition heights_of :: "(int, (u64, bool) gomap) gomap \<Rightarrow> int \<Rightarrow> (u64, bool) gomap" where
  "heights_of sbm k = (case map_of sbm k of None \<Rightarrow> [] | Some bs \<Rightarrow> bs)"

lemma heights_of_shard_beacon:
  "heights_of (shard_beacon sm e sbm) k =
     (case snd e of
        Some h \<Rightarrow>
          if shard_of sm (fst e) = k \<and> map_of (heights_of sbm k) (h_Number h) = None
          then AList.update (h_Number h) True (heights_of sbm k) else heights_of sbm k
      | None \<Rightarrow> heights_of sbm k)"
  by (auto simp: shard_beacon_def heights_of_def map_of_update_eq Let_def split: option.splits)

lemma heights_shard_beacon:
  "fst ` set (heights_of (shard_beacon sm e sbm) k) =
     fst ` set (heights_of sbm k) \<union>
     (case snd e of Some h \<Rightarrow> if shard_of sm (fst e) = k then {h_Number h} else {} | None \<Rightarrow> {})"
  by (auto simp: heights_of_shard_beacon dom_update map_of_eq_None_iff split: option.splits)

lemma keys_shard_beacon:
  "fst ` set (shard_beacon sm e sbm) =
     fst ` set sbm \<union> (case snd e of Some h \<Rightarrow> {shard_of sm (fst e)} | None \<Rightarrow> {})"
  by (auto simp: shard_beacon_def dom_update Let_def map_of_eq_None_iff split: option.splits)

definition heights_ok :: "(int, (u64, bool) gomap) gomap \<Rightarrow> bool" where
  "heights_ok sbm \<longleftrightarrow> gomap sbm \<and> (\<forall>k. gomap (heights_of sbm k))"

lemma heights_ok_shard_beacon: "heights_ok sbm \<Longrightarrow> heights_ok (shard_beacon sm e sbm)"
  by (auto simp: heights_ok_def heights_of_shard_beacon split: option.splits)
     (auto simp: shard_beacon_def Let_def split: option.splits)

lemma fold_shard_beacon:
  fixes es :: "(string \<times> Header option) list"
  shows "heights_ok sbm \<Longrightarrow> heights_ok (fold (shard_beacon sm) es sbm)"
    and "fst ` set (heights_of (fold (shard_beacon sm) es sbm) k) =
      fst ` set (heights_of sbm k) \<union> {h_Number h |h ip. (ip, Some h) \<in> set es \<and> shard_of sm ip = k}"
    and "fst ` set (fold (shard_beacon sm) es sbm) =
      fst ` set sbm \<union> {shard_of sm ip |h ip. (ip, Some h) \<in> set es}"
proof -
  show "heights_ok sbm \<Longrightarrow> heights_ok (fold (shard_beacon sm) es sbm)"
    by (induction es arbitrary: sbm) (simp_all add: heights_ok_shard_beacon)
  show "fst ` set (heights_of (fold (shard_beacon sm) es sbm) k) =
      fst ` set (heights_of sbm k) \<union> {h_Number h |h ip. (ip, Some h) \<in> set es \<and> shard_of sm ip = k}"
  proof (induction es arbitrary: sbm)
    case (Cons e es)
    then show ?case by (cases e; cases "snd e") (auto simp: heights_shard_beacon)
  qed simp
  show "fst ` set (fold (shard_beacon sm) es sbm) =
      fst ` set sbm \<union> {shard_of sm ip |h ip. (ip, Some h) \<in> set es}"
  proof (induction es arbitrary: sbm)
    case (Cons e es)
    then show ?case by (cases e; cases "snd e") (auto simp: keys_shard_beacon)
  qed simp
qed

section \<open>Which nodes are checked\<close>

lemma behind_iff:
  fixes beaconBlock :: u64
  shows "number < beaconBlock \<and> threshold \<le> beaconBlock - number \<longleftrightarrow>
    uint number < uint beaconBlock \<and> uint number + uint threshold \<le> uint beaconBlock"
proof (cases "number < beaconBlock")
  case True
  then have "uint (beaconBlock - number) = uint beaconBlock - uint number"
    by (simp add: uint_minus_simple_alt [THEN iffD1] word_le_def word_less_def)
  then show ?thesis using True by (simp add: word_less_def word_le_def) linarith
qed (simp add: word_less_def)

definition beacon_number :: "reply \<Rightarrow> u64" where
  "beacon_number d = h_Number (hp_Beacon (header_pair (rp_rpcResult d)))"

lemma beacon_calls:
  "concat (map (beacon_call beaconBlock interval threshold key chain) (map (\<lambda>d. (rp_address d, beacon_of d)) cs)) =
     map (\<lambda>d. Go_checkBeaconSync (beacon_number d) beaconBlock threshold interval (rp_address d) key chain)
       (filter (\<lambda>d. rp_oops d = None \<and> uint (beacon_number d) < uint beaconBlock \<and>
          uint (beacon_number d) + uint threshold \<le> uint beaconBlock) cs)"
  by (induction cs) (auto simp: beacon_call_def beacon_of_def beacon_number_def behind_iff)

section \<open>Properties\<close>

lemma heights_logged:
  assumes "range_order ord1" and "range_order ord2" and "range_order ord3"
    and "(k, bs) \<in> set (ord2 (fold (shard_beacon shardMap) (ord1 (map (\<lambda>d. (rp_address d, beacon_of d)) cs)) []))"
  shows "sorted_wrt (>) (sort_desc (keys (ord3 bs))) \<and>
    set (sort_desc (keys (ord3 bs))) =
      {beacon_number d |d. d \<in> set cs \<and> rp_oops d = None \<and> shard_of shardMap (rp_address d) = k}"
proof -
  let ?es = "map (\<lambda>d. (rp_address d, beacon_of d)) cs"
  let ?sbm = "fold (shard_beacon shardMap) (ord1 ?es) []"
  have ok: "heights_ok ?sbm"
    by (rule fold_shard_beacon(1)) (simp add: heights_ok_def heights_of_def)
  have "(k, bs) \<in> set ?sbm" using assms(4) by (simp add: range_order_set [OF assms(2)])
  then have bs: "heights_of ?sbm k = bs" using ok by (simp add: heights_ok_def heights_of_def gomap_def)
  then have "gomap (ord3 bs)" using ok assms(3) by (auto simp: heights_ok_def)
  then have d: "distinct (keys (ord3 bs))" by (simp add: gomap_def)
  have "fst ` set bs = {h_Number h |h ip. (ip, Some h) \<in> set ?es \<and> shard_of shardMap ip = k}"
    using fold_shard_beacon(2) [of shardMap "ord1 ?es" "[]" k]
    unfolding bs range_order_set [OF assms(1)] by (simp add: heights_of_def [of "[]"])
  also have "\<dots> = {beacon_number d |d. d \<in> set cs \<and> rp_oops d = None \<and> shard_of shardMap (rp_address d) = k}"
    by (force simp: beacon_of_def beacon_number_def split: if_splits)
  finally show ?thesis using sort_desc_strict [OF d] by (simp add: range_order_set [OF assms(3)])
qed

text \<open>
  (C24) The beacon check of the consensus monitor looks at exactly the configured machines outside
  shard 0, each once, and starts exactly one synchronisation check for each of them that answers
  with a beacon height below the beacon chain's by at least the threshold; nothing wraps around.
  For each such shard it logs the distinct heights in descending order.
\<close>

theorem beacon_checks_started:
  assumes "gomap shardMap" and "range_order ord" and "range_order ord1" and "range_order ord2" and "range_order ord3"
    and "fetch_collects poolSize (beacon_jobs ord shardMap) cs"
  shows "mset (map rp_address cs) = mset (keys (filter (\<lambda>ns. snd ns \<noteq> 0) shardMap)) \<and>
    mset (fst (beaconSyncMonitor ord1 ord2 ord3 beaconBlock interval threshold key chain shardMap cs)) =
      mset (map (\<lambda>d. Go_checkBeaconSync (beacon_number d) beaconBlock threshold interval (rp_address d) key chain)
        (filter (\<lambda>d. rp_oops d = None \<and> uint (beacon_number d) < uint beaconBlock \<and>
          uint (beacon_number d) + uint threshold \<le> uint beaconBlock) cs)) \<and>
    (\<forall>(shard, heights) \<in> set (snd (beaconSyncMonitor ord1 ord2 ord3 beaconBlock interval threshold key chain shardMap cs)).
      shard \<noteq> 0 \<and> sorted_wrt (>) heights \<and>
      set heights = {beacon_number d |d. d \<in> set cs \<and> rp_oops d = None \<and> shard_of shardMap (rp_address d) = shard})"
proof -
  let ?ks = "keys (filter (\<lambda>ns. snd ns \<noteq> 0) (ord shardMap))"
  let ?es = "map (\<lambda>d. (rp_address d, beacon_of d)) cs"
  have "mset (filter (\<lambda>ns. snd ns \<noteq> 0) (ord shardMap)) = mset (filter (\<lambda>ns. snd ns \<noteq> 0) shardMap)"
    using range_order_mset [OF assms(2), of shardMap] by simp
  then have ks: "mset ?ks = mset (keys (filter (\<lambda>ns. snd ns \<noteq> 0) shardMap))" by (simp only: mset_map)
  have adr: "mset (map rp_address cs) = mset ?ks"
    using fw.addresses [OF assms(6)] by (simp only: beacon_jobs_def jobs_for_simps)
  have "gomap (ord shardMap)" using assms(1,2) by simp
  then have "distinct ?ks" by (simp add: gomap_def distinct_map_filter)
  then have "distinct (map rp_address cs)" using adr mset_eq_imp_distinct_iff by blast
  then have t: "getBeaconHeaders cs = ?es" by (rule getBeaconHeaders_distinct)
  have c: "mset (concat (map f (ord1 ?es))) = mset (concat (map f ?es))" for f :: "string \<times> Header option \<Rightarrow> call list"
    by (rule range_order_concat [OF assms(3)])
  note h = heights_logged [OF assms(3-5), of _ _ shardMap cs]
  show ?thesis
    unfolding beaconSyncMonitor_def Let_def t fst_conv snd_conv
  proof (intro conjI)
    show "mset (map rp_address cs) = mset (keys (filter (\<lambda>ns. snd ns \<noteq> 0) shardMap))"
      using adr ks by simp
  qed (use c [of "beacon_call beaconBlock interval threshold key chain"] beacon_calls h in
      \<open>auto simp del: map_map mset_map split: if_splits\<close>)
qed

text \<open>
  (C25) A machine whose check was started (so its height was below the beacon chain's) is reported
  exactly if it answers again, its height has not grown and is still more than the threshold
  below. The subtraction cannot wrap around then.
\<close>

theorem checkBeaconSync_alerts_iff:
  assumes "blockNum < beaconHeight"
  shows "topics (checkBeaconSync pd http blockNum beaconHeight threshold IP key chain) =
    (let d = serve http \<lparr>wk_address = IP, wk_rpc = LatestHeadersRPC, wk_body = rpc_body LatestHeadersRPC\<rparr>
     in if rp_oops d = None \<and> beacon_number d \<le> blockNum \<and>
           uint (beacon_number d) + uint threshold < uint beaconHeight
        then [IP @ '' beacon out of sync! - '' @ chain] else [])"
proof -
  have "\<not> blockNum < n \<and> threshold < beaconHeight - n \<longleftrightarrow>
      n \<le> blockNum \<and> uint n + uint threshold < uint beaconHeight" for n
  proof (cases "n \<le> blockNum")
    case True
    then have "n \<le> beaconHeight" using assms by simp
    then have "uint (beaconHeight - n) = uint beaconHeight - uint n" by (simp add: uint_minus_simple_alt [THEN iffD1])
    then show ?thesis using True by (simp add: word_less_def word_le_def) linarith
  qed (simp add: not_le)
  then show ?thesis
    by (simp add: checkBeaconSync_def serve_def beacon_number_def case_prod_beta Let_def fmt_verb_def
        split: option.splits)
qed

text \<open>A network in which the machine of shard 1 is at block 7 of the beacon chain.\<close>

definition lagging_http :: http where
  "lagging_http rq = Inr (200, map (\<lambda>c. if c = CHR ''~'' then CHR 0x22 else c)
     ''{~result~:{~beacon-chain-header~:{~block-number~:7},~shard-chain-header~:{~shard-id~:1}}}'')"

definition lagging_replies :: "reply list" where
  "lagging_replies = map (serve lagging_http) (beacon_jobs (\<lambda>xs. xs) sample_shardMap)"

lemma lagging_reply: "map (\<lambda>d. (rp_address d, rp_oops d, beacon_number d)) lagging_replies = [(''10.0.1.1:9500'', None, 7)]"
  by code_simp

theorem beacon_checks_started_witness:
  "mset (fst (beaconSyncMonitor rev rev rev 5000 70 1000 ''key'' ''testnet'' sample_shardMap lagging_replies)) =
     {#Go_checkBeaconSync 7 5000 1000 70 ''10.0.1.1:9500'' ''key'' ''testnet''#}"
proof -
  have g: "gomap sample_shardMap" by (simp add: gomap_def sample_shardMap_def)
  have c: "fetch_collects 4 (beacon_jobs (\<lambda>xs. xs) sample_shardMap) lagging_replies"
    unfolding lagging_replies_def by (rule fw.possible [OF _ serve_all]) (simp add: fetch_accepts_def)
  obtain d where d: "lagging_replies = [d]" "rp_address d = ''10.0.1.1:9500''" "rp_oops d = None" "beacon_number d = 7"
    using lagging_reply by (cases lagging_replies) auto
  show ?thesis
    using beacon_checks_started [OF g range_order_id range_order_rev range_order_rev range_order_rev c,
        THEN conjunct2, THEN conjunct1, of 5000 70 1000 "''key''" "''testnet''"]
    by (simp add: d)
qed

theorem checkBeaconSync_alerts_iff_witness:
  "topics (checkBeaconSync (\<lambda>_. None) lagging_http 7 5000 1000 ''a'' ''key'' ''testnet'') =
     [''a beacon out of sync! - testnet'']"
proof -
  have "(\<lambda>d. (rp_oops d, beacon_number d))
      (serve lagging_http \<lparr>wk_address = ''a'', wk_rpc = LatestHeadersRPC, wk_body = rpc_body LatestHeadersRPC\<rparr>) = (None, 7)"
    by code_simp
  then show ?thesis
    by (subst checkBeaconSync_alerts_iff) (simp_all add: Let_def)
qed

end
