(* ===== verification/Template.thy ===== *)
theory Template
  imports Prelude "HOL-Library.Char_ord" "HOL-Library.List_Lexorder"
begin

text \<open>
  The part of the standard library's template packages that the report uses: the lexer of
  \<^verbatim>\<open>text/template\<close>, a parser for actions without else branches, pipes and comments (anything
  else is refused), and the executor. The text between the actions is kept character by
  character; the escaping that \<^verbatim>\<open>html/template\<close> adds when a value is written is not part of the
  model, so the output of an execution is the list of characters and values in order.
\<close>

section \<open>Lexer\<close>

text \<open>Text, one open brace, inside an action, inside an action after one closing brace.\<close>

datatype lex_state = InText | Brace | InAction string | CloseBrace string

datatype token = TChar char | TAct string

fun lex_char :: "lex_state \<Rightarrow> char \<Rightarrow> lex_state \<times> token list" where
  "lex_char InText c = (if c = CHR ''{'' then (Brace, []) else (InText, [TChar c]))"
| "lex_char Brace c =
     (if c = CHR ''{'' then (InAction [], []) else (InText, [TChar (CHR ''{''), TChar c]))"
| "lex_char (InAction a) c = (if c = CHR ''}'' then (CloseBrace a, []) else (InAction (a @ [c]), []))"
| "lex_char (CloseBrace a) c =
     (if c = CHR ''}'' then (InText, [TAct a]) else (InAction (a @ [CHR ''}'', c]), []))"

fun lex_chars :: "lex_state \<Rightarrow> string \<Rightarrow> lex_state \<times> token list" where
  "lex_chars st [] = (st, [])"
| "lex_chars st (c # cs) =
     (let (st, ts) = lex_char st c; (st, us) = lex_chars st cs in (st, ts @ us))"

text \<open>At the end of the input an action must be closed; a single brace is text.\<close>

definition tokens :: "string \<Rightarrow> token list option" where
  "tokens s =
     (case lex_chars InText s of
        (InText, ts) \<Rightarrow> Some ts
      | (Brace, ts) \<Rightarrow> Some (ts @ [TChar (CHR ''{'')])
      | _ \<Rightarrow> None)"

section \<open>Actions\<close>

datatype lexeme = LWord string | LStr string | LOpen | LClose | LComma

definition flush :: "string \<Rightarrow> lexeme list" where
  "flush w = (if w = [] then [] else [LWord w])"

text \<open>The words of an action; \<open>Some s\<close> is the part of a string constant read so far.\<close>

fun lexemes :: "string option \<Rightarrow> string \<Rightarrow> string \<Rightarrow> lexeme list option" where
  "lexemes None w [] = Some (flush w)"
| "lexemes (Some s) w [] = None"
| "lexemes (Some s) w (c # cs) =
     (if c = CHR 0x22 then map_option ((#) (LStr s)) (lexemes None [] cs)
      else if c = CHR 0x5C then None
      else lexemes (Some (s @ [c])) w cs)"
| "lexemes None w (c # cs) =
     (if c = CHR '' '' then map_option ((@) (flush w)) (lexemes None [] cs)
      else if c = CHR ''('' then map_option (\<lambda>r. flush w @ LOpen # r) (lexemes None [] cs)
      else if c = CHR '')'' then map_option (\<lambda>r. flush w @ LClose # r) (lexemes None [] cs)
      else if c = CHR '','' then map_option (\<lambda>r. flush w @ LComma # r) (lexemes None [] cs)
      else if c = CHR 0x22 then (if w = [] then lexemes (Some []) [] cs else None)
      else lexemes None (w @ [c]) cs)"

text \<open>The dot, a field of the dot, a variable with fields, constants, a call.\<close>

datatype texpr =
    EDot
  | EField "string list"
  | EVar string "string list"
  | EStr string
  | ENum int
  | ECall string "texpr list"

text \<open>A word is an operand; an identifier is a call that still lacks its arguments.\<close>

definition operand :: "string \<Rightarrow> texpr" where
  "operand w =
     (if w = ''.'' then EDot
      else if hd w = CHR ''.'' then EField (Split (tl w) ''.'')
      else if hd w = CHR ''$'' then (let ps = Split w ''.'' in EVar (hd ps) (tl ps))
      else case Atoi w of Some i \<Rightarrow> ENum i | None \<Rightarrow> ECall w [])"

text \<open>A sequence of operands: a call with its arguments, or a single operand.\<close>

fun command :: "texpr list \<Rightarrow> texpr option" where
  "command [] = None"
| "command (ECall f [] # args) = Some (ECall f args)"
| "command [e] = Some e"
| "command (e # e' # es) = None"

text \<open>
  The operands read so far at each open parenthesis, innermost first. (A parenthesised call is
  an operand; the arguments tell it from an identifier, so a call without arguments is not
  accepted inside parentheses.)
\<close>

fun expression :: "lexeme list \<Rightarrow> texpr list list \<Rightarrow> texpr option" where
  "expression [] [es] = command es"
| "expression (LWord w # ls) (es # st) = expression ls ((es @ [operand w]) # st)"
| "expression (LStr s # ls) (es # st) = expression ls ((es @ [EStr s]) # st)"
| "expression (LOpen # ls) st = expression ls ([] # st)"
| "expression (LClose # ls) (es # es' # st) =
     (case command es of
        None \<Rightarrow> None
      | Some (ECall f []) \<Rightarrow> None
      | Some e \<Rightarrow> expression ls ((es' @ [e]) # st))"
| "expression _ _ = None"

datatype header = HRange "string list" texpr | HWith texpr | HIf texpr

datatype parsed = PEnd | POpen header | PLet string texpr | POut texpr

definition parse_expr :: "lexeme list \<Rightarrow> texpr option" where
  "parse_expr ls = expression ls [[]]"

definition is_var :: "string \<Rightarrow> bool" where
  "is_var w \<longleftrightarrow> w \<noteq> [] \<and> hd w = CHR ''$''"

text \<open>What an action is, by its first words.\<close>

definition classify :: "lexeme list \<Rightarrow> parsed option" where
  "classify ls =
     (case ls of
        LWord w # r \<Rightarrow>
          if w = ''end'' then (if r = [] then Some PEnd else None)
          else if w = ''range'' then
            (case r of
               LWord k # LComma # LWord v # LWord d # e \<Rightarrow>
                 if is_var k \<and> is_var v \<and> d = '':=''
                 then map_option (POpen \<circ> HRange [k, v]) (parse_expr e) else None
             | _ \<Rightarrow> map_option (POpen \<circ> HRange []) (parse_expr r))
          else if w = ''with'' then map_option (POpen \<circ> HWith) (parse_expr r)
          else if w = ''if'' then map_option (POpen \<circ> HIf) (parse_expr r)
          else
            (case r of
               LWord d # e \<Rightarrow>
                 if d = '':='' then (if is_var w then map_option (PLet w) (parse_expr e) else None)
                 else map_option POut (parse_expr ls)
             | _ \<Rightarrow> map_option POut (parse_expr ls))
      | _ \<Rightarrow> map_option POut (parse_expr ls))"

definition parse_action :: "string \<Rightarrow> parsed option" where
  "parse_action a = Option.bind (lexemes None [] a) classify"

section \<open>Templates\<close>

datatype tnode =
    NText char
  | NOut texpr
  | NLet string texpr
  | NRange "string list" texpr "tnode list"
  | NWith texpr "tnode list"
  | NIf texpr "tnode list"

fun mk_block :: "header \<Rightarrow> tnode list \<Rightarrow> tnode" where
  "mk_block (HRange vs e) ns = NRange vs e ns"
| "mk_block (HWith e) ns = NWith e ns"
| "mk_block (HIf e) ns = NIf e ns"

text \<open>A name is refused when it is no function, a variable when it is not declared.\<close>

fun expr_ok :: "string list \<Rightarrow> string list \<Rightarrow> texpr \<Rightarrow> bool" where
  "expr_ok funs vs EDot = True"
| "expr_ok funs vs (EField fs) = ([] \<notin> set fs)"
| "expr_ok funs vs (EVar v fs) = (v \<in> set vs \<and> [] \<notin> set fs)"
| "expr_ok funs vs (EStr s) = True"
| "expr_ok funs vs (ENum i) = True"
| "expr_ok funs vs (ECall f args) = (f \<in> set funs \<and> list_all (expr_ok funs vs) args)"

fun header_ok :: "string list \<Rightarrow> string list \<Rightarrow> header \<Rightarrow> bool" where
  "header_ok funs vs (HRange xs e) = expr_ok funs vs e"
| "header_ok funs vs (HWith e) = expr_ok funs vs e"
| "header_ok funs vs (HIf e) = expr_ok funs vs e"

fun header_vars :: "header \<Rightarrow> string list" where
  "header_vars (HRange xs e) = xs"
| "header_vars (HWith e) = []"
| "header_vars (HIf e) = []"

text \<open>
  The state of the parser: the open blocks, innermost first, each with its header and the nodes
  and variables before it; the nodes and the variables of the block that is being read.
\<close>

type_synonym pstate = "(header \<times> tnode list \<times> string list) list \<times> tnode list \<times> string list"

fun parse_token :: "string list \<Rightarrow> token \<Rightarrow> pstate \<Rightarrow> pstate option" where
  "parse_token funs (TChar c) (st, ns, vs) = Some (st, ns @ [NText c], vs)"
| "parse_token funs (TAct a) (st, ns, vs) =
     (case parse_action a of
        None \<Rightarrow> None
      | Some PEnd \<Rightarrow>
          (case st of [] \<Rightarrow> None | (h, ns', vs') # st' \<Rightarrow> Some (st', ns' @ [mk_block h ns], vs'))
      | Some (POpen h) \<Rightarrow> if header_ok funs vs h then Some ((h, ns, vs) # st, [], header_vars h @ vs) else None
      | Some (PLet v e) \<Rightarrow> if expr_ok funs vs e then Some (st, ns @ [NLet v e], v # vs) else None
      | Some (POut e) \<Rightarrow> if expr_ok funs vs e then Some (st, ns @ [NOut e], vs) else None)"

fun parse_tokens :: "string list \<Rightarrow> token list \<Rightarrow> pstate \<Rightarrow> pstate option" where
  "parse_tokens funs [] s = Some s"
| "parse_tokens funs (t # ts) s = Option.bind (parse_token funs t s) (parse_tokens funs ts)"

definition template_Parse :: "string list \<Rightarrow> string \<Rightarrow> tnode list option" where
  "template_Parse funs text =
     (case Option.bind (tokens text) (\<lambda>ts. parse_tokens funs ts ([], [], [''$''])) of
        Some ([], ns, vs) \<Rightarrow> Some ns
      | _ \<Rightarrow> None)"

section \<open>Execution\<close>

text \<open>The values a template sees.\<close>

datatype gv =
    GNil
  | GBool bool
  | GInt int
  | GStr string
  | GList "gv list"
  | GMap "(string \<times> gv) list"
  | GStruct "(string \<times> gv) list"

datatype piece = OChar char | OVal gv

fun truth :: "gv \<Rightarrow> bool" where
  "truth GNil = False"
| "truth (GBool b) = b"
| "truth (GInt i) = (i \<noteq> 0)"
| "truth (GStr s) = (s \<noteq> [])"
| "truth (GList xs) = (xs \<noteq> [])"
| "truth (GMap m) = (m \<noteq> [])"
| "truth (GStruct fs) = True"

text \<open>A field of a structure, an entry of a map; a missing field is an error, a missing entry is no value.\<close>

fun field_of :: "gv \<Rightarrow> string \<Rightarrow> gv option" where
  "field_of (GStruct fs) f = map_of fs f"
| "field_of (GMap m) f = Some (case map_of m f of None \<Rightarrow> GNil | Some v \<Rightarrow> v)"
| "field_of GNil f = Some GNil"
| "field_of v f = None"

fun fields_of :: "gv \<Rightarrow> string list \<Rightarrow> gv option" where
  "fields_of v [] = Some v"
| "fields_of v (f # fs) = (case field_of v f of None \<Rightarrow> None | Some u \<Rightarrow> fields_of u fs)"

text \<open>The predefined functions that the report uses. An index into nothing is an error.\<close>

fun t_index :: "gv list \<Rightarrow> gv option" where
  "t_index [GMap m, GStr k] = Some (case map_of m k of None \<Rightarrow> GNil | Some v \<Rightarrow> v)"
| "t_index _ = None"

fun t_len :: "gv list \<Rightarrow> gv option" where
  "t_len [GMap m] = Some (GInt (int (length m)))"
| "t_len [GList xs] = Some (GInt (int (length xs)))"
| "t_len [GStr s] = Some (GInt (int (length s)))"
| "t_len _ = None"

fun t_ne :: "gv list \<Rightarrow> gv option" where
  "t_ne [GInt i, GInt j] = Some (GBool (i \<noteq> j))"
| "t_ne [GStr i, GStr j] = Some (GBool (i \<noteq> j))"
| "t_ne _ = None"

type_synonym funcmap = "string \<Rightarrow> gv list \<Rightarrow> gv option"

definition builtins :: "string list" where
  "builtins = [''index'', ''len'', ''ne'']"

definition call_fun :: "funcmap \<Rightarrow> string \<Rightarrow> gv list \<Rightarrow> gv option" where
  "call_fun F f args =
     (if f = ''index'' then t_index args else if f = ''len'' then t_len args
      else if f = ''ne'' then t_ne args else F f args)"

fun all_some :: "'a option list \<Rightarrow> 'a list option" where
  "all_some [] = Some []"
| "all_some (None # xs) = None"
| "all_some (Some x # xs) = map_option ((#) x) (all_some xs)"

fun eval_expr :: "funcmap \<Rightarrow> gv \<Rightarrow> (string \<times> gv) list \<Rightarrow> texpr \<Rightarrow> gv option" where
  "eval_expr F dot vs EDot = Some dot"
| "eval_expr F dot vs (EField fs) = fields_of dot fs"
| "eval_expr F dot vs (EVar v fs) = (case map_of vs v of None \<Rightarrow> None | Some x \<Rightarrow> fields_of x fs)"
| "eval_expr F dot vs (EStr s) = Some (GStr s)"
| "eval_expr F dot vs (ENum i) = Some (GInt i)"
| "eval_expr F dot vs (ECall f args) =
     (case all_some (map (eval_expr F dot vs) args) of None \<Rightarrow> None | Some xs \<Rightarrow> call_fun F f xs)"

text \<open>What \<^verbatim>\<open>range\<close> visits: the entries of a map in the order of the keys, the elements of a slice.\<close>

fun range_items :: "gv \<Rightarrow> (gv \<times> gv) list option" where
  "range_items GNil = Some []"
| "range_items (GList xs) = Some (zip (map (GInt \<circ> int) [0..<length xs]) xs)"
| "range_items (GMap m) = Some (map (\<lambda>(k, v). (GStr k, v)) (sort_key fst m))"
| "range_items _ = None"

text \<open>The body for each item; the flag is false once an error stopped the execution.\<close>

fun iterate :: "('a \<Rightarrow> piece list \<times> bool) \<Rightarrow> 'a list \<Rightarrow> piece list \<times> bool" where
  "iterate f [] = ([], True)"
| "iterate f (x # xs) =
     (case f x of
        (o1, False) \<Rightarrow> (o1, False)
      | (o1, True) \<Rightarrow> (case iterate f xs of (o2, ok) \<Rightarrow> (o1 @ o2, ok)))"

fun bind_range :: "string list \<Rightarrow> gv \<times> gv \<Rightarrow> (string \<times> gv) list \<Rightarrow> (string \<times> gv) list" where
  "bind_range [k, v] kx vs = (v, snd kx) # (k, fst kx) # vs"
| "bind_range _ kx vs = vs"

fun exec :: "funcmap \<Rightarrow> tnode \<Rightarrow> gv \<Rightarrow> (string \<times> gv) list \<Rightarrow> piece list \<times> bool"
and execs :: "funcmap \<Rightarrow> tnode list \<Rightarrow> gv \<Rightarrow> (string \<times> gv) list \<Rightarrow> piece list \<times> bool" where
  "exec F (NText c) dot vs = ([OChar c], True)"
| "exec F (NOut e) dot vs = (case eval_expr F dot vs e of None \<Rightarrow> ([], False) | Some v \<Rightarrow> ([OVal v], True))"
| "exec F (NLet v e) dot vs = ([], True)"
| "exec F (NRange xs e body) dot vs =
     (case Option.bind (eval_expr F dot vs e) range_items of
        None \<Rightarrow> ([], False)
      | Some items \<Rightarrow> iterate (\<lambda>kx. execs F body (snd kx) (bind_range xs kx vs)) items)"
| "exec F (NWith e body) dot vs =
     (case eval_expr F dot vs e of
        None \<Rightarrow> ([], False)
      | Some v \<Rightarrow> if truth v then execs F body v vs else ([], True))"
| "exec F (NIf e body) dot vs =
     (case eval_expr F dot vs e of
        None \<Rightarrow> ([], False)
      | Some v \<Rightarrow> if truth v then execs F body dot vs else ([], True))"
| "execs F [] dot vs = ([], True)"
| "execs F (NLet v e # ns) dot vs =
     (case eval_expr F dot vs e of None \<Rightarrow> ([], False) | Some x \<Rightarrow> execs F ns dot ((v, x) # vs))"
| "execs F (n # ns) dot vs =
     (case exec F n dot vs of
        (o1, False) \<Rightarrow> (o1, False)
      | (o1, True) \<Rightarrow> (case execs F ns dot vs of (o2, ok) \<Rightarrow> (o1 @ o2, ok)))"

definition template_Execute :: "funcmap \<Rightarrow> tnode list \<Rightarrow> gv \<Rightarrow> piece list \<times> bool" where
  "template_Execute F ns data = execs F ns data [(''$'', data)]"

section \<open>Lexing in pieces\<close>

lemma lex_append:
  "lex_chars st (a @ b) = (let (st, ts) = lex_chars st a; (st, us) = lex_chars st b in (st, ts @ us))"
  by (induction a arbitrary: st) (auto simp: Let_def split: prod.splits)

fun tok_acts :: "token list \<Rightarrow> token list" where
  "tok_acts [] = []"
| "tok_acts (TChar c # ts) = tok_acts ts"
| "tok_acts (TAct a # ts) = TAct a # tok_acts ts"

lemma acts_append [simp]: "tok_acts (ts @ us) = tok_acts ts @ tok_acts us"
  by (induction ts rule: tok_acts.induct) simp_all

text \<open>The actions of a text that starts and ends outside of actions.\<close>

definition lex_acts :: "string \<Rightarrow> token list option" where
  "lex_acts s = (case lex_chars InText s of (InText, ts) \<Rightarrow> Some (tok_acts ts) | _ \<Rightarrow> None)"

lemma lex_acts_SomeE:
  assumes "lex_acts s = Some as"
  obtains ts where "lex_chars InText s = (InText, ts)" and "as = tok_acts ts"
  using assms by (auto simp: lex_acts_def split: prod.splits lex_state.splits)

lemma lex_acts_append:
  assumes "lex_acts a = Some as" and "lex_acts b = Some bs"
  shows "lex_acts (a @ b) = Some (as @ bs)"
  using assms by (elim lex_acts_SomeE) (simp add: lex_acts_def lex_append)

lemma lex_acts_Nil [simp]: "lex_acts [] = Some []"
  by (simp add: lex_acts_def)

lemma lex_acts_concat:
  "all_some (map lex_acts ls) = Some ass \<Longrightarrow> lex_acts (concat ls) = Some (concat ass)"
proof (induction ls arbitrary: ass)
  case (Cons l ls)
  obtain a where "lex_acts l = Some a" using Cons.prems by (cases "lex_acts l") simp_all
  with Cons show ?case by (auto simp: lex_acts_append)
qed simp

lemma lex_text: "CHR ''{'' \<notin> set s \<Longrightarrow> lex_chars InText s = (InText, map TChar s)"
  by (induction s) auto

lemma lex_acts_text: "CHR ''{'' \<notin> set s \<Longrightarrow> lex_acts s = Some []"
proof -
  have "tok_acts (map TChar s) = []" by (induction s) simp_all
  then show "CHR ''{'' \<notin> set s \<Longrightarrow> lex_acts s = Some []" by (simp add: lex_acts_def lex_text)
qed

section \<open>Parsing without the text\<close>

fun strip_text :: "tnode \<Rightarrow> tnode list" where
  "strip_text (NText c) = []"
| "strip_text (NOut e) = [NOut e]"
| "strip_text (NLet v e) = [NLet v e]"
| "strip_text (NRange vs e ns) = [NRange vs e (concat (map strip_text ns))]"
| "strip_text (NWith e ns) = [NWith e (concat (map strip_text ns))]"
| "strip_text (NIf e ns) = [NIf e (concat (map strip_text ns))]"

definition strips :: "tnode list \<Rightarrow> tnode list" where
  "strips ns = concat (map strip_text ns)"

lemma strips_simps [simp]:
  "strips [] = []" "strips (n # ns) = strip_text n @ strips ns" "strips (ns @ ms) = strips ns @ strips ms"
  by (simp_all add: strips_def)

lemma strip_block [simp]: "strip_text (mk_block h ns) = [mk_block h (strips ns)]"
  by (cases h) (simp_all add: strips_def)

fun strip_state :: "pstate \<Rightarrow> pstate" where
  "strip_state (st, ns, vs) = (map (\<lambda>(h, ns, vs). (h, strips ns, vs)) st, strips ns, vs)"

lemma parse_token_strip:
  "parse_token funs (TAct a) (strip_state s) = map_option strip_state (parse_token funs (TAct a) s)"
proof -
  obtain st ns vs where s: "s = (st, ns, vs)" by (cases s)
  show ?thesis
    unfolding s by (cases st) (auto split: option.splits parsed.splits)
qed

lemma parse_tokens_strip:
  "parse_tokens funs (tok_acts ts) (strip_state s) = map_option strip_state (parse_tokens funs ts s)"
proof (induction ts arbitrary: s rule: tok_acts.induct)
  case (2 c ts)
  obtain st ns vs where s: "s = (st, ns, vs)" by (cases s)
  show ?case using 2 [of "(st, ns @ [NText c], vs)"] unfolding s by simp
next
  case (3 a ts)
  then show ?case
    unfolding tok_acts.simps parse_tokens.simps parse_token_strip by (cases "parse_token funs (TAct a) s") simp_all
qed simp

text \<open>A text whose actions parse to nodes parses to these nodes with the text between them.\<close>

lemma template_Parse_acts:
  assumes "lex_acts text = Some as" and "parse_tokens funs as ([], [], [''$'']) = Some ([], ns, vs)"
  shows "\<exists>ms. template_Parse funs text = Some ms \<and> strips ms = ns"
proof -
  obtain ts where ts: "lex_chars InText text = (InText, ts)" "as = tok_acts ts"
    using assms(1) by (rule lex_acts_SomeE)
  then have "map_option strip_state (parse_tokens funs ts ([], [], [''$''])) = Some ([], ns, vs)"
    using parse_tokens_strip [of funs ts "([], [], [''$''])"] assms(2) by simp
  then obtain s where s: "parse_tokens funs ts ([], [], [''$'']) = Some s" "strip_state s = ([], ns, vs)"
    by auto
  then show ?thesis
    by (cases s) (auto simp: template_Parse_def tokens_def ts(1))
qed

lemma parse_tokens_append:
  "parse_tokens funs (ts @ us) s = Option.bind (parse_tokens funs ts s) (parse_tokens funs us)"
proof (induction ts arbitrary: s)
  case (Cons t ts)
  then show ?case by (cases "parse_token funs t s") simp_all
qed simp

text \<open>Nodes before a text that closes all its blocks.\<close>

fun under :: "tnode list \<Rightarrow> pstate \<Rightarrow> pstate" where
  "under p ([], ns, vs) = ([], p @ ns, vs)"
| "under p ((h, ms, ws) # st, ns, vs) =
     (case under p (st, ms, ws) of (st', ms', ws') \<Rightarrow> ((h, ms', ws') # st', ns, vs))"

lemma parse_token_under: "parse_token funs t (under p s) = map_option (under p) (parse_token funs t s)"
proof -
  obtain st ns vs where s: "s = (st, ns, vs)" by (cases s)
  show ?thesis
  proof (cases st)
    case Nil
    then show ?thesis unfolding s by (cases t) (auto split: option.splits parsed.splits)
  next
    case (Cons f st')
    obtain h ms ws where f: "f = (h, ms, ws)" by (cases f)
    obtain st2 ms2 ws2 where u: "under p (st', ms, ws) = (st2, ms2, ws2)" by (metis prod_cases3)
    have "under p (st', ms @ [n], ws) = (st2, ms2 @ [n], ws2)" for n
      using u by (cases st') (auto split: prod.splits)
    then show ?thesis
      unfolding s Cons f using u by (cases t) (auto split: option.splits parsed.splits)
  qed
qed

lemma parse_tokens_under: "parse_tokens funs ts (under p s) = map_option (under p) (parse_tokens funs ts s)"
proof (induction ts arbitrary: s)
  case (Cons t ts)
  then show ?case by (cases "parse_token funs t s") (simp_all add: parse_token_under)
qed simp

lemma parse_tokens_section:
  assumes "parse_tokens funs ts ([], [], vs) = Some ([], ns, ws)"
  shows "parse_tokens funs (ts @ us) ([], p, vs) = parse_tokens funs us ([], p @ ns, ws)"
  using parse_tokens_under [of funs ts p "([], [], vs)"] assms by (simp add: parse_tokens_append)

section \<open>Executing without the text\<close>

fun vals :: "piece list \<Rightarrow> gv list" where
  "vals [] = []"
| "vals (OChar c # os) = vals os"
| "vals (OVal v # os) = v # vals os"

lemma vals_append [simp]: "vals (os @ ps) = vals os @ vals ps"
  by (induction os rule: vals.induct) simp_all

definition shown :: "piece list \<times> bool \<Rightarrow> gv list \<times> bool" where
  "shown r = (vals (fst r), snd r)"

lemma iterate_shown:
  assumes "\<And>x. shown (f x) = shown (g x)"
  shows "shown (iterate f xs) = shown (iterate g xs)"
proof (induction xs)
  case (Cons x xs)
  obtain o1 b where f: "f x = (o1, b)" by fastforce
  obtain p1 c where g: "g x = (p1, c)" by fastforce
  have "vals o1 = vals p1" "b = c" using assms [of x] by (simp_all add: shown_def f g)
  with Cons show ?case by (cases b) (auto simp: shown_def f g split: prod.splits)
qed simp

fun seq :: "gv list \<times> bool \<Rightarrow> gv list \<times> bool \<Rightarrow> gv list \<times> bool" where
  "seq (xs, False) r = (xs, False)"
| "seq (xs, True) (ys, b) = (xs @ ys, b)"

lemma seq_Nil [simp]: "seq ([], True) r = r" "seq r ([], True) = r"
  by (cases r; cases "snd r"; simp)+

definition is_let :: "tnode \<Rightarrow> bool" where
  "is_let n \<longleftrightarrow> (\<exists>v e. n = NLet v e)"

lemma shown_execs_Cons:
  "\<not> is_let n \<Longrightarrow> shown (execs F (n # ns) dot vs) = seq (shown (exec F n dot vs)) (shown (execs F ns dot vs))"
  by (cases n) (auto simp: is_let_def shown_def split: prod.splits bool.splits)

lemma shown_execs_let:
  "shown (execs F (NLet v e # ns) dot vs) =
     (case eval_expr F dot vs e of None \<Rightarrow> ([], False) | Some x \<Rightarrow> shown (execs F ns dot ((v, x) # vs)))"
  by (simp add: shown_def split: option.splits)

lemma shown_single [simp]: "\<not> is_let n \<Longrightarrow> shown (execs F [n] dot vs) = shown (exec F n dot vs)"
  using shown_execs_Cons [of n F "[]" dot vs] by (simp add: shown_def)

lemma shown_exec:
  "shown (exec F (NOut e) dot vs) = (case eval_expr F dot vs e of None \<Rightarrow> ([], False) | Some v \<Rightarrow> ([v], True))"
  "shown (exec F (NRange xs e body) dot vs) =
     (case Option.bind (eval_expr F dot vs e) range_items of
        None \<Rightarrow> ([], False)
      | Some items \<Rightarrow> shown (iterate (\<lambda>kx. execs F body (snd kx) (bind_range xs kx vs)) items))"
  "shown (exec F (NWith e body) dot vs) =
     (case eval_expr F dot vs e of
        None \<Rightarrow> ([], False)
      | Some v \<Rightarrow> if truth v then shown (execs F body v vs) else ([], True))"
  "shown (exec F (NIf e body) dot vs) =
     (case eval_expr F dot vs e of
        None \<Rightarrow> ([], False)
      | Some v \<Rightarrow> if truth v then shown (execs F body dot vs) else ([], True))"
  by (simp_all add: shown_def split: option.splits)

lemma shown_text [simp]: "shown (exec F (NText c) dot vs) = ([], True)" "shown (execs F [] dot vs) = ([], True)"
  by (simp_all add: shown_def)

lemma not_let [simp]:
  "\<not> is_let (NText c)" "\<not> is_let (NOut e)" "\<not> is_let (NRange xs e body)" "\<not> is_let (NWith e body)" "\<not> is_let (NIf e body)"
  "is_let (NLet v e)"
  by (simp_all add: is_let_def)

lemma strip_not_let:
  assumes "\<not> is_let n"
  shows "shown (execs F (strip_text n @ ms) dot vs) = seq (shown (execs F (strip_text n) dot vs)) (shown (execs F ms dot vs))"
  using assms by (cases n) (simp_all add: shown_execs_Cons del: exec.simps execs.simps)

lemma seq_cong: "(snd r \<Longrightarrow> a = b) \<Longrightarrow> seq r a = seq r b"
  by (cases r; cases "snd r"; cases a; cases b) auto

lemma execs_strips_Cons:
  assumes "\<And>x y. (x, True) = exec F n dot vs \<Longrightarrow> y \<Longrightarrow> shown (execs F (strips ns) dot vs) = shown (execs F ns dot vs)"
    and "shown (execs F (strip_text n) dot vs) = shown (exec F n dot vs)" and "\<not> is_let n"
  shows "shown (execs F (strips (n # ns)) dot vs) = shown (execs F (n # ns) dot vs)"
proof -
  have "shown (execs F (strips ns) dot vs) = shown (execs F ns dot vs)" if "snd (shown (exec F n dot vs))"
    using assms(1) [of "fst (exec F n dot vs)" True] that by (simp add: shown_def prod_eq_iff)
  then show ?thesis
    using assms(2,3) by (auto simp: shown_execs_Cons strip_not_let intro: seq_cong)
qed

lemma exec_strips:
  "\<not> is_let n \<Longrightarrow> shown (execs F (strip_text n) dot vs) = shown (exec F n dot vs)"
  "shown (execs F (strips ns) dot vs) = shown (execs F ns dot vs)"
proof (induction F n dot vs and F ns dot vs rule: exec_execs.induct)
  case (4 F xs e body dot vs)
  have "shown (iterate (\<lambda>kx. execs F (strips body) (snd kx) (bind_range xs kx vs)) items) =
      shown (iterate (\<lambda>kx. execs F body (snd kx) (bind_range xs kx vs)) items)"
    if "Option.bind (eval_expr F dot vs e) range_items = Some items" for items
    by (rule iterate_shown) (rule 4(1) [OF that])
  then show ?case by (simp add: strips_def [symmetric] shown_exec del: exec.simps execs.simps split: option.splits)
next
  case (5 F e body dot vs)
  then show ?case by (simp add: strips_def [symmetric] shown_exec del: exec.simps execs.simps split: option.splits)
next
  case (6 F e body dot vs)
  then show ?case by (simp add: strips_def [symmetric] shown_exec del: exec.simps execs.simps split: option.splits)
next
  case (8 F v e ns dot vs)
  then show ?case by (simp add: shown_execs_let del: exec.simps execs.simps split: option.splits)
qed (rule execs_strips_Cons | simp add: shown_single del: exec.simps execs.simps | assumption)+

end
