(* ===== verification/Html.thy ===== *)
theory Html
  imports Alerts Template
begin

text \<open>
  \<^verbatim>\<open>html-generators.go\<close>: the template of the report page, line by line, and \<^verbatim>\<open>reportPage\<close>, which
  puts the chain and the names of the reports into its links. The template parses for every
  chain without braces; \<open>report_nodes\<close> is what it parses to, without the text between the
  actions.
\<close>

section \<open>The text\<close>

definition blockHeaderReport :: string where "blockHeaderReport = ''block-header''"
definition nodeMetadataReport :: string where "nodeMetadataReport = ''node-metadata''"

text \<open>The head of the page with its style sheet.\<close>

definition page_style :: "string list" where
  \<open>page_style =
    [''<!DOCTYPE html>'',
     ''<html lang="en">'',
     ''  <meta charset="utf-8"'',
     ''        content="width=device-width,initial-scale=1.0,maximum-scale=1.0,user-scalable=0"'',
     ''        name="viewport">'',
     ''  <head>'',
     ''<script src="https://cdnjs.cloudflare.com/ajax/libs/sortable/0.8.0/js/sortable.min.js"'',
     ''        integrity="sha256-gCtdA1cLK2EhQZCMhhvGzUsWM/fsxtJ2IImUJ+4UOP8="'',
     ''        crossorigin="anonymous"></script>'',
     ''<link rel="stylesheet"'',
     ''      href="https://cdnjs.cloudflare.com/ajax/libs/sortable/0.8.0/css/sortable-theme-bootstrap.min.css"'',
     ''      integrity="sha256-S9t86HqhPL8nNR85dIjDQCJMPd9RULmRAub6xBksk9M="'',
     ''      crossorigin="anonymous" />'',
     ''<link href="https://fonts.googleapis.com/css?family=Open+Sans"'',
     ''      rel="stylesheet"'',
     ''      crossorigin="anonymous" />'',
     ''<style>'',
     ''* {margin:0;padding:0;}'',
     ''body {font-family: "Open Sans", sans-serif;}'',
     ''.report-wrapper {padding:17px;padding-bottom:30px;background-color:#344E4F;}'',
     ''.report-wrapper > label {color: #AFCAC5;}'',
     ''.report-table {width:100%%; table-layout:fixed;word-break:break-all;}'',
     ''.report-descr {display:flex; justify-content:space-between; padding-bottom: 15px;}'',
     ''.flex-col {display:flex;flex-direction:column;}'',
     ''.flex-row {display:flex;justify-content:space-between;}'',
     ''.build-stat {'',
     ''  background-color:#E0EFC7;'',
     ''  padding: 10px; display:flex; justify-content:space-between;'',
     ''}'',
     ''.build-stat-values {font-size: 15px; font-weight: bolder;}'',
     ''.summary-details {'',
     ''  background-color:#7F9A95;'',
     ''  box-shadow: 0 2px 2px -1px rgba(0, 0, 0, 0.4);'',
     ''  position: -webkit-sticky;'',
     ''  position: sticky;'',
     ''  top:0px;'',
     ''  padding: 10px;'',
     ''  height:95px;'',
     ''}'',
     ''.align-right { text-align: right; }'',
     ''.space-between { justify-content:space-between; width: 100%% }'',
     ''.is-leader { background-color: #c4b8b178; }'',
     ''.center { align-items: center; }'',
     ''.stat-box { box-shadow: 0 2px 2px 0px rgba(0, 0, 0, 0.9); padding: 10px; background-color:#7F9A95;}'',
     ''.stat-field {'',
     ''  display: flex;'',
     ''  justify-content:space-between;'',
     ''}'',
     ''.flex-both {'',
     ''  display: flex;'',
     ''  flex-direction: column;'',
     ''}'',
     ''@media only screen and (min-width: 670px) {'',
     ''  .flex-both {'',
     ''    display: flex;'',
     ''    flex-direction: row;'',
     ''  }'',
     ''}'',
     ''th {'',
     ''  background: #c9d1ac;'',
     ''  position: sticky;'',
     ''  top: 91px;'',
     ''  box-shadow: 0 2px 2px -1px rgba(0, 0, 0, 0.4);'',
     ''}'',
     ''hr{'',
     ''  overflow: visible; /* For IE */'',
     ''  padding: 0;'',
     ''  border: none;'',
     ''  border-top: medium double #333;'',
     ''  color: #333;'',
     ''  text-align: center;'',
     ''  height: 0px;'',
     ''}'',
     ''hr:after {'',
     ''  content: "'' @ [CHR 0xC2, CHR 0xA7] @ ''";'',
     ''  display: inline-block;'',
     ''  position: relative;'',
     ''  top: -0.7em;'',
     ''  font-size: 1.5em;'',
     ''  padding: 0 0.25em;'',
     ''}'',
     [],
     ''.stat-box > p {'',
     ''  display:flex;'',
     ''  justify-content: space-between;'',
     ''  width: 100%%;'',
     ''}'',
     ''{{ with (index .Summary "block-header") }}'',
     ''{{ range $key, $value := .}}'',
     ''#curr-hn-toggle-{{$key}}:checked ~ * .curr-harmony-node-{{$key}}-true {'',
     ''  display: table-row;'',
     ''}'',
     ''#curr-hn-toggle-{{$key}}:not(checked) ~ * .curr-harmony-node-{{$key}}-true {'',
     ''  display: none;'',
     ''}'',
     ''#prev-hn-toggle-{{$key}}:checked ~ * .prev-harmony-node-{{$key}}-true {'',
     ''  display: table-row;'',
     ''}'',
     ''#prev-hn-toggle-{{$key}}:not(checked) ~ * .prev-harmony-node-{{$key}}-true {'',
     ''  display: none;'',
     ''}'',
     ''{{end}}'',
     ''{{end}}'',
     ''</style>'']\<close>

text \<open>The boxes at the top: titles, chain configuration, block headers, versions.\<close>

definition page_boxes :: "string list" where
  \<open>page_boxes =
    [''  </head>'',
     ''  <body>'',
     ''    <header id="top-of-page">'',
     ''      <div class="build-stat">'',
     ''        <div class="flex-row space-between">'',
     ''          <div class="flex-col">'',
     ''          {{ range .LeftTitle }}'',
     ''            <span class="build-stat-values">{{.}}</span>'',
     ''          {{end}}'',
     ''          </div>'',
     ''          <div class="flex-col">'',
     ''          {{ range .RightTitle }}'',
     ''            <span class="build-stat-values align-right">{{.}}</span>'',
     ''          {{end}}'',
     ''          </div>'',
     ''        </div>'',
     ''      </div>'',
     ''      <hr/>'',
     ''      <div class="build-stat flex-both">'',
     ''        {{ $root := . }}'',
     ''        {{ with (index .Summary "chain-config") }}'',
     ''        {{ range $key, $value := . }}'',
     ''          <div class="flex-col center stat-box">'',
     ''            <a href="#shard-{{$key}}">Shard-{{$key}}</a>'',
     ''            <p><span>Consensus:</span><span> {{index $value "consensus-status"}}</span></p>'',
     ''            <p><span>Chain ID:</span><span> {{index $value "chain-id"}}</span></p>'',
     ''            <p><span>Cross Link Epoch:</span><span>{{index $value "cross-link-epoch"}}</span></p>'',
     ''            <p><span>Cross Tx Epoch:</span><span>{{index $value "cross-tx-epoch"}}</span></p>'',
     ''            <p><span>Eip155 Epoch:</span><span>{{index $value "eip155-epoch"}}</span></p>'',
     ''            <p><span>S3 Epoch:</span><span>{{index $value "s3-epoch"}}</span></p>'',
     ''            <p><span>Pre-Staking Epoch:</span><span>{{index $value "pre-staking-epoch"}}</span></p>'',
     ''            <p><span>Staking Epoch:</span><span>{{index $value "staking-epoch"}}</span></p>'',
     ''            <p><span>Blocks Per Epoch:</span><span>{{index $value "blocks-per-epoch"}}</span></p>'',
     ''            <p><span>DNS Zone:</span><span>{{index $value "dns-zone"}}</span></p>'',
     ''            <p><span>Last Crosslink:</span><span>{{index (index (index $root.Summary "block-header") $key) "last-crosslink"}}</span></p>'',
     ''            {{ if $root.SuperCommittee.CurrentCommittee.Deciders }}'',
     ''               {{ $externCount := currentCommitteeCount $key }}'',
     ''              <a href="#current-committee-{{$key}}"><span>{{ $externCount }}</span> Current Committee</a>'',
     ''            {{end}}'',
     ''            {{ if $root.SuperCommittee.PreviousCommittee.Deciders }}'',
     ''               {{ $externCount := previousCommitteeCount $key }}'',
     ''              <a href="#previous-committee-{{$key}}"><span>{{ $externCount }}</span> Previous Committee</a>'',
     ''            {{end}}'',
     ''          </div>'',
     ''        {{end}}'',
     ''        {{end}}'',
     ''      </div>'',
     ''      <div class="build-stat flex-both">'',
     ''        {{ with (index .Summary "block-header") }}'',
     ''        {{range $key, $value := .}}'',
     ''          <div class="flex-col center stat-box">'',
     ''            <a href="#shard-{{$key}}">Shard-{{$key}}</a>'',
     ''            <p><span>Node Count:</span><span>{{ len (index $value "records") }}</span></p>'',
     ''            <p><span>Max Block:</span><span>{{index $value "block-max"}}</span></p>'',
     ''            <p><span>Max Epoch:</span><span>{{index $value "epoch-max"}}</span></p>'',
     ''            <p><span>Leader:</span><span>{{index $value "shard-leader"}}</span></p>'',
     ''          </div>'',
     ''        {{end}}'',
     ''        {{end}}'',
     ''      </div>'',
     ''      <div class="build-stat flex-both">'',
     ''        {{ with (index .Summary "node-metadata") }}'',
     ''        {{range $key, $value := .}}'',
     ''          <div class="flex-col center stat-box">'',
     ''            <a href="#version-{{$key}}">{{$key}}</a>'',
     ''            <p>'',
     ''              Node Count:{{ len (index $value "records") }}'',
     ''              {{ with getCommitID $key }}'',
     ''                <a href="https://github.com/harmony-one/harmony/commit/{{.}}">commit</a>'',
     ''              {{end}}'',
     ''            <p>'',
     ''          </div>'',
     ''        {{end}}'',
     ''        {{end}}'',
     ''      </div>'',
     ''    </header>'']\<close>

text \<open>The machines that did not answer.\<close>

definition page_down :: "string list" where
  \<open>page_down =
    [[],
     ''    <main>'',
     ''    {{ if ne (len .NoReply) 0 }}'',
     ''    <section class="report-wrapper">'',
     ''      <div class="summary-details">'',
     ''        <div class="flex-col">'',
     ''          <div class="flex-row space-between">'',
     ''            <h3>'',
     ''              Down machines <span><a href="#top-of-page">(Top)</a></span>'',
     ''            </h3>'',
     ''            <p style="width: 375px;">'',
     ''             Note: "dialing to the given TCP address timed out" failure could'',
     ''             just mean that the HTTP RPC did not complete fast enough.'',
     ''            </p>'',
     ''          </div>'',
     ''          <div class="flex-row">'',
     ''            <p>Distinct down machine count: {{ .DownMachineCount }}</p>'',
     ''          </div>'',
     ''        </div>'',
     ''      </div>'',
     ''      <table class="sortable-theme-bootstrap report-table" data-sortable>'',
     ''        <thead>'',
     ''          <tr>'',
     ''            <th>IP</th>'',
     ''            <th>Intended ShardID</th>'',
     ''            <th>RPC Payload</th>'',
     ''            <th>Failure Reason</th>'',
     ''          </tr>'',
     ''        </thead>'',
     ''        <tbody>'',
     ''        {{range .NoReply}}'',
     ''          <tr style="background-color:#F0B4B4;">'',
     ''            <td>{{.IP}}</td>'',
     ''            <td>{{.ShardID}}</td>'',
     ''            <td>{{.RPCPayload}}</td>'',
     ''            <td>{{.FailureReason}}</td>'',
     ''          </tr>'',
     ''        {{end}}'',
     ''        </tbody>'',
     ''      </table>'',
     ''    </section>'',
     ''    {{end}}'']\<close>

text \<open>The block headers of each shard: heading, link to the download, table.\<close>

definition page_headers_top :: "string list" where
  \<open>page_headers_top =
    [[],
     ''    {{ with (index .Summary "block-header") }}'',
     ''    {{range $key, $value := .}}'',
     ''    <section class="report-wrapper" id="shard-{{$key}}">'',
     ''      <div class="summary-details">'',
     ''        <div class="flex-col">'',
     ''          <div class="flex-row">'',
     ''            <h3>'',
     ''              Block Header <span><a href="#top-of-page">(Top)</a></span>'',
     ''            </h3>'']\<close>

definition header_link :: string where
  \<open>header_link = ''            <a href="/report-download-%s?report=%s&shard={{$key}}">Download CSV</a>''\<close>

definition page_headers_table :: "string list" where
  \<open>page_headers_table =
    [''          </div>'',
     ''          <div class="flex-row">'',
     ''            <p>Shard: {{ $key }}</p>'',
     ''            <p>Nodes: {{ len (index $value "records") }}</p>'',
     ''            <p>Max Block: {{ index $value "block-max" }}</p>'',
     ''            <p>Min Block: {{ index $value "block-min" }}</p>'',
     ''            <p>Max Epoch: {{ index $value "epoch-max" }}</p>'',
     ''            <p>Min Epoch: {{ index $value "epoch-min" }}</p>'',
     ''          </div>'',
     ''          <div class="flex-row">'',
     ''            <p>Unique Blocks: {{ index $value "uniq-blocks" }}</p>'',
     ''            <p>Unique Epochs: {{ index $value "uniq-epochs" }}</p>'',
     ''          </div>'',
     ''        </div>'',
     ''      </div>'',
     ''      <table class="sortable-theme-bootstrap report-table" data-sortable>'',
     ''        <thead>'',
     CHR 0x09 # ''  <tr>'',
     CHR 0x09 # ''    <th>IP</th>'',
     CHR 0x09 # ''    <th>Block Hash</th>'',
     CHR 0x09 # ''    <th>Epoch</th>'',
     CHR 0x09 # ''    <th>Block Number</th>'',
     CHR 0x09 # ''    <th>Leader</th>'',
     CHR 0x09 # ''    <th>ViewID</th>'',
     CHR 0x09 # ''    <th>Timestamp</th>'',
     CHR 0x09 # ''    <th>Last Commit Sig</th>'',
     CHR 0x09 # ''    <th>Last Commit Bitmap</th>'',
     CHR 0x09 # ''  </tr>'',
     ''        </thead>'',
     ''        <tbody>'',
     ''          {{ with (index $value "records") }}'',
     ''          {{range .}}'',
     ''          <tr>'',
     ''            <td>{{.IP}} </td>'',
     ''            <td>{{ .Payload.BlockHash }}</td>'',
     ''            <td>{{ .Payload.Epoch }}</td>'',
     ''            <td>{{ .Payload.BlockNumber }}</td>'',
     ''            <td>{{ .Payload.Leader }}</td>'',
     ''            <td>{{ .Payload.ViewID }}</td>'',
     ''            <td>{{ convertUnixTime .Payload.UnixTime }}</td>'',
     ''            <td>{{ .Payload.LastCommitSig }}</td>'',
     ''            <td>{{ .Payload.LastCommitBitmap }}</td>'',
     ''          </tr>'',
     ''          {{end}}'',
     ''          {{end}}'',
     ''        </tbody>'',
     ''      </table>'',
     ''    </section>'',
     ''    {{end}}'',
     ''    {{end}}'']\<close>

text \<open>The nodes of each version: heading, link to the download, table.\<close>

definition page_nodes_top :: "string list" where
  \<open>page_nodes_top =
    [[],
     ''    {{ with (index .Summary "node-metadata") }}'',
     ''    {{ range $key, $value := . }}'',
     ''    <section class="report-wrapper" id="version-{{$key}}">'',
     ''      <div class="summary-details">'',
     ''        <div class="flex-col">'',
     ''          <div class="flex-row">'',
     ''            <h3>'',
     ''              Node Metadata <span><a href="#top-of-page">(Top)</a></span>'',
     ''           </h3>'']\<close>

definition node_link :: string where
  \<open>node_link = ''            <a href="/report-download-%s?report=%s&vrs={{$key}}">Download CSV</a>''\<close>

definition page_nodes_table :: "string list" where
  \<open>page_nodes_table =
    [''          </div>'',
     ''          <div class="flex-row">'',
     ''            <p>Build Version: {{ $key }}</p>'',
     ''            <p>Nodes: {{ len (index $value "records") }}</p>'',
     ''          </div>'',
     ''        </div>'',
     ''      </div>'',
     ''      <table class="sortable-theme-bootstrap report-table" data-sortable>'',
     ''        <thead>'',
     CHR 0x09 # ''  <tr>'',
     CHR 0x09 # ''    <th>IP</th>'',
     CHR 0x09 # ''    <th>BLSKey</th>'',
     CHR 0x09 # ''    <th>Version</th>'',
     CHR 0x09 # ''    <th>Network Type</th>'',
     CHR 0x09 # ''    <th>ChainID</th>'',
     CHR 0x09 # ''    <th>ShardID</th>'',
     CHR 0x09 # ''    <th>Role</th>'',
     CHR 0x09 # ''    <th>Archival</th>'',
     CHR 0x09 # ''    <th>Connected Peers</th>'',
     CHR 0x09 # ''    <th>Total Peers</th>'',
     CHR 0x09 # ''    <th>Connectivity</th>'',
     CHR 0x09 # ''    <th>Start Time</th>'',
     CHR 0x09 # ''  </tr>'',
     ''        </thead>'',
     ''        <tbody>'',
     ''          {{ with (index $value "records") }}'',
     ''          {{ range . }}'',
     ''          <tr class="{{if .Payload.IsLeader}}is-leader{{end}}">'',
     ''            <td>{{ .IP }}</td>'',
     ''            <td>{{ getShortBLSKey .Payload.BLSPublicKey }}</td>'',
     ''            <td>{{ .Payload.Version }}</td>'',
     ''            <td>{{ .Payload.NetworkType }}</td>'',
     ''            <td>{{ .Payload.ChainConfig.ChainID }}</td>'',
     ''            <td>{{ .Payload.ShardID }}</td>'',
     ''            <td>{{ .Payload.NodeRole }}</td>'',
     ''            <td>{{ .Payload.ArchivalNode }}</td>'',
     ''            <td>{{ .Payload.P2PConnectivity.Connected }}</td>'',
     ''            <td>{{ .Payload.P2PConnectivity.TotalKnown }}</td>'',
     ''            <td>{{ calcConnectivity .Payload.P2PConnectivity.Connected .Payload.P2PConnectivity.TotalKnown }}</td>'',
     ''            <td>{{ convertUnixTime .Payload.NodeStartTime }}</td>'',
     ''          </tr>'',
     ''          {{end}}'',
     ''          {{end}}'',
     ''        </tbody>'',
     ''      </table>'',
     ''    </section>'',
     ''    {{ end }}'',
     ''    {{ end }}'']\<close>

text \<open>The current committees.\<close>

definition page_current :: "string list" where
  \<open>page_current =
    [[],
     ''    {{ with .SuperCommittee }}'',
     ''    {{ range $key, $value := .CurrentCommittee.Deciders}}'',
     ''    {{ $shard := getShardID $key }}'',
     ''    <section class="report-wrapper" id="current-committee-{{ $shard }}">'',
     ''      <input type="checkbox" id="curr-hn-toggle-{{ $shard }}">'',
     ''      <label for="curr-hn-toggle-{{ $shard }}">show harmony nodes</label>'',
     ''      <div class="summary-details">'',
     ''        <div class="flex-col">'',
     ''          <div class="flex-row">'',
     ''            <h3>'',
     ''              Shard {{ $shard }} Current Committee <span><a href="#top-of-page">(Top)</a></span>'',
     ''           </h3>'',
     ''          </div>'',
     ''          {{ with $value }}'',
     ''          <div class="flex-row">'',
     ''            <div class="flex-col">'',
     ''              <p>Policy: {{ .PolicyType }}</p>'',
     ''              <p>Members: {{ .MemberCount }}</p>'',
     ''            </div>'',
     ''            <div class="flex-col">'',
     ''              <p>Internal Vote Power: {{ .HarmonyPower }}</p>'',
     ''              <p>Staked Vote Power: {{ .StakedPower }}</p>'',
     ''              <p>Total Raw Stake: {{ .TotalRawStake }}</p>'',
     ''            </div>'',
     ''          </div>'',
     ''        </div>'',
     ''      </div>'',
     ''      <table class="sortable-theme-bootstrap report-table" data-sortable>'',
     ''        <thead>'',
     CHR 0x09 # ''  <tr>'',
     ''            <th>Address</th>'',
     CHR 0x09 # ''    <th>BLSKey</th>'',
     CHR 0x09 # ''    <th>Is Harmony Node</th>'',
     CHR 0x09 # ''    <th>Voting Power</th>'',
     CHR 0x09 # ''    <th>External Vote Power</th>'',
     CHR 0x09 # ''    <th>Effective Stake</th>'',
     CHR 0x09 # ''  </tr>'',
     ''        </thead>'',
     ''        <tbody>'',
     ''          {{ range .Committee }}'',
     ''          {{ with . }}'',
     ''          <tr class="curr-harmony-node-{{ $shard }}-{{.IsHarmonyNode}}">'',
     ''            <td>{{ .Address }}</td>'',
     ''            <td>{{ .BLSKey }}</td>'',
     ''            <td>{{ .IsHarmonyNode }}</td>'',
     ''            <td>{{ .VotingPower }}</td>'',
     ''            <td>{{ .RawPercent }}</td>'',
     ''            <td>{{ .EffectiveStake }}</td>'',
     ''          </tr>'',
     ''          {{end}}'',
     ''          {{end}}'',
     ''        </tbody>'',
     ''      </table>'',
     ''    </section>'',
     ''    {{end}}'',
     ''    {{end}}'',
     ''    {{end}}'']\<close>

text \<open>The previous committees.\<close>

definition page_previous :: "string list" where
  \<open>page_previous =
    [[],
     ''    {{ with .SuperCommittee }}'',
     ''    {{ range $key, $value := .PreviousCommittee.Deciders }}'',
     ''    {{ $shard := getShardID $key }}'',
     ''    <section class="report-wrapper" id="previous-committee-{{ $shard }}">'',
     ''      <input type="checkbox" id="prev-hn-toggle-{{ $shard }}">'',
     ''      <label for="prev-hn-toggle-{{ $shard }}">show harmony nodes</label>'',
     ''      <div class="summary-details">'',
     ''         <div class="flex-col">'',
     ''           <div class="flex-row">'',
     CHR 0x09 # ''     <h3>'',
     ''               Shard {{ $shard }} Previous Commitee <span><a href="#top-of-page">(Top)</a></span>'',
     ''             </h3>'',
     ''           </div>'',
     ''           {{ with $value }}'',
     ''           <div class="flex-row">'',
     ''             <div class="flex-col">'',
     ''               <p>Policy: {{ .PolicyType }}</p>'',
     ''               <p>Member Count: {{ .MemberCount }}</p>'',
     ''             </div>'',
     ''             <div class="flex-col">'',
     ''               <p>Internal Vote Power: {{ .HarmonyPower }}</p>'',
     ''               <p>Staked Vote Power: {{ .StakedPower }}</p>'',
     ''               <p>Total Raw Staked: {{ .TotalRawStake }}</p>'',
     ''             </div>'',
     ''           </div>'',
     ''         </div>'',
     ''       </div>'',
     ''       <table class="sortable-theme-bootstrap report-table" data-sortable>'',
     ''         <thead>'',
     ''           <tr>'',
     ''             <th>Address</th>'',
     ''             <th>BLSKey</th>'',
     ''             <th>Is Harmony Node</th>'',
     ''             <th>Voting Power</th>'',
     ''             <th>External Vote Power</th>'',
     ''             <th>Effective Stake</th>'',
     ''           </tr>'',
     ''         </thead>'',
     ''         <tbody>'',
     ''           {{ range .Committee }}'',
     ''           {{ with . }}'',
     ''           <tr class="prev-harmony-node-{{ $shard }}-{{ .IsHarmonyNode }}">'',
     ''             <td>{{ .Address }}</td>'',
     ''             <td>{{ .BLSKey }}</td>'',
     ''             <td>{{ .IsHarmonyNode }}</td>'',
     ''             <td>{{ .VotingPower }}</td>'',
     ''             <td>{{ .RawPercent }}</td>'',
     ''             <td>{{ .EffectiveStake }}</td>'',
     ''           </tr>'',
     ''           {{end}}'',
     ''           {{end}}'',
     ''         </tbody>'',
     ''       </table>'',
     ''     </section>'',
     ''     {{end}}'',
     ''     {{end}}'',
     ''     {{end}}'']\<close>

text \<open>The end of the page.\<close>

definition page_foot :: "string list" where
  \<open>page_foot =
    [[],
     ''    </main>'',
     ''<script>'',
     ''setInterval(() => window.location.reload(true),  1000 * 120);'',
     ''</script>'',
     ''  </body>'',
     ''</html>'']\<close>

text \<open>The format is a raw string that starts with a newline.\<close>

definition text_lines :: "string list \<Rightarrow> string" where
  "text_lines ls = concat (map (\<lambda>l. l @ [CHR 0x0A]) ls)"

definition reportPage :: "string \<Rightarrow> string" where
  "reportPage chain =
     Sprintf (text_lines ([[]] @ page_style @ page_boxes @ page_down @
         page_headers_top @ [header_link] @ page_headers_table @
         page_nodes_top @ [node_link] @ page_nodes_table @
         page_current @ page_previous @ page_foot))
       [AStr chain, AStr blockHeaderReport, AStr chain, AStr nodeMetadataReport]"

text \<open>The functions the template may call: the predefined ones and those of \<^verbatim>\<open>renderReport\<close>.\<close>

definition report_funs :: "string list" where
  "report_funs = builtins @ [''getCommitID'', ''currentCommitteeCount'', ''previousCommitteeCount'',
     ''getShardID'', ''calcConnectivity'', ''convertUnixTime'', ''getShortBLSKey'']"

section \<open>The actions\<close>

text \<open>The actions of each part.\<close>

definition style_acts :: "string list" where
  \<open>style_acts =
    ['' with (index .Summary "block-header") '',
     '' range $key, $value := .'',
     ''$key'',
     ''$key'',
     ''$key'',
     ''$key'',
     ''$key'',
     ''$key'',
     ''$key'',
     ''$key'',
     ''end'',
     ''end'']\<close>

definition boxes_acts :: "string list" where
  \<open>boxes_acts =
    ['' range .LeftTitle '',
     ''.'',
     ''end'',
     '' range .RightTitle '',
     ''.'',
     ''end'',
     '' $root := . '',
     '' with (index .Summary "chain-config") '',
     '' range $key, $value := . '',
     ''$key'',
     ''$key'',
     ''index $value "consensus-status"'',
     ''index $value "chain-id"'',
     ''index $value "cross-link-epoch"'',
     ''index $value "cross-tx-epoch"'',
     ''index $value "eip155-epoch"'',
     ''index $value "s3-epoch"'',
     ''index $value "pre-staking-epoch"'',
     ''index $value "staking-epoch"'',
     ''index $value "blocks-per-epoch"'',
     ''index $value "dns-zone"'',
     ''index (index (index $root.Summary "block-header") $key) "last-crosslink"'',
     '' if $root.SuperCommittee.CurrentCommittee.Deciders '',
     '' $externCount := currentCommitteeCount $key '',
     ''$key'',
     '' $externCount '',
     ''end'',
     '' if $root.SuperCommittee.PreviousCommittee.Deciders '',
     '' $externCount := previousCommitteeCount $key '',
     ''$key'',
     '' $externCount '',
     ''end'',
     ''end'',
     ''end'',
     '' with (index .Summary "block-header") '',
     ''range $key, $value := .'',
     ''$key'',
     ''$key'',
     '' len (index $value "records") '',
     ''index $value "block-max"'',
     ''index $value "epoch-max"'',
     ''index $value "shard-leader"'',
     ''end'',
     ''end'',
     '' with (index .Summary "node-metadata") '',
     ''range $key, $value := .'',
     ''$key'',
     ''$key'',
     '' len (index $value "records") '',
     '' with getCommitID $key '',
     ''.'',
     ''end'',
     ''end'',
     ''end'']\<close>

definition down_acts :: "string list" where
  \<open>down_acts =
    ['' if ne (len .NoReply) 0 '',
     '' .DownMachineCount '',
     ''range .NoReply'',
     ''.IP'',
     ''.ShardID'',
     ''.RPCPayload'',
     ''.FailureReason'',
     ''end'',
     ''end'']\<close>

definition headers_top_acts :: "string list" where
  \<open>headers_top_acts =
    ['' with (index .Summary "block-header") '',
     ''range $key, $value := .'',
     ''$key'']\<close>

definition headers_table_acts :: "string list" where
  \<open>headers_table_acts =
    ['' $key '',
     '' len (index $value "records") '',
     '' index $value "block-max" '',
     '' index $value "block-min" '',
     '' index $value "epoch-max" '',
     '' index $value "epoch-min" '',
     '' index $value "uniq-blocks" '',
     '' index $value "uniq-epochs" '',
     '' with (index $value "records") '',
     ''range .'',
     ''.IP'',
     '' .Payload.BlockHash '',
     '' .Payload.Epoch '',
     '' .Payload.BlockNumber '',
     '' .Payload.Leader '',
     '' .Payload.ViewID '',
     '' convertUnixTime .Payload.UnixTime '',
     '' .Payload.LastCommitSig '',
     '' .Payload.LastCommitBitmap '',
     ''end'',
     ''end'',
     ''end'',
     ''end'']\<close>

definition nodes_top_acts :: "string list" where
  \<open>nodes_top_acts =
    ['' with (index .Summary "node-metadata") '',
     '' range $key, $value := . '',
     ''$key'']\<close>

definition nodes_table_acts :: "string list" where
  \<open>nodes_table_acts =
    ['' $key '',
     '' len (index $value "records") '',
     '' with (index $value "records") '',
     '' range . '',
     ''if .Payload.IsLeader'',
     ''end'',
     '' .IP '',
     '' getShortBLSKey .Payload.BLSPublicKey '',
     '' .Payload.Version '',
     '' .Payload.NetworkType '',
     '' .Payload.ChainConfig.ChainID '',
     '' .Payload.ShardID '',
     '' .Payload.NodeRole '',
     '' .Payload.ArchivalNode '',
     '' .Payload.P2PConnectivity.Connected '',
     '' .Payload.P2PConnectivity.TotalKnown '',
     '' calcConnectivity .Payload.P2PConnectivity.Connected .Payload.P2PConnectivity.TotalKnown '',
     '' convertUnixTime .Payload.NodeStartTime '',
     ''end'',
     ''end'',
     '' end '',
     '' end '']\<close>

definition current_acts :: "string list" where
  \<open>current_acts =
    ['' with .SuperCommittee '',
     '' range $key, $value := .CurrentCommittee.Deciders'',
     '' $shard := getShardID $key '',
     '' $shard '',
     '' $shard '',
     '' $shard '',
     '' $shard '',
     '' with $value '',
     '' .PolicyType '',
     '' .MemberCount '',
     '' .HarmonyPower '',
     '' .StakedPower '',
     '' .TotalRawStake '',
     '' range .Committee '',
     '' with . '',
     '' $shard '',
     ''.IsHarmonyNode'',
     '' .Address '',
     '' .BLSKey '',
     '' .IsHarmonyNode '',
     '' .VotingPower '',
     '' .RawPercent '',
     '' .EffectiveStake '',
     ''end'',
     ''end'',
     ''end'',
     ''end'',
     ''end'']\<close>

definition previous_acts :: "string list" where
  \<open>previous_acts =
    ['' with .SuperCommittee '',
     '' range $key, $value := .PreviousCommittee.Deciders '',
     '' $shard := getShardID $key '',
     '' $shard '',
     '' $shard '',
     '' $shard '',
     '' $shard '',
     '' with $value '',
     '' .PolicyType '',
     '' .MemberCount '',
     '' .HarmonyPower '',
     '' .StakedPower '',
     '' .TotalRawStake '',
     '' range .Committee '',
     '' with . '',
     '' $shard '',
     '' .IsHarmonyNode '',
     '' .Address '',
     '' .BLSKey '',
     '' .IsHarmonyNode '',
     '' .VotingPower '',
     '' .RawPercent '',
     '' .EffectiveStake '',
     ''end'',
     ''end'',
     ''end'',
     ''end'',
     ''end'']\<close>

text \<open>What they parse to.\<close>

definition style_body :: "tnode list" where
  "style_body =
    [NOut (EVar ''$key'' []),
     NOut (EVar ''$key'' []),
     NOut (EVar ''$key'' []),
     NOut (EVar ''$key'' []),
     NOut (EVar ''$key'' []),
     NOut (EVar ''$key'' []),
     NOut (EVar ''$key'' []),
     NOut (EVar ''$key'' [])]"

definition style_nodes :: "tnode list" where
  "style_nodes =
    [NWith (ECall ''index'' [EField [''Summary''], EStr ''block-header''])
       [NRange [''$key'', ''$value''] EDot style_body]]"

definition chain_box_body :: "tnode list" where
  "chain_box_body =
    [NOut (EVar ''$key'' []),
     NOut (EVar ''$key'' []),
     NOut (ECall ''index'' [EVar ''$value'' [], EStr ''consensus-status'']),
     NOut (ECall ''index'' [EVar ''$value'' [], EStr ''chain-id'']),
     NOut (ECall ''index'' [EVar ''$value'' [], EStr ''cross-link-epoch'']),
     NOut (ECall ''index'' [EVar ''$value'' [], EStr ''cross-tx-epoch'']),
     NOut (ECall ''index'' [EVar ''$value'' [], EStr ''eip155-epoch'']),
     NOut (ECall ''index'' [EVar ''$value'' [], EStr ''s3-epoch'']),
     NOut (ECall ''index'' [EVar ''$value'' [], EStr ''pre-staking-epoch'']),
     NOut (ECall ''index'' [EVar ''$value'' [], EStr ''staking-epoch'']),
     NOut (ECall ''index'' [EVar ''$value'' [], EStr ''blocks-per-epoch'']),
     NOut (ECall ''index'' [EVar ''$value'' [], EStr ''dns-zone'']),
     NOut (ECall ''index'' [ECall ''index'' [ECall ''index'' [EVar ''$root'' [''Summary''], EStr ''block-header''], EVar ''$key'' []], EStr ''last-crosslink'']),
     NIf (EVar ''$root'' [''SuperCommittee'', ''CurrentCommittee'', ''Deciders''])
       [NLet ''$externCount'' (ECall ''currentCommitteeCount'' [EVar ''$key'' []]),
        NOut (EVar ''$key'' []),
        NOut (EVar ''$externCount'' [])],
     NIf (EVar ''$root'' [''SuperCommittee'', ''PreviousCommittee'', ''Deciders''])
       [NLet ''$externCount'' (ECall ''previousCommitteeCount'' [EVar ''$key'' []]),
        NOut (EVar ''$key'' []),
        NOut (EVar ''$externCount'' [])]]"

definition header_box_body :: "tnode list" where
  "header_box_body =
    [NOut (EVar ''$key'' []),
     NOut (EVar ''$key'' []),
     NOut (ECall ''len'' [ECall ''index'' [EVar ''$value'' [], EStr ''records'']]),
     NOut (ECall ''index'' [EVar ''$value'' [], EStr ''block-max'']),
     NOut (ECall ''index'' [EVar ''$value'' [], EStr ''epoch-max'']),
     NOut (ECall ''index'' [EVar ''$value'' [], EStr ''shard-leader''])]"

definition version_box_body :: "tnode list" where
  "version_box_body =
    [NOut (EVar ''$key'' []),
     NOut (EVar ''$key'' []),
     NOut (ECall ''len'' [ECall ''index'' [EVar ''$value'' [], EStr ''records'']]),
     NWith (ECall ''getCommitID'' [EVar ''$key'' []])
       [NOut EDot]]"

definition box_nodes :: "tnode list" where
  "box_nodes =
    [NRange [] (EField [''LeftTitle''])
       [NOut EDot],
     NRange [] (EField [''RightTitle''])
       [NOut EDot],
     NLet ''$root'' EDot,
     NWith (ECall ''index'' [EField [''Summary''], EStr ''chain-config''])
       [NRange [''$key'', ''$value''] EDot chain_box_body],
     NWith (ECall ''index'' [EField [''Summary''], EStr ''block-header''])
       [NRange [''$key'', ''$value''] EDot header_box_body],
     NWith (ECall ''index'' [EField [''Summary''], EStr ''node-metadata''])
       [NRange [''$key'', ''$value''] EDot version_box_body]]"

definition down_nodes :: "tnode list" where
  "down_nodes =
    [NIf (ECall ''ne'' [ECall ''len'' [EField [''NoReply'']], ENum 0])
       [NOut (EField [''DownMachineCount'']),
        NRange [] (EField [''NoReply''])
          [NOut (EField [''IP'']),
           NOut (EField [''ShardID'']),
           NOut (EField [''RPCPayload'']),
           NOut (EField [''FailureReason''])]]]"

definition header_body :: "tnode list" where
  "header_body =
    [NOut (EVar ''$key'' []),
     NOut (EVar ''$key'' []),
     NOut (EVar ''$key'' []),
     NOut (ECall ''len'' [ECall ''index'' [EVar ''$value'' [], EStr ''records'']]),
     NOut (ECall ''index'' [EVar ''$value'' [], EStr ''block-max'']),
     NOut (ECall ''index'' [EVar ''$value'' [], EStr ''block-min'']),
     NOut (ECall ''index'' [EVar ''$value'' [], EStr ''epoch-max'']),
     NOut (ECall ''index'' [EVar ''$value'' [], EStr ''epoch-min'']),
     NOut (ECall ''index'' [EVar ''$value'' [], EStr ''uniq-blocks'']),
     NOut (ECall ''index'' [EVar ''$value'' [], EStr ''uniq-epochs'']),
     NWith (ECall ''index'' [EVar ''$value'' [], EStr ''records''])
       [NRange [] EDot
          [NOut (EField [''IP'']),
           NOut (EField [''Payload'', ''BlockHash'']),
           NOut (EField [''Payload'', ''Epoch'']),
           NOut (EField [''Payload'', ''BlockNumber'']),
           NOut (EField [''Payload'', ''Leader'']),
           NOut (EField [''Payload'', ''ViewID'']),
           NOut (ECall ''convertUnixTime'' [EField [''Payload'', ''UnixTime'']]),
           NOut (EField [''Payload'', ''LastCommitSig'']),
           NOut (EField [''Payload'', ''LastCommitBitmap''])]]]"

definition header_nodes :: "tnode list" where
  "header_nodes =
    [NWith (ECall ''index'' [EField [''Summary''], EStr ''block-header''])
       [NRange [''$key'', ''$value''] EDot header_body]]"

definition node_body :: "tnode list" where
  "node_body =
    [NOut (EVar ''$key'' []),
     NOut (EVar ''$key'' []),
     NOut (EVar ''$key'' []),
     NOut (ECall ''len'' [ECall ''index'' [EVar ''$value'' [], EStr ''records'']]),
     NWith (ECall ''index'' [EVar ''$value'' [], EStr ''records''])
       [NRange [] EDot
          [NIf (EField [''Payload'', ''IsLeader''])
             [],
           NOut (EField [''IP'']),
           NOut (ECall ''getShortBLSKey'' [EField [''Payload'', ''BLSPublicKey'']]),
           NOut (EField [''Payload'', ''Version'']),
           NOut (EField [''Payload'', ''NetworkType'']),
           NOut (EField [''Payload'', ''ChainConfig'', ''ChainID'']),
           NOut (EField [''Payload'', ''ShardID'']),
           NOut (EField [''Payload'', ''NodeRole'']),
           NOut (EField [''Payload'', ''ArchivalNode'']),
           NOut (EField [''Payload'', ''P2PConnectivity'', ''Connected'']),
           NOut (EField [''Payload'', ''P2PConnectivity'', ''TotalKnown'']),
           NOut (ECall ''calcConnectivity'' [EField [''Payload'', ''P2PConnectivity'', ''Connected''], EField [''Payload'', ''P2PConnectivity'', ''TotalKnown'']]),
           NOut (ECall ''convertUnixTime'' [EField [''Payload'', ''NodeStartTime'']])]]]"

definition node_nodes :: "tnode list" where
  "node_nodes =
    [NWith (ECall ''index'' [EField [''Summary''], EStr ''node-metadata''])
       [NRange [''$key'', ''$value''] EDot node_body]]"

definition current_body :: "tnode list" where
  "current_body =
    [NLet ''$shard'' (ECall ''getShardID'' [EVar ''$key'' []]),
     NOut (EVar ''$shard'' []),
     NOut (EVar ''$shard'' []),
     NOut (EVar ''$shard'' []),
     NOut (EVar ''$shard'' []),
     NWith (EVar ''$value'' [])
       [NOut (EField [''PolicyType'']),
        NOut (EField [''MemberCount'']),
        NOut (EField [''HarmonyPower'']),
        NOut (EField [''StakedPower'']),
        NOut (EField [''TotalRawStake'']),
        NRange [] (EField [''Committee''])
          [NWith EDot
             [NOut (EVar ''$shard'' []),
              NOut (EField [''IsHarmonyNode'']),
              NOut (EField [''Address'']),
              NOut (EField [''BLSKey'']),
              NOut (EField [''IsHarmonyNode'']),
              NOut (EField [''VotingPower'']),
              NOut (EField [''RawPercent'']),
              NOut (EField [''EffectiveStake''])]]]]"

definition current_nodes :: "tnode list" where
  "current_nodes =
    [NWith (EField [''SuperCommittee''])
       [NRange [''$key'', ''$value''] (EField [''CurrentCommittee'', ''Deciders'']) current_body]]"

definition previous_body :: "tnode list" where
  "previous_body =
    [NLet ''$shard'' (ECall ''getShardID'' [EVar ''$key'' []]),
     NOut (EVar ''$shard'' []),
     NOut (EVar ''$shard'' []),
     NOut (EVar ''$shard'' []),
     NOut (EVar ''$shard'' []),
     NWith (EVar ''$value'' [])
       [NOut (EField [''PolicyType'']),
        NOut (EField [''MemberCount'']),
        NOut (EField [''HarmonyPower'']),
        NOut (EField [''StakedPower'']),
        NOut (EField [''TotalRawStake'']),
        NRange [] (EField [''Committee''])
          [NWith EDot
             [NOut (EVar ''$shard'' []),
              NOut (EField [''IsHarmonyNode'']),
              NOut (EField [''Address'']),
              NOut (EField [''BLSKey'']),
              NOut (EField [''IsHarmonyNode'']),
              NOut (EField [''VotingPower'']),
              NOut (EField [''RawPercent'']),
              NOut (EField [''EffectiveStake''])]]]]"

definition previous_nodes :: "tnode list" where
  "previous_nodes =
    [NWith (EField [''SuperCommittee''])
       [NRange [''$key'', ''$value''] (EField [''PreviousCommittee'', ''Deciders'']) previous_body]]"

definition report_nodes :: "tnode list" where
  "report_nodes = style_nodes @ box_nodes @ down_nodes @ header_nodes @ node_nodes @ current_nodes @ previous_nodes"

section \<open>Formats in pieces\<close>

lemma Sprintf_append:
  "format_ok f as \<Longrightarrow> f = [] \<or> last f \<noteq> CHR ''%'' \<Longrightarrow> Sprintf (f @ g) (as @ bs) = Sprintf f as @ Sprintf g bs"
proof (induction f as rule: Sprintf.induct)
  case (3 c as)
  then show ?case by (cases g) (auto simp: format_ok_def)
next
  case (4 c v cs as)
  then show ?case
    by (cases as) (auto simp: format_ok_def split: if_splits)
qed (auto simp: format_ok_def)

definition plain :: "string list \<Rightarrow> bool" where
  "plain ls \<longleftrightarrow> list_all (\<lambda>l. verbs (l @ [CHR 0x0A]) = []) ls"

definition plain_text :: "string list \<Rightarrow> string list" where
  "plain_text ls = map (\<lambda>l. Sprintf (l @ [CHR 0x0A]) []) ls"

lemma Sprintf_plain: "plain ls \<Longrightarrow> Sprintf (text_lines ls @ g) as = concat (plain_text ls) @ Sprintf g as"
proof (induction ls)
  case (Cons l ls)
  have "format_ok (l @ [CHR 0x0A]) []" using Cons.prems by (simp add: plain_def format_ok_def)
  then show ?case
    using Cons Sprintf_append [of "l @ [CHR 0x0A]" "[]" "text_lines ls @ g" as]
    by (simp add: plain_def plain_text_def text_lines_def)
qed (simp add: plain_text_def text_lines_def)

definition line_acts :: "string list \<Rightarrow> token list option" where
  "line_acts ls = map_option concat (all_some (map lex_acts (plain_text ls)))"

lemma lex_plain: "line_acts ls = Some as \<Longrightarrow> lex_acts (concat (plain_text ls)) = Some as"
  by (auto simp: line_acts_def intro: lex_acts_concat)


section \<open>Evaluation\<close>

lemma style_lines: "plain page_style" "line_acts page_style = Some (map TAct style_acts)"
  by code_simp+

lemma boxes_lines: "plain page_boxes" "line_acts page_boxes = Some (map TAct boxes_acts)"
  by code_simp+

lemma down_lines: "plain page_down" "line_acts page_down = Some (map TAct down_acts)"
  by code_simp+

lemma headers_top_lines: "plain page_headers_top" "line_acts page_headers_top = Some (map TAct headers_top_acts)"
  by code_simp+

lemma headers_table_lines: "plain page_headers_table" "line_acts page_headers_table = Some (map TAct headers_table_acts)"
  by code_simp+

lemma nodes_top_lines: "plain page_nodes_top" "line_acts page_nodes_top = Some (map TAct nodes_top_acts)"
  by code_simp+

lemma nodes_table_lines: "plain page_nodes_table" "line_acts page_nodes_table = Some (map TAct nodes_table_acts)"
  by code_simp+

lemma current_lines: "plain page_current" "line_acts page_current = Some (map TAct current_acts)"
  by code_simp+

lemma previous_lines: "plain page_previous" "line_acts page_previous = Some (map TAct previous_acts)"
  by code_simp+

lemma foot_lines: "plain page_foot" "line_acts page_foot = Some ([])"
  by code_simp+

lemma style_parsed:
  "parse_tokens report_funs (map TAct style_acts) ([], [], [''$'']) = Some ([], style_nodes, [''$''])"
  by code_simp

lemma box_parsed:
  "parse_tokens report_funs (map TAct boxes_acts) ([], [], [''$'']) = Some ([], box_nodes, [''$root'', ''$''])"
  by code_simp

lemma down_parsed:
  "parse_tokens report_funs (map TAct down_acts) ([], [], [''$root'', ''$'']) = Some ([], down_nodes, [''$root'', ''$''])"
  by code_simp

lemma header_parsed:
  "parse_tokens report_funs (map TAct (headers_top_acts @ [''$key''] @ headers_table_acts)) ([], [], [''$root'', ''$'']) = Some ([], header_nodes, [''$root'', ''$''])"
  by code_simp

lemma node_parsed:
  "parse_tokens report_funs (map TAct (nodes_top_acts @ [''$key''] @ nodes_table_acts)) ([], [], [''$root'', ''$'']) = Some ([], node_nodes, [''$root'', ''$''])"
  by code_simp

lemma current_parsed:
  "parse_tokens report_funs (map TAct current_acts) ([], [], [''$root'', ''$'']) = Some ([], current_nodes, [''$root'', ''$''])"
  by code_simp

lemma previous_parsed:
  "parse_tokens report_funs (map TAct previous_acts) ([], [], [''$root'', ''$'']) = Some ([], previous_nodes, [''$root'', ''$''])"
  by code_simp

section \<open>The page\<close>

text \<open>The two links, with the chain in their paths.\<close>

definition link_text :: "string \<Rightarrow> string \<Rightarrow> string \<Rightarrow> string" where
  \<open>link_text chain report param =
     ''            <a href="/report-download-'' @ chain @ ''?report='' @ report @ ''&'' @ param @
     ''={{$key}}">Download CSV</a>'' @ [CHR 0x0A]\<close>

lemma link_ok:
  "format_ok (header_link @ [CHR 0x0A]) [AStr chain, AStr report]"
  "Sprintf (header_link @ [CHR 0x0A]) [AStr chain, AStr report] = link_text chain report ''shard''"
  "format_ok (node_link @ [CHR 0x0A]) [AStr chain, AStr report]"
  "Sprintf (node_link @ [CHR 0x0A]) [AStr chain, AStr report] = link_text chain report ''vrs''"
  by (simp_all add: format_ok_def header_link_def node_link_def link_text_def fmt_verb_def)

lemma link_formats:
  "Sprintf ((header_link @ [CHR 0x0A]) @ g) (AStr chain # AStr report # as) = link_text chain report ''shard'' @ Sprintf g as"
  "Sprintf ((node_link @ [CHR 0x0A]) @ g) (AStr chain # AStr report # as) = link_text chain report ''vrs'' @ Sprintf g as"
  using Sprintf_append [OF link_ok(1), of g chain report as] Sprintf_append [OF link_ok(3), of g chain report as]
  unfolding link_ok by simp_all

lemma text_lines_append: "text_lines (ls @ ms) = text_lines ls @ text_lines ms"
  by (simp add: text_lines_def)

lemmas page_lines = style_lines boxes_lines down_lines headers_top_lines headers_table_lines
  nodes_top_lines nodes_table_lines current_lines previous_lines foot_lines

text \<open>The page is its text with the links; no operand is missing, left over or of the wrong type.\<close>

lemma reportPage_text:
  "reportPage chain =
     [CHR 0x0A] @ concat (plain_text page_style) @ concat (plain_text page_boxes) @ concat (plain_text page_down) @
     concat (plain_text page_headers_top) @ link_text chain blockHeaderReport ''shard'' @ concat (plain_text page_headers_table) @
     concat (plain_text page_nodes_top) @ link_text chain nodeMetadataReport ''vrs'' @ concat (plain_text page_nodes_table) @
     concat (plain_text page_current) @ concat (plain_text page_previous) @ concat (plain_text page_foot)"
proof -
  have one: "text_lines [l] = l @ [CHR 0x0A]" for l by (simp add: text_lines_def)
  have blank: "Sprintf (([] @ [CHR 0x0A]) @ g) as = [CHR 0x0A] @ Sprintf g as" for g as
    using Sprintf_plain [of "[[]]" g as] by (simp add: plain_def plain_text_def one)
  have foot: "Sprintf (text_lines page_foot) [] = concat (plain_text page_foot)"
    using Sprintf_plain [OF foot_lines(1), of "[]" "[]"] by simp
  show ?thesis
    unfolding reportPage_def text_lines_append one
    by (simp only: Sprintf_plain page_lines blank link_formats foot)
qed

lemma lex_prefix: "CHR ''{'' \<notin> set s \<Longrightarrow> lex_acts t = Some as \<Longrightarrow> lex_acts (s @ t) = Some as"
  using lex_acts_append [OF lex_acts_text] by fastforce

lemma link_acts:
  assumes "CHR ''{'' \<notin> set chain"
  shows "lex_acts (link_text chain blockHeaderReport ''shard'') = Some [TAct ''$key'']"
    and "lex_acts (link_text chain nodeMetadataReport ''vrs'') = Some [TAct ''$key'']"
proof -
  have k: \<open>lex_acts (''={{$key}}">Download CSV</a>'' @ [CHR 0x0A]) = Some [TAct ''$key'']\<close> by code_simp
  show "lex_acts (link_text chain blockHeaderReport ''shard'') = Some [TAct ''$key'']"
    "lex_acts (link_text chain nodeMetadataReport ''vrs'') = Some [TAct ''$key'']"
    unfolding link_text_def
    by (intro lex_prefix k; simp add: assms blockHeaderReport_def nodeMetadataReport_def)+
qed

lemma reportPage_acts:
  assumes "CHR ''{'' \<notin> set chain"
  shows "lex_acts (reportPage chain) = Some (map TAct style_acts @ map TAct boxes_acts @ map TAct down_acts @
    map TAct headers_top_acts @ [TAct ''$key''] @ map TAct headers_table_acts @
    map TAct nodes_top_acts @ [TAct ''$key''] @ map TAct nodes_table_acts @
    map TAct current_acts @ map TAct previous_acts)"
proof -
  have "lex_acts [CHR 0x0A] = Some []" by code_simp
  note parts = this page_lines(2,4,6,8,10,12,14,16,18,20) [THEN lex_plain]
  show ?thesis
    unfolding reportPage_text
    using parts link_acts [OF assms] by (simp only: lex_acts_append append_Nil append_Nil2)
qed

lemma reportPage_nodes:
  assumes "CHR ''{'' \<notin> set chain"
  shows "\<exists>ns. template_Parse report_funs (reportPage chain) = Some ns \<and> strips ns = report_nodes"
proof (rule template_Parse_acts [OF reportPage_acts [OF assms]])
  have "parse_tokens report_funs (map TAct style_acts @ map TAct boxes_acts @ map TAct down_acts @
      map TAct (headers_top_acts @ [''$key''] @ headers_table_acts) @
      map TAct (nodes_top_acts @ [''$key''] @ nodes_table_acts) @
      map TAct current_acts @ map TAct previous_acts @ []) ([], [], [''$'']) =
    Some ([], report_nodes, [''$root'', ''$''])"
    unfolding report_nodes_def
    by (simp only: parse_tokens_section [OF style_parsed] parse_tokens_section [OF box_parsed]
        parse_tokens_section [OF down_parsed] parse_tokens_section [OF header_parsed]
        parse_tokens_section [OF node_parsed] parse_tokens_section [OF current_parsed]
        parse_tokens_section [OF previous_parsed] parse_tokens.simps append_assoc append_Nil)
  then show "parse_tokens report_funs (map TAct style_acts @ map TAct boxes_acts @ map TAct down_acts @
    map TAct headers_top_acts @ [TAct ''$key''] @ map TAct headers_table_acts @
    map TAct nodes_top_acts @ [TAct ''$key''] @ map TAct nodes_table_acts @
    map TAct current_acts @ map TAct previous_acts) ([], [], [''$'']) = Some ([], report_nodes, [''$root'', ''$''])"
    by simp
qed

end
