(* ===== verification/Report.thy ===== *)
theory Report
  imports Manager Alerts Html
begin

text \<open>
  The serving side of \<^verbatim>\<open>reporting-server.go\<close>: \<^verbatim>\<open>networkSnapshot\<close>, \<^verbatim>\<open>statusSnapshot\<close>,
  \<^verbatim>\<open>renderReport\<close> with the functions of its template, \<^verbatim>\<open>produceCSV\<close> and the routes of
  \<^verbatim>\<open>startReportingHTTPServer\<close>.
\<close>

section \<open>Handlers\<close>

text \<open>
  How a handler ends: it returns, it panics (net/http recovers the panic of a handler, and what
  the handler did to the monitor stays, a lock it holds included), or it waits for the lock
  forever.
\<close>

datatype 'a handled = Returned 'a monitor | Panicked panic monitor | Waits monitor

text \<open>The loop body gets the values of an interface slice.\<close>

fun assert_all :: "('a \<Rightarrow> 'b result) \<Rightarrow> 'a list \<Rightarrow> 'b list result" where
  "assert_all f [] = Inr []"
| "assert_all f (x # xs) =
     (case f x of
        Inl p \<Rightarrow> Inl p
      | Inr y \<Rightarrow> (case assert_all f xs of Inl p \<Rightarrow> Inl p | Inr ys \<Rightarrow> Inr (y # ys)))"

section \<open>networkSnapshot\<close>

record networkReport =
  nr_Build :: string
  nr_Chain :: string
  nr_ConsensusProgress :: "(string, bool) gomap"
  nr_Summary :: summary
  nr_NoReplies :: "noReply list"

text \<open>The nodes of a version, and the leaders among them by shard.\<close>

definition version_records :: "ival \<Rightarrow> NodeMetadata list result" where
  "version_records v =
     (case as_map v of
        Inl p \<Rightarrow> Inl p
      | Inr e \<Rightarrow> (case as_slice (iget e ''records'') of Inl p \<Rightarrow> Inl p | Inr vs \<Rightarrow> assert_all as_meta vs))"

definition add_leaders :: "linq \<Rightarrow> string \<times> ival \<Rightarrow> (string, string list) gomap \<Rightarrow> (string, string list) gomap result" where
  "add_leaders lq kv leaders =
     (case version_records (snd kv) of
        Inl p \<Rightarrow> Inl p
      | Inr ns \<Rightarrow>
          Inr (fold (\<lambda>n. map_append (FormatUint (ucast (meta_shard n) :: u64)) (md_IP n))
                 (lq_where_meta lq (\<lambda>n. nm_IsLeader (md_Payload n)) ns) leaders))"

text \<open>\<^verbatim>\<open>if sum[key][k] != nil { sum[key][k].(any)[field] = v }\<close>\<close>

definition set_field :: "string \<Rightarrow> string \<Rightarrow> string \<Rightarrow> ival \<Rightarrow> summary \<Rightarrow> summary result" where
  "set_field key k field v sm =
     (if iget (sget sm key) k = VNil then Inr sm
      else case as_any (iget (sget sm key) k) of
             Inl p \<Rightarrow> Inl p
           | Inr e \<Rightarrow> Inr (sput key k (VAny (AList.update field v e)) sm))"

text \<open>
  The second critical section: what the monitor holds at that moment is added to the summary
  and to the report.
\<close>

definition finish_snapshot ::
  "((string \<times> bool) list \<Rightarrow> (string \<times> bool) list) \<Rightarrow> string \<Rightarrow> summary \<Rightarrow> monitor \<Rightarrow> networkReport handled" where
  "finish_snapshot ord build sm m =
     (case lock m of
        None \<Rightarrow> Waits m
      | Some m \<Rightarrow>
          (let cnsProgressCpy = fold (\<lambda>kv. AList.update (fst kv) (snd kv)) (ord (m_consensusProgress m)) [];
               totalNoReplyMachines = mc_Down (m_MetadataSnapshot m) @ bc_Down (m_BlockHeaderSnapshot m)
           in case fold_result (\<lambda>v. set_field headerSumry (Itoa (cl_ShardID v)) ''last-crosslink''
                      (VInt (cl_BlockNumber v))) (lc_CrossLinks (m_LastCrossLinks m)) sm of
                Inl p \<Rightarrow> Panicked p m
              | Inr sm \<Rightarrow>
                  Returned \<lparr>nr_Build = build, nr_Chain = m_chain m, nr_ConsensusProgress = cnsProgressCpy,
                            nr_Summary = sm, nr_NoReplies = totalNoReplyMachines\<rparr> (unlock m)))"

text \<open>The summary of the snapshots, under the lock.\<close>

definition take_summary :: "linq \<Rightarrow> monitor \<Rightarrow> summary handled" where
  "take_summary lq m =
     (case lock m of
        None \<Rightarrow> Waits m
      | Some m \<Rightarrow>
          (case summaryMaps lq (mc_Nodes (m_MetadataSnapshot m)) (bc_Nodes (m_BlockHeaderSnapshot m)) of
             (hs, r) \<Rightarrow>
               (let m = m\<lparr>m_BlockHeaderSnapshot := (m_BlockHeaderSnapshot m)\<lparr>bc_Nodes := hs\<rparr>\<rparr>
                in case r of Inl p \<Rightarrow> Panicked p m | Inr sm \<Rightarrow> Returned sm (unlock m))))"

text \<open>
  \<open>other\<close> is what the other goroutines do to the monitor while \<^verbatim>\<open>networkSnapshot\<close> does not hold
  the lock.
\<close>

definition networkSnapshot ::
  "linq \<Rightarrow> ((string \<times> ival) list \<Rightarrow> (string \<times> ival) list) \<Rightarrow>
   ((string \<times> string list) list \<Rightarrow> (string \<times> string list) list) \<Rightarrow>
   ((string \<times> bool) list \<Rightarrow> (string \<times> bool) list) \<Rightarrow> string \<Rightarrow> (monitor \<Rightarrow> monitor) \<Rightarrow> monitor \<Rightarrow>
   networkReport handled" where
  "networkSnapshot lq ord ord' ord'' build other m =
     (case take_summary lq m of
        Waits m \<Rightarrow> Waits m
      | Panicked p m \<Rightarrow> Panicked p m
      | Returned sm m \<Rightarrow>
          (case fold_result (add_leaders lq) (ord (sget sm metaSumry)) [] of
             Inl p \<Rightarrow> Panicked p (other m)
           | Inr leaders \<Rightarrow>
               (case fold_result (\<lambda>kv. set_field headerSumry (fst kv) ''shard-leader'' (VStrs (snd kv)))
                       (ord' leaders) sm of
                  Inl p \<Rightarrow> Panicked p (other m)
                | Inr sm \<Rightarrow> finish_snapshot ord'' build sm (other m))))"

section \<open>statusSnapshot\<close>

record shardStatus =
  ss_ShardID :: string
  ss_Consensus :: bool
  ss_Block :: u64
  ss_BlockTimestamp :: string
  ss_Epoch :: u64
  ss_LeaderAddress :: string

record statusReport =
  sr_Shards :: "shardStatus list"
  sr_Versions :: "string list"
  sr_AvailSeats :: int
  sr_ElectedSeats :: int
  sr_Validators :: int

definition shard_status :: "(string, bool) gomap \<Rightarrow> string \<times> ival \<Rightarrow> shardStatus result" where
  "shard_status cnsProgressCpy kv =
     (case as_any (snd kv) of
        Inl p \<Rightarrow> Inl p
      | Inr e \<Rightarrow>
          (case as_header (iget e ''latest-block'') of
             Inl p \<Rightarrow> Inl p
           | Inr sample \<Rightarrow>
               (case as_uint (iget e blockMax) of
                  Inl p \<Rightarrow> Inl p
                | Inr block \<Rightarrow>
                    (case as_uint (iget e ''epoch-max'') of
                       Inl p \<Rightarrow> Inl p
                     | Inr epoch \<Rightarrow>
                         Inr \<lparr>ss_ShardID = fst kv,
                              ss_Consensus = (case map_of cnsProgressCpy (fst kv) of None \<Rightarrow> False | Some b \<Rightarrow> b),
                              ss_Block = block, ss_BlockTimestamp = bh_Timestamp (hd_Payload sample),
                              ss_Epoch = epoch, ss_LeaderAddress = bh_Leader (hd_Payload sample)\<rparr>))))"

text \<open>The members of the committees that are not nodes of the operator.\<close>

definition external_members :: "(string \<times> CommitteeInfo) list \<Rightarrow> CommitteeMember list" where
  "external_members ds = concat (map (\<lambda>d. filter (\<lambda>v. \<not> cm_IsHarmonyNode v) (ci_Committee (snd d))) ds)"

text \<open>
  The copy of the progress is made in the critical section that makes the summary; the
  committees are read without the lock (\<open>other\<close> is what happens after it is released).
\<close>

definition statusSnapshot ::
  "linq \<Rightarrow> ((string \<times> bool) list \<Rightarrow> (string \<times> bool) list) \<Rightarrow> ((string \<times> ival) list \<Rightarrow> (string \<times> ival) list) \<Rightarrow>
   ((string \<times> CommitteeInfo) list \<Rightarrow> (string \<times> CommitteeInfo) list) \<Rightarrow> (monitor \<Rightarrow> monitor) \<Rightarrow> monitor \<Rightarrow>
   statusReport handled" where
  "statusSnapshot lq ord ord' ord'' other m =
     (case take_summary lq m of
        Waits m \<Rightarrow> Waits m
      | Panicked p m \<Rightarrow> Panicked p m
      | Returned sm m \<Rightarrow>
          (let cnsProgressCpy = fold (\<lambda>kv. AList.update (fst kv) (snd kv)) (ord (m_consensusProgress m)) [];
               m = other m;
               committee = sc_CurrentCommittee (m_SuperCommittee m);
               members = external_members (ord'' (qc_Deciders committee))
           in case assert_all (shard_status cnsProgressCpy) (ord' (sget sm headerSumry)) of
                Inl p \<Rightarrow> Panicked p m
              | Inr status \<Rightarrow>
                  Returned \<lparr>sr_Shards = status, sr_Versions = keys (ord' (sget sm metaSumry)),
                            sr_AvailSeats = qc_ExternalCount committee,
                            sr_ElectedSeats = int (length members),
                            sr_Validators = int (length (lq_distinct_string lq (map cm_Address members)))\<rparr> m))"

section \<open>The functions of the report's template\<close>

definition getCommitID :: "string \<Rightarrow> string" where
  "getCommitID version = hd (Split (last (Split version ''-g'')) '' '')"

definition committee_count :: "QuorumCommittee \<Rightarrow> string \<Rightarrow> string" where
  "committee_count committee shardID =
     Itoa (ci_Externals
       (case map_of (qc_Deciders committee) (''shard-'' @ shardID) of
          None \<Rightarrow> zero_CommitteeInfo
        | Some info \<Rightarrow> info))"

definition currentCommitteeCount :: "monitor \<Rightarrow> string \<Rightarrow> string" where
  "currentCommitteeCount m shardID = committee_count (sc_CurrentCommittee (m_SuperCommittee m)) shardID"

definition previousCommitteeCount :: "monitor \<Rightarrow> string \<Rightarrow> string" where
  "previousCommitteeCount m shardID = committee_count (sc_PreviousCommittee (m_SuperCommittee m)) shardID"

definition getShardID :: "string \<Rightarrow> string result" where
  "getShardID s = slice s (int (length s) - 1) (int (length s))"

definition calcConnectivity :: "int \<Rightarrow> int \<Rightarrow> string" where
  "calcConnectivity connected' known =
     (if known \<noteq> 0
      then Sprintf ''%d%%'' [AInt ''int''
             (int_of_float (fl (fl (float_of_int connected' / float_of_int known) * 100)))]
      else ''N/A'')"

definition convertUnixTime :: "int \<Rightarrow> string" where
  "convertUnixTime t = format_time (time_Unix t)"

fun short_keys :: "string list \<Rightarrow> int \<Rightarrow> int \<Rightarrow> string \<Rightarrow> string" where
  "short_keys [] i left displayStr = displayStr"
| "short_keys (k # ks) i left displayStr =
     (if length k = 96 then
        (let displayStr = displayStr @ take 3 k @ ''...'' @ drop (length k - 3) k;
             displayStr = (if i \<noteq> left then displayStr @ '', '' else displayStr)
         in short_keys ks (i + 1) left displayStr)
      else short_keys ks (i + 1) (left - 1) displayStr)"

definition getShortBLSKey :: "string list \<Rightarrow> string" where
  "getShortBLSKey keys' =
     short_keys keys' 0 (int (length keys')) (if keys' = [] then ''No BLS keys'' else [])"

section \<open>The values of the template\<close>

text \<open>The structures and interface values as a template sees them: every exported field by its name.\<close>

definition gv_BlockHeader :: "BlockHeader \<Rightarrow> gv" where
  "gv_BlockHeader h =
     (let p = hd_Payload h
      in GStruct [(''Payload'', GStruct
           [(''BlockHash'', GStr (bh_BlockHash p)), (''BlockNumber'', GInt (uint (bh_BlockNumber p))),
            (''ShardID'', GInt (uint (bh_ShardID p))), (''Leader'', GStr (bh_Leader p)),
            (''ViewID'', GInt (uint (bh_ViewID p))), (''Epoch'', GInt (uint (bh_Epoch p))),
            (''Timestamp'', GStr (bh_Timestamp p)), (''UnixTime'', GInt (bh_UnixTime p)),
            (''LastCommitSig'', GStr (bh_LastCommitSig p)), (''LastCommitBitmap'', GStr (bh_LastCommitBitmap p))]),
          (''IP'', GStr (hd_IP h))])"

definition gv_NodeMetadata :: "NodeMetadata \<Rightarrow> gv" where
  "gv_NodeMetadata d =
     (let p = md_Payload d; c = nm_ChainConfig p; n = nm_P2PConnectivity p
      in GStruct [(''Payload'', GStruct
           [(''BLSPublicKey'', GList (map GStr (nm_BLSPublicKey p))), (''Version'', GStr (nm_Version p)),
            (''NetworkType'', GStr (nm_NetworkType p)), (''IsLeader'', GBool (nm_IsLeader p)),
            (''ShardID'', GInt (uint (nm_ShardID p))), (''NodeRole'', GStr (nm_NodeRole p)),
            (''BlocksPerEpoch'', GInt (nm_BlocksPerEpoch p)), (''DNSZone'', GStr (nm_DNSZone p)),
            (''ArchivalNode'', GBool (nm_ArchivalNode p)), (''NodeStartTime'', GInt (nm_NodeStartTime p)),
            (''ChainConfig'', GStruct
               [(''ChainID'', GInt (cc_ChainID c)), (''CrossLinkEpoch'', GInt (cc_CrossLinkEpoch c)),
                (''CrossTxEpoch'', GInt (cc_CrossTxEpoch c)), (''Eip155Epoch'', GInt (cc_Eip155Epoch c)),
                (''PreStakingEpoch'', GInt (cc_PreStakingEpoch c)), (''S3Epoch'', GInt (cc_S3Epoch c)),
                (''StakingEpoch'', GInt (cc_StakingEpoch c))]),
            (''P2PConnectivity'', GStruct
               [(''Connected'', GInt (p2p_Connected n)), (''NotConnected'', GInt (p2p_NotConnected n)),
                (''TotalKnown'', GInt (p2p_TotalKnown n))])]),
          (''IP'', GStr (md_IP d))])"

fun gv_of :: "ival \<Rightarrow> gv" where
  "gv_of VNil = GNil"
| "gv_of (VBool b) = GBool b"
| "gv_of (VInt i) = GInt i"
| "gv_of (VUint u) = GInt (uint u)"
| "gv_of (VStr s) = GStr s"
| "gv_of (VUints us) = GList (map (\<lambda>u. GInt (uint u)) us)"
| "gv_of (VStrs ss) = GList (map GStr ss)"
| "gv_of (VHeader h) = gv_BlockHeader h"
| "gv_of (VMeta d) = gv_NodeMetadata d"
| "gv_of (VSlice vs) = GList (map gv_of vs)"
| "gv_of (VAny m) = GMap (map (\<lambda>(k, v). (k, gv_of v)) m)"
| "gv_of (VMap m) = GMap (map (\<lambda>(k, v). (k, gv_of v)) m)"

definition gv_summary :: "summary \<Rightarrow> gv" where
  "gv_summary sm = GMap (map (\<lambda>(key, m). (key, GMap (map (\<lambda>(k, v). (k, gv_of v)) m))) sm)"

definition gv_CommitteeMember :: "CommitteeMember \<Rightarrow> gv" where
  "gv_CommitteeMember c = GStruct
     [(''Address'', GStr (cm_Address c)), (''IsHarmonyNode'', GBool (cm_IsHarmonyNode c)),
      (''BLSKey'', GStr (cm_BLSKey c)), (''RawPercent'', GStr (cm_RawPercent c)),
      (''VotingPower'', GStr (cm_VotingPower c)), (''EffectiveStake'', GStr (cm_EffectiveStake c))]"

definition gv_CommitteeInfo :: "CommitteeInfo \<Rightarrow> gv" where
  "gv_CommitteeInfo c = GStruct
     [(''PolicyType'', GStr (ci_PolicyType c)), (''MemberCount'', GInt (ci_MemberCount c)),
      (''Externals'', GInt (ci_Externals c)), (''Committee'', GList (map gv_CommitteeMember (ci_Committee c))),
      (''HarmonyPower'', GStr (ci_HarmonyPower c)), (''StakedPower'', GStr (ci_StakedPower c)),
      (''TotalRawStake'', GStr (ci_TotalRawStake c))]"

definition gv_QuorumCommittee :: "QuorumCommittee \<Rightarrow> gv" where
  "gv_QuorumCommittee q = GStruct
     [(''Deciders'', GMap (map (\<lambda>(k, c). (k, gv_CommitteeInfo c)) (qc_Deciders q))),
      (''ExternalCount'', GInt (qc_ExternalCount q))]"

definition gv_noReply :: "noReply \<Rightarrow> gv" where
  "gv_noReply n = GStruct
     [(''IP'', GStr (nr_IP n)), (''FailureReason'', GStr (nr_FailureReason n)),
      (''RPCPayload'', GStr (nr_RPCPayload n)), (''ShardID'', GInt (nr_ShardID n))]"

text \<open>
  The functions, on values of the types they are declared with. A panic inside a function ends
  the execution of the template with an error.
\<close>

fun strings_of :: "gv list \<Rightarrow> string list option" where
  "strings_of [] = Some []"
| "strings_of (GStr s # vs) = map_option ((#) s) (strings_of vs)"
| "strings_of (v # vs) = None"

definition string_fun :: "(string \<Rightarrow> string result) \<Rightarrow> gv list \<Rightarrow> gv option" where
  "string_fun f args =
     (case args of [GStr s] \<Rightarrow> (case f s of Inl p \<Rightarrow> None | Inr r \<Rightarrow> Some (GStr r)) | _ \<Rightarrow> None)"

definition FuncMap :: "monitor \<Rightarrow> funcmap" where
  "FuncMap m f args =
     (if f = ''getCommitID'' then string_fun (Inr \<circ> getCommitID) args
      else if f = ''currentCommitteeCount'' then string_fun (Inr \<circ> currentCommitteeCount m) args
      else if f = ''previousCommitteeCount'' then string_fun (Inr \<circ> previousCommitteeCount m) args
      else if f = ''getShardID'' then string_fun getShardID args
      else if f = ''calcConnectivity'' then
        (case args of [GInt c, GInt k] \<Rightarrow> Some (GStr (calcConnectivity c k)) | _ \<Rightarrow> None)
      else if f = ''convertUnixTime'' then
        (case args of [GInt t] \<Rightarrow> Some (GStr (convertUnixTime t)) | _ \<Rightarrow> None)
      else if f = ''getShortBLSKey'' then
        (case args of
           [GList ks] \<Rightarrow> map_option (\<lambda>ss. GStr (getShortBLSKey ss)) (strings_of ks)
         | _ \<Rightarrow> None)
      else None)"

section \<open>renderReport\<close>

text \<open>What the template is executed with.\<close>

record page =
  pg_LeftTitle :: "string list"
  pg_RightTitle :: "string list"
  pg_Summary :: summary
  pg_SuperCommittee :: SuperCommitteeReply
  pg_NoReply :: "noReply list"
  pg_DownMachineCount :: int

definition gv_page :: "page \<Rightarrow> gv" where
  "gv_page pg = GStruct
     [(''LeftTitle'', GList (map GStr (pg_LeftTitle pg))), (''RightTitle'', GList (map GStr (pg_RightTitle pg))),
      (''Summary'', gv_summary (pg_Summary pg)),
      (''SuperCommittee'', GStruct
         [(''PreviousCommittee'', gv_QuorumCommittee (sc_PreviousCommittee (pg_SuperCommittee pg))),
          (''CurrentCommittee'', gv_QuorumCommittee (sc_CurrentCommittee (pg_SuperCommittee pg)))]),
      (''NoReply'', GList (map gv_noReply (pg_NoReply pg))),
      (''DownMachineCount'', GInt (pg_DownMachineCount pg))]"

text \<open>
  The answer: an error page, or what executing the template wrote and whether it came to the
  end (the code ignores an error of the execution).
\<close>

datatype rendered = PageError int | Page page "piece list" bool

text \<open>
  \<open>now\<close> is the current time as it is printed. \<open>other'\<close> is what the other goroutines do until the
  last critical section; executing the template does not change the monitor.
\<close>

definition renderReport ::
  "linq \<Rightarrow> ((string \<times> ival) list \<Rightarrow> (string \<times> ival) list) \<Rightarrow>
   ((string \<times> string list) list \<Rightarrow> (string \<times> string list) list) \<Rightarrow>
   ((string \<times> bool) list \<Rightarrow> (string \<times> bool) list) \<Rightarrow>
   ((string \<times> (string, ival) gomap) list \<Rightarrow> (string \<times> (string, ival) gomap) list) \<Rightarrow>
   string \<Rightarrow> string \<Rightarrow> (monitor \<Rightarrow> monitor) \<Rightarrow> (monitor \<Rightarrow> monitor) \<Rightarrow> monitor \<Rightarrow> rendered handled" where
  "renderReport lq ord ord' ord'' ords build now other other' m =
     (case networkSnapshot lq ord ord' ord'' build other m of
        Waits m \<Rightarrow> Waits m
      | Panicked p m \<Rightarrow> Panicked p m
      | Returned report m \<Rightarrow>
          (case fold_result (\<lambda>kv. set_field chainSumry (fst kv) ''consensus-status'' (VBool (snd kv)))
                  (ord'' (nr_ConsensusProgress report)) (nr_Summary report) of
             Inl p \<Rightarrow> Panicked p (other' m)
           | Inr sm \<Rightarrow>
               (case template_Parse report_funs (reportPage (m_chain m)) of
                  None \<Rightarrow> Returned (PageError 500) (other' m)
                | Some t \<Rightarrow>
                    (let pg = \<lparr>pg_LeftTitle = [nr_Chain report], pg_RightTitle = [nr_Build report, now],
                               pg_Summary = sm, pg_SuperCommittee = m_SuperCommittee m,
                               pg_NoReply = nr_NoReplies report,
                               pg_DownMachineCount = int (length (lq_distinct_string lq
                                 (lq_select_noReply lq nr_IP (nr_NoReplies report))))\<rparr>;
                         (out, complete) = template_Execute (FuncMap m) t (gv_page pg)
                     in case lock (other' m) of
                          None \<Rightarrow> Waits (other' m)
                        | Some m \<Rightarrow>
                            Returned (Page pg out complete)
                              (unlock ((summaryCopy ords ord sm m)\<lparr>m_NoReplySnapshot := nr_NoReplies report\<rparr>))))))"

section \<open>produceCSV\<close>

text \<open>The header rows that \<^verbatim>\<open>init\<close> builds by reflection on the two structures.\<close>

definition BlockHeader_fields :: "string list" where
  "BlockHeader_fields = [''Payload'', ''IP'']"

definition NodeMetadata_fields :: "string list" where
  "NodeMetadata_fields = [''Payload'', ''IP'']"

definition headerInformationCSVHeader :: "string list" where
  "headerInformationCSVHeader = ''IP'' # BlockHeader_fields"

definition nodeMetadataCSVHeader :: "string list" where
  "nodeMetadataCSVHeader = ''IP'' # NodeMetadata_fields"

definition header_row :: "string \<Rightarrow> BlockHeader \<Rightarrow> string list" where
  "header_row shard v =
     (let p = hd_Payload v
      in [hd_IP v, bh_BlockHash p, FormatUint (bh_BlockNumber p), shard, bh_Leader p,
          FormatUint (bh_ViewID p), FormatUint (bh_Epoch p), bh_Timestamp p, FormatInt (bh_UnixTime p),
          bh_LastCommitSig p, bh_LastCommitBitmap p])"

definition bls_column :: "string list \<Rightarrow> string" where
  "bls_column ks = fold (\<lambda>k blsKeys. (if blsKeys \<noteq> [] then blsKeys @ '', '' else blsKeys) @ k) ks []"

definition meta_row :: "NodeMetadata \<Rightarrow> string list" where
  "meta_row v =
     (let p = md_Payload v
      in [md_IP v, bls_column (nm_BLSPublicKey p), nm_Version p, nm_NetworkType p,
          FormatUint (word_of_int (cc_ChainID (nm_ChainConfig p)) :: u64), FormatBool (nm_IsLeader p),
          FormatUint (ucast (nm_ShardID p) :: u64), nm_NodeRole p, FormatBool (nm_ArchivalNode p)])"

text \<open>The response: an error with its status code, or the file name and the records.\<close>

datatype response = HttpError string int | Csv string "string list list"

text \<open>The records of one shard, and of one version; both run under the lock.\<close>

definition header_records :: "summary \<Rightarrow> string \<Rightarrow> string list list result" where
  "header_records snap shard =
     (case as_any (iget (sget snap headerSumry) shard) of
        Inl p \<Rightarrow> Inl p
      | Inr e \<Rightarrow>
          (case as_slice (iget e ''records'') of
             Inl p \<Rightarrow> Inl p
           | Inr vs \<Rightarrow>
               (case assert_all as_header vs of
                  Inl p \<Rightarrow> Inl p
                | Inr hs \<Rightarrow> Inr (map (header_row shard) hs))))"

definition meta_records :: "summary \<Rightarrow> string \<Rightarrow> string list list result" where
  "meta_records snap vrs =
     (if iget (sget snap metaSumry) vrs = VNil then Inr []
      else case version_records (iget (sget snap metaSumry) vrs) of
             Inl p \<Rightarrow> Inl p
           | Inr ns \<Rightarrow> Inr (map meta_row ns))"

definition csv_under_lock ::
  "string \<Rightarrow> string list \<Rightarrow> (summary \<Rightarrow> string list list result) \<Rightarrow> monitor \<Rightarrow> response handled" where
  "csv_under_lock filename header rows m =
     (case lock m of
        None \<Rightarrow> Waits m
      | Some m \<Rightarrow>
          (case rows (m_SummarySnapshot m) of
             Inl p \<Rightarrow> Panicked p m
           | Inr rs \<Rightarrow> Returned (Csv filename (header # rs)) (unlock m)))"

text \<open>The query maps a parameter to its values; a parameter that occurs has at least one.\<close>

definition produceCSV :: "(string, string list) gomap \<Rightarrow> monitor \<Rightarrow> response handled" where
  "produceCSV query m =
     (case map_of query ''report'' of
        None \<Rightarrow> Returned (HttpError ''report not chosen in query param'' 400) m
      | Some ks \<Rightarrow>
          if hd ks = blockHeaderReport then
            (case map_of query ''shard'' of
               None \<Rightarrow> Returned (HttpError ''shard not chosen in query param'' 400) m
             | Some shard \<Rightarrow>
                 csv_under_lock (blockHeaderReport @ ''.csv'') headerInformationCSVHeader
                   (\<lambda>snap. header_records snap (hd shard)) m)
          else if hd ks = nodeMetadataReport then
            (case map_of query ''vrs'' of
               None \<Rightarrow> Returned (HttpError ''version not chosen in query param'' 400) m
             | Some vrs \<Rightarrow>
                 csv_under_lock (nodeMetadataReport @ ''.csv'') nodeMetadataCSVHeader
                   (\<lambda>snap. meta_records snap (hd vrs)) m)
          else Returned (Csv [] []) m)"

section \<open>Routes\<close>

datatype route = R_renderReport | R_produceCSV | R_networkSnapshotJSON | R_statusJSON

definition routes :: "watchParams \<Rightarrow> (string \<times> route) list" where
  "routes params =
     [(''/report-'' @ wp_TargetChain params, R_renderReport),
      (''/report-download-'' @ wp_TargetChain params, R_produceCSV),
      (''/network-'' @ wp_TargetChain params, R_networkSnapshotJSON),
      (''/status-'' @ wp_TargetChain params, R_statusJSON)]"

section \<open>Writing fields of the entries\<close>

text \<open>Every entry under a key of the summary is a map of the type \<^verbatim>\<open>any\<close>.\<close>

definition any_entries :: "summary \<Rightarrow> string \<Rightarrow> bool" where
  "any_entries sm key \<longleftrightarrow> (\<forall>k v. map_of (sget sm key) k = Some v \<longrightarrow> (\<exists>e. v = VAny e))"

definition put_field :: "string \<Rightarrow> string \<Rightarrow> string \<Rightarrow> ival \<Rightarrow> summary \<Rightarrow> summary" where
  "put_field key k field v sm =
     (case map_of (sget sm key) k of
        Some (VAny e) \<Rightarrow> sput key k (VAny (AList.update field v e)) sm
      | _ \<Rightarrow> sm)"

lemma set_field_total: "any_entries sm key \<Longrightarrow> set_field key k field v sm = Inr (put_field key k field v sm)"
proof (cases "map_of (sget sm key) k")
  case (Some x)
  assume "any_entries sm key"
  then obtain e where "x = VAny e" using Some unfolding any_entries_def by blast
  then show ?thesis using Some by (simp add: set_field_def put_field_def iget_def assertions)
qed (simp add: set_field_def put_field_def iget_def)

lemma lookup_put_field:
  "map_of (sget (put_field key k field v sm) key') k' =
     (case map_of (sget sm key') k' of
        Some (VAny e) \<Rightarrow> Some (VAny (if key' = key \<and> k' = k then AList.update field v e else e))
      | r \<Rightarrow> r)"
  by (auto simp: put_field_def sget_sput map_of_update_eq split: option.splits ival.splits)

lemma any_put_field: "any_entries sm key' \<Longrightarrow> any_entries (put_field key k field v sm) key'"
  by (auto simp: any_entries_def lookup_put_field split: option.splits ival.splits)

lemma put_field_frame:
  "key' \<noteq> key \<Longrightarrow> sget (put_field key k field v sm) key' = sget sm key'"
  "fst ` set (sget (put_field key k field v sm) key) = fst ` set (sget sm key)"
  "gomap (sget sm key') \<Longrightarrow> gomap (sget (put_field key k field v sm) key')"
  by (auto simp: put_field_def sget_sput dom_update split: option.splits ival.splits dest: map_of_SomeD
      intro: rev_image_eqI)

lemma set_field_fold:
  "any_entries sm key \<Longrightarrow>
   fold_result (\<lambda>x. set_field key (f x) field (g x)) xs sm = Inr (fold (\<lambda>x. put_field key (f x) field (g x)) xs sm)"
  by (induction xs arbitrary: sm) (simp_all add: set_field_total any_put_field)

lemma put_fold_frame:
  fixes xs :: "'a list"
  shows "key' \<noteq> key \<Longrightarrow> sget (fold (\<lambda>x. put_field key (f x) field (g x)) xs sm) key' = sget sm key'"
    and "fst ` set (sget (fold (\<lambda>x. put_field key (f x) field (g x)) xs sm) key) = fst ` set (sget sm key)"
    and "gomap (sget sm key') \<Longrightarrow> gomap (sget (fold (\<lambda>x. put_field key (f x) field (g x)) xs sm) key')"
    and "any_entries sm key' \<Longrightarrow> any_entries (fold (\<lambda>x. put_field key (f x) field (g x)) xs sm) key'"
  by (induction xs arbitrary: sm) (simp_all add: put_field_frame any_put_field)

text \<open>All maps of a summary have distinct keys.\<close>

definition summary_wf :: "summary \<Rightarrow> bool" where
  "summary_wf sm \<longleftrightarrow> gomap sm \<and> (\<forall>k. gomap (sget sm k))"

lemma summary_wf_inner: "summary_wf sm \<Longrightarrow> kv \<in> set sm \<Longrightarrow> gomap (snd kv)"
  unfolding summary_wf_def sget_def gomap_def
  by (metis map_of_is_SomeI option.simps(5) prod.collapse)

lemma wf_sput: "summary_wf sm \<Longrightarrow> summary_wf (sput key k v sm)"
  by (simp add: summary_wf_def sget_sput) (simp add: sput_def)

lemma wf_put_fold: "summary_wf sm \<Longrightarrow> summary_wf (fold (\<lambda>x. put_field key (f x) field (g x)) xs sm)"
  by (induction xs arbitrary: sm) (auto simp: put_field_def wf_sput split: option.splits ival.splits)

lemma wf_fold_sput: "summary_wf sm \<Longrightarrow> summary_wf (fold (\<lambda>x. sput key (f x) (g x)) xs sm)"
  by (induction xs arbitrary: sm) (simp_all add: wf_sput)

lemma wf_summaryMaps:
  assumes lq: "linq_laws lq" and r: "summaryMaps lq metas hs = (hs', Inr sm)"
  shows "summary_wf sm"
proof -
  have w: "summary_wf empty_summary"
    by (simp add: summary_wf_def) (simp add: empty_summary_def gomap_def sumry_names)
  let ?sm = "fold (\<lambda>v. sput chainSumry (FormatUint (fst v)) (VAny (chain_entry (chain_sample v))))
      (lq_groupBy_shard lq meta_shard metas)
      (fold (\<lambda>v. sput metaSumry (fst v) (version_entry v)) (lq_groupBy_version lq meta_version metas) empty_summary)"
  have "fold_result (add_chain lq) (lq_groupBy_shard lq meta_shard metas) s =
      Inr (fold (\<lambda>v. sput chainSumry (FormatUint (fst v)) (VAny (chain_entry (chain_sample v))))
        (lq_groupBy_shard lq meta_shard metas) s)" for s
    by (rule fold_result_total) (rule add_chain_total(1) [OF lq])
  then have "sm = AList.update headerSumry (blockHeaderSummary lq hs' True (sget ?sm headerSumry)) ?sm"
    using r by (auto simp: summaryMaps_def add_version_fold split: prod.splits option.splits)
  moreover have "summary_wf ?sm" by (intro wf_fold_sput w)
  ultimately show ?thesis by (simp add: summary_wf_def sget_update gomap_blockHeaderSummary)
qed

text \<open>An entry after a run of writes to one field: the last write to its key counts.\<close>

lemma lookup_put_fold:
  "map_of (sget sm key) k = Some (VAny e) \<Longrightarrow>
   \<exists>e'. map_of (sget (fold (\<lambda>x. put_field key (f x) field (g x)) xs sm) key) k = Some (VAny e') \<and>
     (\<forall>h. h \<noteq> field \<longrightarrow> iget e' h = iget e h) \<and>
     iget e' field = fold (\<lambda>x d. if f x = k then g x else d) xs (iget e field)"
proof (induction xs arbitrary: sm e)
  case (Cons x xs)
  let ?e = "if f x = k then AList.update field (g x) e else e"
  have "map_of (sget (put_field key (f x) field (g x) sm) key) k = Some (VAny ?e)"
    using Cons.prems by (auto simp: lookup_put_field)
  from Cons.IH [OF this] show ?case by (cases "f x = k") (auto simp: iget_update)
qed auto

text \<open>The summary still says the same when fields that it does not speak of are written.\<close>

lemma summarises_fields:
  assumes "summarises e hs" and "\<forall>h. h \<noteq> field \<longrightarrow> iget e' h = iget e h"
    and "field = ''shard-leader'' \<or> field = ''last-crosslink''"
  shows "summarises e' hs"
proof -
  have "iget e' h = iget e h" if "h \<in> {''block-min'', blockMax, ''epoch-min'', ''epoch-max'',
      ''uniq-epochs'', ''uniq-blocks'', ''records'', ''latest-block''}" for h
    using assms(2,3) that by (auto simp: blockMax_def)
  then show ?thesis using assms(1) unfolding summarises_def by simp
qed

lemma summary_header:
  assumes "summary_of metas hs sm" and "h \<in> set hs"
  shows "\<exists>e. map_of (sget sm headerSumry) (FormatUint (hdr_shard h)) = Some (VAny e) \<and>
    summarises e (filter (\<lambda>x. hdr_shard x = hdr_shard h) hs)"
proof -
  have "\<forall>h \<in> set hs. \<exists>e. map_of (sget sm headerSumry) (FormatUint (hdr_shard h)) = Some (VAny e) \<and>
      summarises e (filter (\<lambda>x. hdr_shard x = hdr_shard h) hs)"
    using assms(1) unfolding summary_of_def by (elim conjE)
  then show ?thesis using assms(2) by (rule bspec)
qed

lemma summary_chain:
  assumes "summary_of metas hs sm" and "d \<in> set metas"
  shows "\<exists>d'. d' \<in> set metas \<and> meta_shard d' = meta_shard d \<and>
    map_of (sget sm chainSumry) (FormatUint (meta_shard d)) = Some (VAny (chain_entry d'))"
proof -
  have "\<forall>d \<in> set metas. \<exists>d'. d' \<in> set metas \<and> meta_shard d' = meta_shard d \<and>
      map_of (sget sm chainSumry) (FormatUint (meta_shard d)) = Some (VAny (chain_entry d'))"
    using assms(1) unfolding summary_of_def by (elim conjE)
  then show ?thesis using assms(2) by (rule bspec)
qed

lemma summary_keys:
  assumes "summary_of metas hs sm"
  shows "fst ` set (sget sm metaSumry) = meta_version ` set metas"
    and "fst ` set (sget sm chainSumry) = (\<lambda>d. FormatUint (meta_shard d)) ` set metas"
    and "fst ` set (sget sm headerSumry) = (\<lambda>h. FormatUint (hdr_shard h)) ` set hs"
    and "gomap (sget sm metaSumry)" and "gomap (sget sm chainSumry)" and "gomap (sget sm headerSumry)"
  using assms by (simp_all only: summary_of_def)

lemma summary_any:
  assumes "summary_of metas hs sm"
  shows "any_entries sm headerSumry" and "any_entries sm chainSumry"
proof -
  have "\<exists>e. v = VAny e" if v: "map_of (sget sm headerSumry) k = Some v" for k v
  proof -
    have "k \<in> (\<lambda>h. FormatUint (hdr_shard h)) ` set hs"
      using imageI [OF map_of_SomeD [OF v], of fst] unfolding summary_keys(3) [OF assms] by simp
    then obtain h where "h \<in> set hs" "k = FormatUint (hdr_shard h)" by blast
    with summary_header [OF assms] v show ?thesis by fastforce
  qed
  then show "any_entries sm headerSumry" unfolding any_entries_def by blast
  have "\<exists>e. v = VAny e" if v: "map_of (sget sm chainSumry) k = Some v" for k v
  proof -
    have "k \<in> (\<lambda>d. FormatUint (meta_shard d)) ` set metas"
      using imageI [OF map_of_SomeD [OF v], of fst] unfolding summary_keys(2) [OF assms] by simp
    then obtain d where "d \<in> set metas" "k = FormatUint (meta_shard d)" by blast
    with summary_chain [OF assms] v show ?thesis by fastforce
  qed
  then show "any_entries sm chainSumry" unfolding any_entries_def by blast
qed

lemma summary_put_fold:
  assumes s: "summary_of metas hs sm" and f: "field = ''shard-leader'' \<or> field = ''last-crosslink''"
  shows "summary_of metas hs (fold (\<lambda>x. put_field headerSumry (f x) field (g x)) xs sm)"
proof -
  let ?sm = "fold (\<lambda>x. put_field headerSumry (f x) field (g x)) xs sm"
  have same: "sget ?sm metaSumry = sget sm metaSumry" "sget ?sm chainSumry = sget sm chainSumry"
    "fst ` set (sget ?sm headerSumry) = fst ` set (sget sm headerSumry)"
    by (simp_all add: put_fold_frame)
  have hd: "\<forall>h \<in> set hs. \<exists>e. map_of (sget ?sm headerSumry) (FormatUint (hdr_shard h)) = Some (VAny e) \<and>
      summarises e (filter (\<lambda>x. hdr_shard x = hdr_shard h) hs)"
  proof
    fix h assume h: "h \<in> set hs"
    obtain e where e: "map_of (sget sm headerSumry) (FormatUint (hdr_shard h)) = Some (VAny e)"
      "summarises e (filter (\<lambda>x. hdr_shard x = hdr_shard h) hs)"
      using summary_header [OF s h] by blast
    from lookup_put_fold [OF e(1), of f field g xs] obtain e' where
      "map_of (sget ?sm headerSumry) (FormatUint (hdr_shard h)) = Some (VAny e')"
      "\<forall>h. h \<noteq> field \<longrightarrow> iget e' h = iget e h" by blast
    with summarises_fields [OF e(2) _ f] show "\<exists>e. map_of (sget ?sm headerSumry) (FormatUint (hdr_shard h)) =
        Some (VAny e) \<and> summarises e (filter (\<lambda>x. hdr_shard x = hdr_shard h) hs)" by blast
  qed
  have gm: "gomap (sget ?sm headerSumry)" by (rule put_fold_frame(3) [OF summary_keys(6) [OF s]])
  show ?thesis
    using s hd gm unfolding summary_of_def same by (elim conjE, intro conjI)
qed

section \<open>Leaders by shard\<close>

lemma FormatUint_ucast [simp]: "FormatUint (ucast (w :: u32) :: u64) = FormatUint w"
proof -
  have "uint (ucast w :: u64) = uint w"
    by (rule uint_up_ucast) (simp add: is_up)
  then show ?thesis by (simp add: FormatUint_def)
qed

lemma assert_all_map: "(\<And>x. f (g x) = Inr x) \<Longrightarrow> assert_all f (map g xs) = Inr xs"
  by (induction xs) simp_all

lemma version_records_ok: "version_records (VMap [(''records'', VSlice (map VMeta rs))]) = Inr rs"
  by (simp add: version_records_def assertions iget_def assert_all_map)

abbreviation is_leader :: "NodeMetadata \<Rightarrow> bool" where
  "is_leader d \<equiv> nm_IsLeader (md_Payload d)"

definition leader_map :: "NodeMetadata list \<Rightarrow> (string, string list) gomap \<Rightarrow> (string, string list) gomap" where
  "leader_map ns leaders = fold (\<lambda>n. map_append (FormatUint (meta_shard n)) (md_IP n)) (filter is_leader ns) leaders"

lemma leader_map_append: "leader_map (xs @ ys) leaders = leader_map ys (leader_map xs leaders)"
  by (simp add: leader_map_def)

lemma leader_map_slice:
  "map_slice (leader_map ns []) (FormatUint k) = map md_IP (filter (\<lambda>d. meta_shard d = k) (filter is_leader ns))"
  by (simp add: leader_map_def map_slice_fold)

lemma gomap_leader_map: "gomap leaders \<Longrightarrow> gomap (leader_map ns leaders)"
  by (simp add: leader_map_def gomap_fold_append)

lemma leader_map_keys:
  "fst ` set (leader_map ns []) = (\<lambda>d. FormatUint (meta_shard d)) ` set (filter is_leader ns)"
  by (simp add: leader_map_def keys_fold_append)

text \<open>The nodes of all versions, in the order in which the versions are traversed.\<close>

lemma summary_version:
  assumes "summary_of metas hs sm" and "v \<in> meta_version ` set metas"
  shows "\<exists>rs. map_of (sget sm metaSumry) v = Some (VMap [(''records'', VSlice (map VMeta rs))]) \<and>
    mset rs = mset (filter (\<lambda>d. meta_version d = v) metas)"
proof -
  have "\<forall>v \<in> meta_version ` set metas. \<exists>rs.
      map_of (sget sm metaSumry) v = Some (VMap [(''records'', VSlice (map VMeta rs))]) \<and>
      mset rs = mset (filter (\<lambda>d. meta_version d = v) metas)"
    using assms(1) unfolding summary_of_def by (elim conjE)
  then show ?thesis using assms(2) by (rule bspec)
qed

lemma summary_versions:
  assumes s: "summary_of metas hs sm" and lq: "linq_laws lq" and ord: "range_order ord"
  shows "\<exists>ns. mset ns = mset metas \<and>
    fold_result (add_leaders lq) (ord (sget sm metaSumry)) leaders = Inr (leader_map ns leaders)"
proof -
  let ?vs = "ord (sget sm metaSumry)"
  let ?grp = "\<lambda>v. filter (\<lambda>d. meta_version d = v) metas"
  have entry: "\<exists>rs. snd kv = VMap [(''records'', VSlice (map VMeta rs))] \<and> mset rs = mset (?grp (fst kv))"
    if kv: "kv \<in> set ?vs" for kv
  proof -
    have mem: "(fst kv, snd kv) \<in> set (sget sm metaSumry)" using kv by (simp add: range_order_set [OF ord])
    have "fst kv \<in> meta_version ` set metas"
      using imageI [OF mem, of fst] unfolding summary_keys(1) [OF s] by simp
    from summary_version [OF s this] obtain rs where
      "map_of (sget sm metaSumry) (fst kv) = Some (VMap [(''records'', VSlice (map VMeta rs))])"
      "mset rs = mset (?grp (fst kv))" by blast
    moreover have "map_of (sget sm metaSumry) (fst kv) = Some (snd kv)"
      using summary_keys(4) [OF s] mem by (simp add: gomap_def)
    ultimately show ?thesis by auto
  qed
  have run: "\<exists>ns. mset ns = mset (concat (map ?grp (keys vs))) \<and>
      fold_result (add_leaders lq) vs leaders = Inr (leader_map ns leaders)" if "set vs \<subseteq> set ?vs" for vs
    using that
  proof (induction vs arbitrary: leaders)
    case (Cons kv vs)
    obtain rs where rs: "snd kv = VMap [(''records'', VSlice (map VMeta rs))]" "mset rs = mset (?grp (fst kv))"
      using entry [of kv] Cons.prems by auto
    have "add_leaders lq kv leaders = Inr (leader_map rs leaders)"
      by (simp add: add_leaders_def rs(1) version_records_ok linq_simps(3) [OF lq] leader_map_def)
    moreover obtain ns where "mset ns = mset (concat (map ?grp (keys vs)))"
      "fold_result (add_leaders lq) vs (leader_map rs leaders) = Inr (leader_map ns (leader_map rs leaders))"
      using Cons.IH [of "leader_map rs leaders"] Cons.prems by auto
    ultimately show ?case using rs(2) by (intro exI [of _ "rs @ ns"]) (simp add: leader_map_append)
  qed (simp add: leader_map_def)
  have "gomap ?vs" using summary_keys(4) [OF s] ord by simp
  then have d: "distinct (keys ?vs)" by (simp add: gomap_def)
  have "meta_version ` set metas \<subseteq> set (keys ?vs)"
    using summary_keys(1) [OF s] by (simp add: range_order_set [OF ord])
  from mset_groups [OF d this] run [of ?vs] show ?thesis by auto
qed

text \<open>The leaders that the traversal writes into the entry of a shard.\<close>

lemma leader_field:
  assumes ord: "range_order ord'"
  defines "ls k ns \<equiv> map md_IP (filter (\<lambda>d. meta_shard d = k) (filter is_leader ns))"
  shows "fold (\<lambda>kv d. if fst kv = FormatUint k then VStrs (snd kv) else d) (ord' (leader_map ns [])) VNil =
    (if ls k ns = [] then VNil else VStrs (ls k ns))"
proof -
  let ?l = "leader_map ns []"
  have g: "gomap ?l" by (simp add: gomap_leader_map)
  have val: "snd kv = ls k ns" if "kv \<in> set (ord' ?l)" "fst kv = FormatUint k" for kv
  proof -
    have "(FormatUint k, snd kv) \<in> set ?l" using that by (metis prod.collapse range_order_set [OF ord])
    from gomap_map_slice [OF g this] show ?thesis by (simp add: leader_map_slice ls_def)
  qed
  have run: "fold (\<lambda>kv d. if fst kv = FormatUint k then VStrs (snd kv) else d) xs v =
      (if FormatUint k \<in> fst ` set xs then VStrs (ls k ns) else v)" if "set xs \<subseteq> set (ord' ?l)" for xs v
    using that
  proof (induction xs arbitrary: v)
    case (Cons x xs)
    then show ?case using val [of x] by auto
  qed simp
  have "FormatUint k \<in> fst ` set (ord' ?l) \<longleftrightarrow> ls k ns \<noteq> []"
    by (auto simp: range_order_set [OF ord] leader_map_keys ls_def filter_empty_conv)
  with run [OF subset_refl, of VNil] show ?thesis by simp
qed

section \<open>Snapshots\<close>

abbreviation snap_metas :: "monitor \<Rightarrow> NodeMetadata list" where
  "snap_metas m \<equiv> mc_Nodes (m_MetadataSnapshot m)"

abbreviation snap_headers :: "monitor \<Rightarrow> BlockHeader list" where
  "snap_headers m \<equiv> bc_Nodes (m_BlockHeaderSnapshot m)"

text \<open>The monitor after the signatures of its snapshot were shortened in place.\<close>

definition shortened :: "monitor \<Rightarrow> monitor" where
  "shortened m = m\<lparr>m_BlockHeaderSnapshot := (m_BlockHeaderSnapshot m)\<lparr>bc_Nodes := map short_hdr (snap_headers m)\<rparr>\<rparr>"

lemma shortened_inUse [simp]: "m_inUse (shortened m) = m_inUse m"
  by (simp add: shortened_def)

lemma unlock_id: "\<not> m_inUse m \<Longrightarrow> unlock (m\<lparr>m_inUse := True\<rparr>) = m"
  by (cases m) (simp add: unlock_def)

lemma take_summary_ok:
  assumes "linq_laws lq" and "\<not> m_inUse m" and "\<forall>h \<in> set (snap_headers m). sig_ok h"
  shows "\<exists>sm. take_summary lq m = Returned sm (shortened m) \<and>
    summary_of (snap_metas m) (map short_hdr (snap_headers m)) sm \<and>
    sget sm headerSumry = blockHeaderSummary lq (map short_hdr (snap_headers m)) True [] \<and> summary_wf sm"
proof -
  obtain sm where sm: "summaryMaps lq (snap_metas m) (snap_headers m) = (map short_hdr (snap_headers m), Inr sm)"
    "summary_of (snap_metas m) (map short_hdr (snap_headers m)) sm"
    using summaryMaps_spec [OF assms(1,3)] by blast
  obtain sm' where "summaryMaps lq (snap_metas m) (snap_headers m) = (map short_hdr (snap_headers m), Inr sm')"
    "sget sm' headerSumry = blockHeaderSummary lq (map short_hdr (snap_headers m)) True []"
    using summaryMaps_eq [OF assms(1,3)] by blast
  then have "sget sm headerSumry = blockHeaderSummary lq (map short_hdr (snap_headers m)) True []" using sm(1) by simp
  moreover have "take_summary lq m = Returned sm (shortened m)"
    using assms(2) sm(1) by (cases m) (simp add: take_summary_def shortened_def unlock_def)
  ultimately show ?thesis using sm(2) wf_summaryMaps [OF assms(1) sm(1)] by blast
qed

lemma finish_snapshot_ok:
  assumes s: "summary_of metas hs sm" and "\<not> m_inUse m"
  shows "finish_snapshot ord build sm m =
    Returned \<lparr>nr_Build = build, nr_Chain = m_chain m,
       nr_ConsensusProgress = fold (\<lambda>kv. AList.update (fst kv) (snd kv)) (ord (m_consensusProgress m)) [],
       nr_Summary = fold (\<lambda>v. put_field headerSumry (Itoa (cl_ShardID v)) ''last-crosslink'' (VInt (cl_BlockNumber v)))
         (lc_CrossLinks (m_LastCrossLinks m)) sm,
       nr_NoReplies = mc_Down (m_MetadataSnapshot m) @ bc_Down (m_BlockHeaderSnapshot m)\<rparr> m"
  using assms(2)
  by (simp add: finish_snapshot_def set_field_fold [OF summary_any(1) [OF s]] unlock_id)

text \<open>The block number of the last cross link of a shard in a list of cross links.\<close>

definition last_link :: "CrossLink list \<Rightarrow> string \<Rightarrow> ival" where
  "last_link cls k = fold (\<lambda>v d. if Itoa (cl_ShardID v) = k then VInt (cl_BlockNumber v) else d) cls VNil"

text \<open>What a report says beyond the summary about a shard.\<close>

definition shard_extras :: "NodeMetadata list \<Rightarrow> CrossLink list \<Rightarrow> u32 \<Rightarrow> (string, ival) gomap \<Rightarrow> bool" where
  "shard_extras metas cls k e \<longleftrightarrow>
     (\<exists>ls. mset ls = mset (map md_IP (filter (\<lambda>d. meta_shard d = k \<and> is_leader d) metas)) \<and>
        iget e ''shard-leader'' = (if ls = [] then VNil else VStrs ls)) \<and>
     iget e ''last-crosslink'' = last_link cls (FormatUint k)"

lemma header_entry_nil:
  assumes "linq_laws lq" and "h \<in> set hs" and "field = ''shard-leader'' \<or> field = ''last-crosslink''"
    and "map_of (blockHeaderSummary lq hs True []) (FormatUint (hdr_shard h)) = Some (VAny e)"
  shows "iget e field = VNil"
proof -
  obtain grp where "map_of (blockHeaderSummary lq hs True []) (FormatUint (hdr_shard h)) =
      Some (VAny (header_entry lq grp True))"
    using blockHeaderSummary_lookup [OF assms(1,2) refl, of True "[]"] by blast
  then have "e = header_entry lq grp True" using assms(4) by simp
  then show ?thesis
    using assms(3) by (elim disjE) (simp_all add: header_entry_def Let_def iget_def blockMax_def)
qed

text \<open>The two runs of writes of \<^verbatim>\<open>networkSnapshot\<close>: leaders, then cross links.\<close>

lemma extras_written:
  fixes cls :: "CrossLink list"
  assumes e: "map_of (sget sm headerSumry) (FormatUint k) = Some (VAny e)"
    and nil: "iget e ''shard-leader'' = VNil" "iget e ''last-crosslink'' = VNil"
    and ns: "mset ns = mset metas" and ord: "range_order ord'"
  defines "sm' \<equiv> fold (\<lambda>v. put_field headerSumry (Itoa (cl_ShardID v)) ''last-crosslink'' (VInt (cl_BlockNumber v))) cls
      (fold (\<lambda>kv. put_field headerSumry (fst kv) ''shard-leader'' (VStrs (snd kv))) (ord' (leader_map ns [])) sm)"
  shows "\<exists>e'. map_of (sget sm' headerSumry) (FormatUint k) = Some (VAny e') \<and> shard_extras metas cls k e'"
proof -
  let ?ls = "map md_IP (filter (\<lambda>d. meta_shard d = k) (filter is_leader ns))"
  let ?sm1 = "fold (\<lambda>kv. put_field headerSumry (fst kv) ''shard-leader'' (VStrs (snd kv))) (ord' (leader_map ns [])) sm"
  obtain e1 where e1: "map_of (sget ?sm1 headerSumry) (FormatUint k) = Some (VAny e1)"
    "\<forall>h. h \<noteq> ''shard-leader'' \<longrightarrow> iget e1 h = iget e h"
    "iget e1 ''shard-leader'' = (if ?ls = [] then VNil else VStrs ?ls)"
    using lookup_put_fold [OF e, of fst "''shard-leader''" "\<lambda>kv. VStrs (snd kv)" "ord' (leader_map ns [])"]
      leader_field [OF ord, of k ns] nil(1) by auto
  obtain e2 where e2: "map_of (sget sm' headerSumry) (FormatUint k) = Some (VAny e2)"
    "\<forall>h. h \<noteq> ''last-crosslink'' \<longrightarrow> iget e2 h = iget e1 h"
    "iget e2 ''last-crosslink'' = last_link cls (FormatUint k)"
    using lookup_put_fold [OF e1(1), of "\<lambda>v. Itoa (cl_ShardID v)" "''last-crosslink''" "\<lambda>v. VInt (cl_BlockNumber v)" cls]
      e1(2) nil(2) unfolding sm'_def last_link_def by auto
  have "mset ?ls = mset (map md_IP (filter (\<lambda>d. meta_shard d = k \<and> is_leader d) metas))"
    using ns by (simp add: conj_commute)
  moreover have "iget e2 ''shard-leader'' = (if ?ls = [] then VNil else VStrs ?ls)" using e2(2) e1(3) by simp
  ultimately have "shard_extras metas cls k e2" using e2(3) unfolding shard_extras_def by blast
  with e2(1) show ?thesis by blast
qed

lemma networkSnapshot_eq:
  fixes other :: "monitor \<Rightarrow> monitor"
  assumes lq: "linq_laws lq" and ord: "range_order ord" "range_order ord'" and free: "\<not> m_inUse m"
    and sigs: "\<forall>h \<in> set (snap_headers m). sig_ok h" and free2: "\<not> m_inUse (other (shortened m))"
  defines "m2 \<equiv> other (shortened m)"
  shows "\<exists>sm. networkSnapshot lq ord ord' ord'' build other m =
      Returned \<lparr>nr_Build = build, nr_Chain = m_chain m2,
         nr_ConsensusProgress = fold (\<lambda>kv. AList.update (fst kv) (snd kv)) (ord'' (m_consensusProgress m2)) [],
         nr_Summary = sm,
         nr_NoReplies = mc_Down (m_MetadataSnapshot m2) @ bc_Down (m_BlockHeaderSnapshot m2)\<rparr> m2 \<and>
    summary_of (snap_metas m) (map short_hdr (snap_headers m)) sm \<and> summary_wf sm \<and>
    (\<forall>h \<in> set (snap_headers m). \<exists>e. map_of (sget sm headerSumry) (FormatUint (hdr_shard h)) = Some (VAny e) \<and>
       shard_extras (snap_metas m) (lc_CrossLinks (m_LastCrossLinks m2)) (hdr_shard h) e)"
proof -
  let ?hs = "map short_hdr (snap_headers m)"
  obtain sm where sm: "take_summary lq m = Returned sm (shortened m)" "summary_of (snap_metas m) ?hs sm"
    "sget sm headerSumry = blockHeaderSummary lq ?hs True []" "summary_wf sm"
    using take_summary_ok [OF lq free sigs] by blast
  obtain ns where ns: "mset ns = mset (snap_metas m)"
    "fold_result (add_leaders lq) (ord (sget sm metaSumry)) [] = Inr (leader_map ns [])"
    using summary_versions [OF sm(2) lq ord(1), of "[]"] by blast
  let ?sm1 = "fold (\<lambda>kv. put_field headerSumry (fst kv) ''shard-leader'' (VStrs (snd kv))) (ord' (leader_map ns [])) sm"
  let ?sm2 = "fold (\<lambda>v. put_field headerSumry (Itoa (cl_ShardID v)) ''last-crosslink'' (VInt (cl_BlockNumber v)))
      (lc_CrossLinks (m_LastCrossLinks m2)) ?sm1"
  have s1: "summary_of (snap_metas m) ?hs ?sm1" by (rule summary_put_fold [OF sm(2)]) simp
  have s2: "summary_of (snap_metas m) ?hs ?sm2" by (rule summary_put_fold [OF s1]) simp
  have r: "networkSnapshot lq ord ord' ord'' build other m = finish_snapshot ord'' build ?sm1 m2"
    by (simp add: networkSnapshot_def sm(1) ns(2) set_field_fold [OF summary_any(1) [OF sm(2)]] m2_def)
  have x: "\<exists>e. map_of (sget ?sm2 headerSumry) (FormatUint (hdr_shard h)) = Some (VAny e) \<and>
       shard_extras (snap_metas m) (lc_CrossLinks (m_LastCrossLinks m2)) (hdr_shard h) e"
    if "h \<in> set (snap_headers m)" for h
  proof -
    have h: "short_hdr h \<in> set ?hs" using that by simp
    from summary_header [OF sm(2) h] obtain e where
      e: "map_of (sget sm headerSumry) (FormatUint (hdr_shard h)) = Some (VAny e)" by auto
    then have "map_of (blockHeaderSummary lq ?hs True []) (FormatUint (hdr_shard (short_hdr h))) = Some (VAny e)"
      by (simp add: sm(3))
    note nil = header_entry_nil [OF lq h _ this]
    show ?thesis by (rule extras_written [OF e nil nil ns(1) ord(2)]) simp_all
  qed
  have fin: "networkSnapshot lq ord ord' ord'' build other m =
      Returned \<lparr>nr_Build = build, nr_Chain = m_chain m2,
         nr_ConsensusProgress = fold (\<lambda>kv. AList.update (fst kv) (snd kv)) (ord'' (m_consensusProgress m2)) [],
         nr_Summary = ?sm2,
         nr_NoReplies = mc_Down (m_MetadataSnapshot m2) @ bc_Down (m_BlockHeaderSnapshot m2)\<rparr> m2"
    unfolding r by (rule finish_snapshot_ok [OF s1]) (use free2 in \<open>simp add: m2_def\<close>)
  show ?thesis by (intro exI [of _ ?sm2] conjI ballI fin s2 x wf_put_fold sm(4))
qed

section \<open>statusSnapshot\<close>

lemma assert_all_ok:
  "\<forall>x \<in> set xs. f x = Inr (g x) \<Longrightarrow> assert_all f xs = Inr (map g xs)"
  by (induction xs) simp_all

text \<open>The status of a shard says what its entry says.\<close>

definition status_of :: "(string, bool) gomap \<Rightarrow> string \<Rightarrow> BlockHeader list \<Rightarrow> shardStatus \<Rightarrow> bool" where
  "status_of progress k hs st \<longleftrightarrow>
     ss_ShardID st = k \<and> (ss_Consensus st \<longleftrightarrow> map_of progress k = Some True) \<and>
     ss_Block st = Max (hdr_number ` set hs) \<and> ss_Epoch st = Max (hdr_epoch ` set hs) \<and>
     (\<exists>h \<in> set hs. hdr_number h = Max (hdr_number ` set hs) \<and>
        ss_BlockTimestamp st = bh_Timestamp (hd_Payload h) \<and> ss_LeaderAddress st = bh_Leader (hd_Payload h))"

lemma shard_status_ok:
  assumes "summarises e hs"
  shows "\<exists>st. shard_status progress (k, VAny e) = Inr st \<and> status_of progress k hs st"
  using assms
  by (auto simp: summarises_def shard_status_def assertions status_of_def split: option.splits)

lemma status_list:
  assumes s: "summary_of metas hs sm" and ord: "range_order ord"
  shows "\<exists>sts. assert_all (shard_status progress) (ord (sget sm headerSumry)) = Inr sts \<and>
    distinct (map ss_ShardID sts) \<and>
    set (map ss_ShardID sts) = (\<lambda>h. FormatUint (hdr_shard h)) ` set hs \<and>
    (\<forall>st \<in> set sts. \<exists>h \<in> set hs. status_of progress (FormatUint (hdr_shard h))
       (filter (\<lambda>x. hdr_shard x = hdr_shard h) hs) st)"
proof -
  let ?es = "ord (sget sm headerSumry)"
  let ?st = "\<lambda>kv. projr (shard_status progress kv)"
  have entry: "shard_status progress kv = Inr (?st kv) \<and> ss_ShardID (?st kv) = fst kv \<and>
      (\<exists>h \<in> set hs. status_of progress (FormatUint (hdr_shard h))
         (filter (\<lambda>x. hdr_shard x = hdr_shard h) hs) (?st kv))" if kv: "kv \<in> set ?es" for kv
  proof -
    have mem: "(fst kv, snd kv) \<in> set (sget sm headerSumry)" using kv by (simp add: range_order_set [OF ord])
    have "fst kv \<in> (\<lambda>h. FormatUint (hdr_shard h)) ` set hs"
      using imageI [OF mem, of fst] unfolding summary_keys(3) [OF s] by simp
    then obtain h where h: "h \<in> set hs" "fst kv = FormatUint (hdr_shard h)" by blast
    obtain e where e: "map_of (sget sm headerSumry) (fst kv) = Some (VAny e)"
      "summarises e (filter (\<lambda>x. hdr_shard x = hdr_shard h) hs)"
      using summary_header [OF s h(1)] h(2) by auto
    have "map_of (sget sm headerSumry) (fst kv) = Some (snd kv)"
      using summary_keys(6) [OF s] mem by (simp add: gomap_def)
    then have "snd kv = VAny e" using e(1) by simp
    then have "kv = (fst kv, VAny e)" by (cases kv) simp
    then obtain st where "shard_status progress kv = Inr st" "status_of progress (fst kv)
        (filter (\<lambda>x. hdr_shard x = hdr_shard h) hs) st"
      using shard_status_ok [OF e(2), of progress "fst kv"] by auto
    then show ?thesis using h by (auto simp: status_of_def)
  qed
  have a: "assert_all (shard_status progress) ?es = Inr (map ?st ?es)"
    by (rule assert_all_ok) (use entry in blast)
  have ids: "map ss_ShardID (map ?st ?es) = keys ?es"
    unfolding map_map by (rule map_cong [OF refl]) (use entry in simp)
  have "gomap ?es" using summary_keys(6) [OF s] ord by simp
  then have d: "distinct (map ss_ShardID (map ?st ?es))" unfolding ids gomap_def .
  have k: "set (map ss_ShardID (map ?st ?es)) = (\<lambda>h. FormatUint (hdr_shard h)) ` set hs"
    unfolding ids using summary_keys(3) [OF s] by (simp add: range_order_set [OF ord])
  have st: "\<forall>st \<in> set (map ?st ?es). \<exists>h \<in> set hs. status_of progress (FormatUint (hdr_shard h))
       (filter (\<lambda>x. hdr_shard x = hdr_shard h) hs) st"
    using entry by (simp only: set_map ball_simps) blast
  show ?thesis using a d k st by blast
qed

lemma fold_update_lookup:
  assumes "range_order ord" and "gomap m"
  shows "map_of (fold (\<lambda>kv. AList.update (fst kv) (snd kv)) (ord m) []) = map_of m"
  using fold_update_self [of "ord m"] assms by simp

section \<open>Tables\<close>

lemma header_records_ok:
  assumes "summarises e hs" and "map_of (sget snap headerSumry) k = Some (VAny e)"
  shows "\<exists>rs. header_records snap k = Inr (map (header_row k) rs) \<and> mset rs = mset hs"
proof -
  obtain rs where "iget e ''records'' = VSlice (map VHeader rs)" "mset rs = mset hs"
    using assms(1) unfolding summarises_def by blast
  moreover have "assert_all as_header (map VHeader rs) = Inr rs"
    by (rule assert_all_map) (simp add: assertions)
  ultimately show ?thesis
    using assms(2) by (auto simp: header_records_def iget_def [of "sget snap headerSumry"] assertions)
qed

lemma header_records_unknown:
  "map_of (sget snap headerSumry) k = None \<Longrightarrow> header_records snap k = Inl BadTypeAssertion"
  by (simp add: header_records_def iget_def assertions)

lemma meta_records_ok:
  "map_of (sget snap metaSumry) v = Some (VMap [(''records'', VSlice (map VMeta rs))]) \<Longrightarrow>
   meta_records snap v = Inr (map meta_row rs)"
  by (simp add: meta_records_def iget_def version_records_ok)

lemma meta_records_unknown: "map_of (sget snap metaSumry) v = None \<Longrightarrow> meta_records snap v = Inr []"
  by (simp add: meta_records_def iget_def)

section \<open>renderReport\<close>

definition report_page :: "string \<Rightarrow> string \<Rightarrow> monitor \<Rightarrow> summary \<Rightarrow> page" where
  "report_page build now m sm =
     (let down = mc_Down (m_MetadataSnapshot m) @ bc_Down (m_BlockHeaderSnapshot m)
      in \<lparr>pg_LeftTitle = [m_chain m], pg_RightTitle = [build, now], pg_Summary = sm,
          pg_SuperCommittee = m_SuperCommittee m, pg_NoReply = down,
          pg_DownMachineCount = int (card (nr_IP ` set down))\<rparr>)"

lemma renderReport_eq:
  fixes other other' :: "monitor \<Rightarrow> monitor"
  assumes lq: "linq_laws lq" and ord: "range_order ord" "range_order ord'" "range_order ord''" "range_order ords"
    and free: "\<not> m_inUse m" and sigs: "\<forall>h \<in> set (snap_headers m). sig_ok h"
    and free2: "\<not> m_inUse (other (shortened m))" and free3: "\<not> m_inUse (other' (other (shortened m)))"
    and chain: "CHR ''{'' \<notin> set (m_chain (other (shortened m)))"
  defines "m2 \<equiv> other (shortened m)"
  shows "\<exists>sm sm' t m'. template_Parse report_funs (reportPage (m_chain m2)) = Some t \<and> strips t = report_nodes \<and>
    renderReport lq ord ord' ord'' ords build now other other' m =
      Returned (Page (report_page build now m2 sm')
        (fst (template_Execute (FuncMap m2) t (gv_page (report_page build now m2 sm'))))
        (snd (template_Execute (FuncMap m2) t (gv_page (report_page build now m2 sm'))))) m' \<and>
    summary_of (snap_metas m) (map short_hdr (snap_headers m)) sm \<and> summary_wf sm' \<and>
    sm' = fold (\<lambda>kv. put_field chainSumry (fst kv) ''consensus-status'' (VBool (snd kv)))
      (ord'' (fold (\<lambda>kv. AList.update (fst kv) (snd kv)) (ord'' (m_consensusProgress m2)) [])) sm \<and>
    \<not> m_inUse m' \<and> (\<forall>key k. map_of (sget (m_SummarySnapshot m') key) k = map_of (sget sm' key) k)"
proof -
  let ?down = "mc_Down (m_MetadataSnapshot m2) @ bc_Down (m_BlockHeaderSnapshot m2)"
  let ?progress = "fold (\<lambda>kv. AList.update (fst kv) (snd kv)) (ord'' (m_consensusProgress m2)) []"
  obtain sm where r: "networkSnapshot lq ord ord' ord'' build other m =
      Returned \<lparr>nr_Build = build, nr_Chain = m_chain m2, nr_ConsensusProgress = ?progress, nr_Summary = sm,
         nr_NoReplies = ?down\<rparr> m2"
    and s: "summary_of (snap_metas m) (map short_hdr (snap_headers m)) sm" and wf: "summary_wf sm"
    using networkSnapshot_eq [where other = other, OF lq ord(1,2) free sigs free2, of ord'' build]
    unfolding m2_def by blast
  obtain t where t: "template_Parse report_funs (reportPage (m_chain m2)) = Some t" "strips t = report_nodes"
    using reportPage_nodes chain unfolding m2_def by blast
  let ?sm = "fold (\<lambda>kv. put_field chainSumry (fst kv) ''consensus-status'' (VBool (snd kv))) (ord'' ?progress) sm"
  let ?m3 = "(other' m2)\<lparr>m_inUse := True\<rparr>"
  let ?m' = "unlock ((summaryCopy ords ord ?sm ?m3)\<lparr>m_NoReplySnapshot := ?down\<rparr>)"
  have wf': "summary_wf ?sm" by (rule wf_put_fold [OF wf])
  have "length (lq_distinct_string lq (map nr_IP ?down)) = card (nr_IP ` set ?down)"
    using linq_simps(10,11) [OF lq, of "map nr_IP ?down"] by (metis distinct_card set_map)
  then have e: "renderReport lq ord ord' ord'' ords build now other other' m =
      Returned (Page (report_page build now m2 ?sm)
        (fst (template_Execute (FuncMap m2) t (gv_page (report_page build now m2 ?sm))))
        (snd (template_Execute (FuncMap m2) t (gv_page (report_page build now m2 ?sm))))) ?m'"
    using free3 [folded m2_def] by (simp add: renderReport_def r t(1) set_field_fold [OF summary_any(2) [OF s]]
        linq_simps(2) [OF lq] report_page_def case_prod_beta Let_def)
  have c: "map_of (sget (m_SummarySnapshot ?m') key) k = map_of (sget ?sm key) k" for key k
    using summaryCopy_lookup [OF ord(4,1), of ?sm ?m3 key k] wf' summary_wf_inner [OF wf']
    by (simp add: summary_wf_def unlock_def)
  show ?thesis
    by (intro exI conjI allI, rule t(1), rule t(2), rule e, rule s, rule wf', rule refl, simp add: unlock_def, rule c)
qed

text \<open>The tables of a shard and of a version, from a snapshot that looks up like a summary.\<close>

lemma download_shard:
  assumes s: "summary_of metas hs sm" and h: "h \<in> set hs" and free: "\<not> m_inUse m"
    and look: "map_of (sget (m_SummarySnapshot m) headerSumry) (FormatUint (hdr_shard h)) =
      map_of (sget sm headerSumry) (FormatUint (hdr_shard h))"
  shows "\<exists>rs. mset rs = mset (filter (\<lambda>x. hdr_shard x = hdr_shard h) hs) \<and>
    produceCSV [(''report'', [blockHeaderReport]), (''shard'', [FormatUint (hdr_shard h)])] m =
      Returned (Csv ''block-header.csv''
        (headerInformationCSVHeader # map (header_row (FormatUint (hdr_shard h))) rs)) m"
proof -
  obtain e where e: "map_of (sget sm headerSumry) (FormatUint (hdr_shard h)) = Some (VAny e)"
    "summarises e (filter (\<lambda>x. hdr_shard x = hdr_shard h) hs)"
    using summary_header [OF s h] by blast
  obtain rs where "header_records (m_SummarySnapshot m) (FormatUint (hdr_shard h)) =
      Inr (map (header_row (FormatUint (hdr_shard h))) rs)" "mset rs = mset (filter (\<lambda>x. hdr_shard x = hdr_shard h) hs)"
    using header_records_ok [OF e(2), of "m_SummarySnapshot m"] e(1) look by auto
  then show ?thesis
    using free by (auto simp: produceCSV_def csv_under_lock_def blockHeaderReport_def unlock_id)
qed

lemma download_version:
  assumes s: "summary_of metas hs sm" and d: "d \<in> set metas" and free: "\<not> m_inUse m"
    and look: "map_of (sget (m_SummarySnapshot m) metaSumry) (meta_version d) = map_of (sget sm metaSumry) (meta_version d)"
  shows "\<exists>rs. mset rs = mset (filter (\<lambda>x. meta_version x = meta_version d) metas) \<and>
    produceCSV [(''report'', [nodeMetadataReport]), (''vrs'', [meta_version d])] m =
      Returned (Csv ''node-metadata.csv'' (nodeMetadataCSVHeader # map meta_row rs)) m"
proof -
  obtain rs where rs: "map_of (sget sm metaSumry) (meta_version d) = Some (VMap [(''records'', VSlice (map VMeta rs))])"
    "mset rs = mset (filter (\<lambda>x. meta_version x = meta_version d) metas)"
    using summary_version [OF s imageI [OF d]] by blast
  have "meta_records (m_SummarySnapshot m) (meta_version d) = Inr (map meta_row rs)"
    by (rule meta_records_ok) (simp add: look rs(1))
  then show ?thesis
    using free rs(2)
    by (auto simp: produceCSV_def csv_under_lock_def blockHeaderReport_def nodeMetadataReport_def unlock_id)
qed

lemma fold_progress:
  assumes "gomap p"
  shows "fold (\<lambda>kv d. if fst kv = k then VBool (snd kv) else d) p v =
    (case map_of p k of None \<Rightarrow> v | Some b \<Rightarrow> VBool b)"
  using assms
proof (induction p arbitrary: v)
  case (Cons x p)
  have "k \<notin> fst ` set p" if "fst x = k" using Cons.prems that by (auto simp: gomap_def)
  then have "map_of p k = None" if "fst x = k" using that by (simp add: map_of_eq_None_iff)
  then show ?case using Cons by (cases x) (auto simp: gomap_def)
qed simp

lemma status_written:
  assumes s: "summary_of metas hs sm" and d: "d \<in> set metas" and ord: "range_order ord''" and p: "gomap p"
  shows "\<exists>e. map_of (sget (fold (\<lambda>kv. put_field chainSumry (fst kv) ''consensus-status'' (VBool (snd kv)))
        (ord'' (fold (\<lambda>kv. AList.update (fst kv) (snd kv)) (ord'' p) [])) sm) chainSumry) (FormatUint (meta_shard d)) =
      Some (VAny e) \<and>
    iget e ''consensus-status'' = (case map_of p (FormatUint (meta_shard d)) of None \<Rightarrow> VNil | Some b \<Rightarrow> VBool b)"
proof -
  let ?cp = "fold (\<lambda>kv. AList.update (fst kv) (snd kv)) (ord'' p) []"
  obtain d' where d': "map_of (sget sm chainSumry) (FormatUint (meta_shard d)) = Some (VAny (chain_entry d'))"
    using summary_chain [OF s d] by blast
  have g: "gomap (ord'' ?cp)" using ord by (simp add: gomap_fold_update)
  have m: "map_of (ord'' ?cp) = map_of p"
    using ord p fold_update_lookup [OF ord p] by (simp add: gomap_fold_update)
  have "iget (chain_entry d') ''consensus-status'' = VNil"
    by (simp add: chain_entry_def iget_def Let_def)
  then show ?thesis
    using lookup_put_fold [OF d', of fst "''consensus-status''" "\<lambda>kv. VBool (snd kv)" "ord'' ?cp"]
      fold_progress [OF g] m by auto
qed

section \<open>Properties\<close>

text \<open>A monitor whose managers have collected the two sample nodes and headers.\<close>

definition sample_monitor :: monitor where
  "sample_monitor = (new_monitor ''testnet'')
     \<lparr>m_MetadataSnapshot := zero_Metadata\<lparr>mc_Nodes := sample_metas\<rparr>,
      m_BlockHeaderSnapshot := zero_BlockHeaders\<lparr>bc_Nodes := sample_headers\<rparr>\<rparr>"

lemma sample_monitor_ok: "\<not> m_inUse sample_monitor" "\<forall>h \<in> set (snap_headers sample_monitor). sig_ok h"
  "\<not> m_inUse (shortened sample_monitor)" "gomap (m_consensusProgress (shortened sample_monitor))"
  using sample_headers_ok by (simp_all add: sample_monitor_def new_monitor_def zero_BlockHeaders_def shortened_def)

text \<open>
  (C26) A report of the network never fails and says exactly what the managers collected: when
  every commit signature is empty or at least five bytes long, the report is the summary of the
  snapshots, extended by exactly the machines of each shard that say they lead it and the block of
  its last cross link; it lists the silent machines of both managers and a copy of the consensus
  verdicts, and the lock is free again. What other goroutines do between its two critical
  sections is arbitrary, as long as they release the lock.
\<close>

theorem networkSnapshot_report:
  assumes "linq_laws lq" and "range_order ord" and "range_order ord'" and "range_order ord''"
    and "\<not> m_inUse m" and "\<forall>h \<in> set (snap_headers m). sig_ok h"
    and "\<not> m_inUse (other (shortened m))" and "gomap (m_consensusProgress (other (shortened m)))"
  shows "\<exists>rep. networkSnapshot lq ord ord' ord'' build other m = Returned rep (other (shortened m)) \<and>
    summary_of (snap_metas m) (map short_hdr (snap_headers m)) (nr_Summary rep) \<and>
    (\<forall>h \<in> set (snap_headers m). \<exists>e.
       map_of (sget (nr_Summary rep) headerSumry) (FormatUint (hdr_shard h)) = Some (VAny e) \<and>
       shard_extras (snap_metas m) (lc_CrossLinks (m_LastCrossLinks (other (shortened m)))) (hdr_shard h) e) \<and>
    map_of (nr_ConsensusProgress rep) = map_of (m_consensusProgress (other (shortened m))) \<and>
    nr_NoReplies rep = mc_Down (m_MetadataSnapshot (other (shortened m))) @
      bc_Down (m_BlockHeaderSnapshot (other (shortened m)))"
proof -
  let ?m2 = "other (shortened m)"
  obtain sm where "networkSnapshot lq ord ord' ord'' build other m =
      Returned \<lparr>nr_Build = build, nr_Chain = m_chain ?m2,
         nr_ConsensusProgress = fold (\<lambda>kv. AList.update (fst kv) (snd kv)) (ord'' (m_consensusProgress ?m2)) [],
         nr_Summary = sm,
         nr_NoReplies = mc_Down (m_MetadataSnapshot ?m2) @ bc_Down (m_BlockHeaderSnapshot ?m2)\<rparr> ?m2"
    "summary_of (snap_metas m) (map short_hdr (snap_headers m)) sm"
    "\<forall>h \<in> set (snap_headers m). \<exists>e. map_of (sget sm headerSumry) (FormatUint (hdr_shard h)) = Some (VAny e) \<and>
       shard_extras (snap_metas m) (lc_CrossLinks (m_LastCrossLinks ?m2)) (hdr_shard h) e"
    using networkSnapshot_eq [where other = other, OF assms(1-3,5-7), of ord'' build] by blast
  then show ?thesis using fold_update_lookup [OF assms(4,8)] by simp
qed

theorem networkSnapshot_report_witness:
  "\<exists>rep. networkSnapshot linq_ref rev rev rev ''v1'' (\<lambda>m. m) sample_monitor = Returned rep (shortened sample_monitor) \<and>
    summary_of (snap_metas sample_monitor) (map short_hdr (snap_headers sample_monitor)) (nr_Summary rep)"
  using networkSnapshot_report [where other = "\<lambda>m. m" and build = "''v1''",
      OF linq_ref_laws range_order_rev range_order_rev range_order_rev sample_monitor_ok] by blast

text \<open>
  (C27) The status report never fails either: one entry per shard, with the highest block and epoch
  among the headers of the shard, the time and the leader of a header of that height and the last
  verdict of the consensus monitor (false if there is none); the versions in use, each once; and
  of the current committee the number of members that are not the operator's and the number of
  their distinct accounts.
\<close>

theorem statusSnapshot_report:
  assumes "linq_laws lq" and "range_order ord" and "range_order ord'" and "range_order ord''"
    and "\<not> m_inUse m" and "\<forall>h \<in> set (snap_headers m). sig_ok h" and "gomap (m_consensusProgress m)"
  shows "\<exists>rep. statusSnapshot lq ord ord' ord'' other m = Returned rep (other (shortened m)) \<and>
    distinct (map ss_ShardID (sr_Shards rep)) \<and>
    set (map ss_ShardID (sr_Shards rep)) = (\<lambda>h. FormatUint (hdr_shard h)) ` set (snap_headers m) \<and>
    (\<forall>st \<in> set (sr_Shards rep). \<exists>h \<in> set (map short_hdr (snap_headers m)).
       status_of (m_consensusProgress m) (FormatUint (hdr_shard h))
         (filter (\<lambda>x. hdr_shard x = hdr_shard h) (map short_hdr (snap_headers m))) st) \<and>
    distinct (sr_Versions rep) \<and> set (sr_Versions rep) = meta_version ` set (snap_metas m) \<and>
    (let com = sc_CurrentCommittee (m_SuperCommittee (other (shortened m))) in
      sr_AvailSeats rep = qc_ExternalCount com \<and>
      sr_ElectedSeats rep = int (length (external_members (qc_Deciders com))) \<and>
      sr_Validators rep = int (card (cm_Address ` set (external_members (qc_Deciders com)))))"
proof -
  let ?hs = "map short_hdr (snap_headers m)"
  let ?com = "sc_CurrentCommittee (m_SuperCommittee (other (shortened m)))"
  let ?progress = "fold (\<lambda>kv. AList.update (fst kv) (snd kv)) (ord (m_consensusProgress (shortened m))) []"
  obtain sm where sm: "take_summary lq m = Returned sm (shortened m)" "summary_of (snap_metas m) ?hs sm"
    using take_summary_ok [OF assms(1,5,6)] by blast
  obtain sts where sts: "assert_all (shard_status ?progress) (ord' (sget sm headerSumry)) = Inr sts"
    "distinct (map ss_ShardID sts)" "set (map ss_ShardID sts) = (\<lambda>h. FormatUint (hdr_shard h)) ` set ?hs"
    "\<forall>st \<in> set sts. \<exists>h \<in> set ?hs. status_of ?progress (FormatUint (hdr_shard h))
       (filter (\<lambda>x. hdr_shard x = hdr_shard h) ?hs) st"
    using status_list [OF sm(2) assms(3)] by blast
  have p: "status_of ?progress = status_of (m_consensusProgress m)"
    using fold_update_lookup [OF assms(2,7)] by (simp add: status_of_def fun_eq_iff shortened_def)
  let ?ms = "external_members (ord'' (qc_Deciders ?com))"
  have ms: "mset ?ms = mset (external_members (qc_Deciders ?com))"
    unfolding external_members_def by (rule range_order_concat [OF assms(4)])
  have vs: "distinct (keys (ord' (sget sm metaSumry)))" "set (keys (ord' (sget sm metaSumry))) = meta_version ` set (snap_metas m)"
    using summary_keys(1,4) [OF sm(2)] gomap_range [OF assms(3), of "sget sm metaSumry"]
    by (simp_all add: gomap_def range_order_set [OF assms(3)])
  have val: "length (lq_distinct_string lq (map cm_Address ?ms)) = card (cm_Address ` set (external_members (qc_Deciders ?com)))"
    using linq_simps(10,11) [OF assms(1), of "map cm_Address ?ms"] mset_eq_setD [OF ms]
    by (metis distinct_card set_map)
  show ?thesis
    using sts vs val mset_eq_length [OF ms] unfolding p
    by (simp add: statusSnapshot_def sm(1) Let_def image_image)
qed

theorem statusSnapshot_report_witness:
  "\<exists>rep. statusSnapshot linq_ref rev rev rev (\<lambda>m. m) sample_monitor = Returned rep (shortened sample_monitor) \<and>
    set (map ss_ShardID (sr_Shards rep)) = {''0''}"
proof -
  have "FormatUint (0 :: u32) = ''0''" by code_simp
  then have "(\<lambda>h. FormatUint (hdr_shard h)) ` set (snap_headers sample_monitor) = {''0''}"
    by (simp add: sample_monitor_def sample_headers_def sample_header_def zero_BlockHeaders_def)
  moreover have "gomap (m_consensusProgress sample_monitor)" by (simp add: sample_monitor_def new_monitor_def)
  ultimately show ?thesis
    using statusSnapshot_report [where other = "\<lambda>m. m", OF linq_ref_laws range_order_rev range_order_rev
        range_order_rev sample_monitor_ok(1,2)] by auto
qed

text \<open>
  (C28) The downloads that a page offers work: after a report was rendered, the table of every
  shard in it has exactly one row per header of the shard and the table of every version one row
  per node of that version, the page shows every shard's last consensus verdict, and the count of
  silent machines counts each address once.
\<close>

theorem report_downloads:
  assumes "linq_laws lq" and "range_order ord" and "range_order ord'" and "range_order ord''" and "range_order ords"
    and "\<not> m_inUse m" and "\<forall>h \<in> set (snap_headers m). sig_ok h"
    and "\<not> m_inUse (other (shortened m))" and "\<not> m_inUse (other' (other (shortened m)))"
    and "CHR ''{'' \<notin> set (m_chain (other (shortened m)))"
    and "gomap (m_consensusProgress (other (shortened m)))"
  shows "\<exists>pg out complete m'. renderReport lq ord ord' ord'' ords build now other other' m = Returned (Page pg out complete) m' \<and>
    pg_DownMachineCount pg = int (card (nr_IP ` set (pg_NoReply pg))) \<and>
    (\<forall>h \<in> set (snap_headers m). \<exists>rs.
       mset rs = mset (filter (\<lambda>x. hdr_shard x = hdr_shard h) (map short_hdr (snap_headers m))) \<and>
       produceCSV [(''report'', [blockHeaderReport]), (''shard'', [FormatUint (hdr_shard h)])] m' =
         Returned (Csv ''block-header.csv''
           (headerInformationCSVHeader # map (header_row (FormatUint (hdr_shard h))) rs)) m') \<and>
    (\<forall>d \<in> set (snap_metas m). \<exists>rs.
       mset rs = mset (filter (\<lambda>x. meta_version x = meta_version d) (snap_metas m)) \<and>
       produceCSV [(''report'', [nodeMetadataReport]), (''vrs'', [meta_version d])] m' =
         Returned (Csv ''node-metadata.csv'' (nodeMetadataCSVHeader # map meta_row rs)) m') \<and>
    (\<forall>d \<in> set (snap_metas m). \<exists>e.
       map_of (sget (pg_Summary pg) chainSumry) (FormatUint (meta_shard d)) = Some (VAny e) \<and>
       iget e ''consensus-status'' =
         (case map_of (m_consensusProgress (other (shortened m))) (FormatUint (meta_shard d)) of
            None \<Rightarrow> VNil | Some b \<Rightarrow> VBool b))"
proof -
  let ?m2 = "other (shortened m)"
  let ?p = "m_consensusProgress ?m2"
  let ?cp = "fold (\<lambda>kv. AList.update (fst kv) (snd kv)) (ord'' ?p) []"
  obtain sm sm' out complete m' where r: "renderReport lq ord ord' ord'' ords build now other other' m =
      Returned (Page (report_page build now ?m2 sm') out complete) m'"
    and s: "summary_of (snap_metas m) (map short_hdr (snap_headers m)) sm"
    and sm': "sm' = fold (\<lambda>kv. put_field chainSumry (fst kv) ''consensus-status'' (VBool (snd kv))) (ord'' ?cp) sm"
    and free: "\<not> m_inUse m'"
    and look: "\<And>key k. map_of (sget (m_SummarySnapshot m') key) k = map_of (sget sm' key) k"
    using renderReport_eq [where other = other and other' = other', OF assms(1-10), of build now] by blast
  note frame = put_fold_frame(1) [of _ chainSumry]
  have hdr: "sget sm' headerSumry = sget sm headerSumry" and meta: "sget sm' metaSumry = sget sm metaSumry"
    unfolding sm' by (simp_all add: frame)
  have h: "\<exists>rs. mset rs = mset (filter (\<lambda>x. hdr_shard x = hdr_shard h) (map short_hdr (snap_headers m))) \<and>
       produceCSV [(''report'', [blockHeaderReport]), (''shard'', [FormatUint (hdr_shard h)])] m' =
         Returned (Csv ''block-header.csv''
           (headerInformationCSVHeader # map (header_row (FormatUint (hdr_shard h))) rs)) m'"
    if "h \<in> set (snap_headers m)" for h
    using download_shard [OF s _ free, of "short_hdr h"] that by (simp add: look hdr)
  have d: "\<exists>rs. mset rs = mset (filter (\<lambda>x. meta_version x = meta_version d) (snap_metas m)) \<and>
       produceCSV [(''report'', [nodeMetadataReport]), (''vrs'', [meta_version d])] m' =
         Returned (Csv ''node-metadata.csv'' (nodeMetadataCSVHeader # map meta_row rs)) m'"
    if "d \<in> set (snap_metas m)" for d
    using download_version [OF s that free] by (simp add: look meta)
  have c: "\<exists>e. map_of (sget (pg_Summary (report_page build now ?m2 sm')) chainSumry) (FormatUint (meta_shard d)) = Some (VAny e) \<and>
       iget e ''consensus-status'' = (case map_of ?p (FormatUint (meta_shard d)) of None \<Rightarrow> VNil | Some b \<Rightarrow> VBool b)"
    if "d \<in> set (snap_metas m)" for d
    using status_written [OF s that assms(4,11)] by (simp add: report_page_def Let_def sm')
  show ?thesis
    by (rule exI, rule exI, rule exI, rule exI, intro conjI ballI, rule r, simp add: report_page_def Let_def,
        erule h, erule d, erule c)
qed

theorem report_downloads_witness:
  "\<exists>pg out complete m'. renderReport linq_ref rev rev rev rev ''v1'' ''12:00'' (\<lambda>m. m) (\<lambda>m. m) sample_monitor =
      Returned (Page pg out complete) m' \<and>
    pg_DownMachineCount pg = int (card (nr_IP ` set (pg_NoReply pg)))"
proof -
  have f: "\<not> m_inUse ((\<lambda>m. m) ((\<lambda>m. m) (shortened sample_monitor)))" by (simp add: sample_monitor_ok)
  have c: "CHR ''{'' \<notin> set (m_chain (shortened sample_monitor))" by (simp add: shortened_def sample_monitor_def new_monitor_def)
  from report_downloads [where other = "\<lambda>m. m" and other' = "\<lambda>m. m" and build = "''v1''" and now = "''12:00''", OF linq_ref_laws
      range_order_rev range_order_rev range_order_rev range_order_rev sample_monitor_ok(1-3) f c sample_monitor_ok(4)]
  show ?thesis by (elim exE conjE) (intro exI conjI)
qed

end
