(* ===== verification/Csv.thy ===== *)
theory Csv
  imports Report
begin

text \<open>
  The body of a download: what \<^verbatim>\<open>csv.NewWriter(w).WriteAll(records)\<close> of the standard library
  writes (comma as separator, lines ended by a newline), and a reader of such tables.
\<close>

section \<open>Writing\<close>

text \<open>\<^verbatim>\<open>unicode.IsSpace\<close> of the first rune of a UTF-8 string.\<close>

definition starts_with_space :: "string \<Rightarrow> bool" where
  "starts_with_space s \<longleftrightarrow>
     (case map (of_char :: char \<Rightarrow> nat) (take 3 s) of
        [] \<Rightarrow> False
      | a # r \<Rightarrow>
          a \<in> {9, 10, 11, 12, 13, 32} \<or>
          (a = 0xC2 \<and> r \<noteq> [] \<and> hd r \<in> {0x85, 0xA0}) \<or>
          (length r = 2 \<and>
             (a = 0xE1 \<and> r = [0x9A, 0x80] \<or>
              a = 0xE2 \<and> hd r = 0x80 \<and> (r ! 1 \<in> {0xA8, 0xA9, 0xAF} \<or> 0x80 \<le> r ! 1 \<and> r ! 1 \<le> 0x8A) \<or>
              a = 0xE2 \<and> r = [0x81, 0x9F] \<or>
              a = 0xE3 \<and> r = [0x80, 0x80])))"

definition fieldNeedsQuotes :: "string \<Rightarrow> bool" where
  "fieldNeedsQuotes field \<longleftrightarrow>
     field \<noteq> [] \<and>
     (field = [CHR 0x5C, CHR ''.''] \<or>
      (\<exists>c \<in> set field. c \<in> {CHR '','', CHR 0x22, CHR 0x0A, CHR 0x0D}) \<or>
      starts_with_space field)"

text \<open>Inside quotes a quote is doubled.\<close>

definition csv_field :: "string \<Rightarrow> string" where
  "csv_field field =
     (if fieldNeedsQuotes field
      then [CHR 0x22] @ concat (map (\<lambda>c. if c = CHR 0x22 then [c, c] else [c]) field) @ [CHR 0x22]
      else field)"

definition csv_line :: "string list \<Rightarrow> string" where
  "csv_line record = Join (map csv_field record) '','' @ [CHR 0x0A]"

definition csv_WriteAll :: "string list list \<Rightarrow> string" where
  "csv_WriteAll records = concat (map csv_line records)"

section \<open>Reading\<close>

text \<open>
  A reader of comma-separated values as RFC 4180 describes them, with lines ended by a newline:
  at the start of a field, in a plain field, in a quoted field, after a quote in one.
\<close>

datatype csv_state = AtStart | InPlain string | InQuoted string | AfterQuote string

fun csv_read :: "csv_state \<Rightarrow> string list \<Rightarrow> string \<Rightarrow> string list list option" where
  "csv_read AtStart row [] = (if row = [] then Some [] else None)"
| "csv_read (InPlain f) row [] = None"
| "csv_read (InQuoted f) row [] = None"
| "csv_read (AfterQuote f) row [] = None"
| "csv_read AtStart row (c # cs) =
     (if c = CHR 0x22 then csv_read (InQuoted []) row cs
      else if c = CHR '','' then csv_read AtStart (row @ [[]]) cs
      else if c = CHR 0x0A then map_option ((#) (row @ [[]])) (csv_read AtStart [] cs)
      else csv_read (InPlain [c]) row cs)"
| "csv_read (InPlain f) row (c # cs) =
     (if c = CHR '','' then csv_read AtStart (row @ [f]) cs
      else if c = CHR 0x0A then map_option ((#) (row @ [f])) (csv_read AtStart [] cs)
      else csv_read (InPlain (f @ [c])) row cs)"
| "csv_read (InQuoted f) row (c # cs) =
     (if c = CHR 0x22 then csv_read (AfterQuote f) row cs else csv_read (InQuoted (f @ [c])) row cs)"
| "csv_read (AfterQuote f) row (c # cs) =
     (if c = CHR 0x22 then csv_read (InQuoted (f @ [c])) row cs
      else if c = CHR '','' then csv_read AtStart (row @ [f]) cs
      else if c = CHR 0x0A then map_option ((#) (row @ [f])) (csv_read AtStart [] cs)
      else None)"

section \<open>Round trip\<close>

text \<open>A field is read back at its end, which is a comma or the newline.\<close>

lemma read_quoted:
  "csv_read (InQuoted f) row (concat (map (\<lambda>c. if c = CHR 0x22 then [c, c] else [c]) g) @ [CHR 0x22] @ rest) =
   csv_read (AfterQuote (f @ g)) row rest"
  by (induction g arbitrary: f) auto

lemma read_plain:
  "\<forall>c \<in> set g. c \<notin> {CHR '','', CHR 0x22, CHR 0x0A} \<Longrightarrow>
   csv_read (InPlain f) row (g @ rest) = csv_read (InPlain (f @ g)) row rest"
  by (induction g arbitrary: f) auto

lemma read_field:
  assumes "e \<in> {CHR '','', CHR 0x0A}"
  shows "csv_read AtStart row (csv_field f @ e # rest) =
    (if e = CHR '','' then csv_read AtStart (row @ [f]) rest
     else map_option ((#) (row @ [f])) (csv_read AtStart [] rest))"
proof (cases "fieldNeedsQuotes f")
  case True
  have "csv_read AtStart row (csv_field f @ e # rest) = csv_read (AfterQuote f) row (e # rest)"
    using read_quoted [of "[]" row f "e # rest"] True by (simp add: csv_field_def)
  then show ?thesis using assms by auto
next
  case False
  show ?thesis
  proof (cases f)
    case Nil
    then show ?thesis using assms by (auto simp: csv_field_def fieldNeedsQuotes_def)
  next
    case (Cons c g)
    have clean: "\<forall>c \<in> set f. c \<notin> {CHR '','', CHR 0x22, CHR 0x0A}"
      using False Cons by (auto simp: fieldNeedsQuotes_def)
    then have "csv_read AtStart row (csv_field f @ e # rest) = csv_read (InPlain f) row (e # rest)"
      using read_plain [of g "[c]" row "e # rest"] False Cons by (simp add: csv_field_def)
    then show ?thesis using assms by auto
  qed
qed

lemma read_line:
  "r \<noteq> [] \<Longrightarrow> csv_read AtStart row (csv_line r @ rest) =
   map_option ((#) (row @ r)) (csv_read AtStart [] rest)"
proof (induction r arbitrary: row rule: induct_list012)
  case (2 f)
  then show ?case using read_field [of "CHR 0x0A" row f rest] by (simp add: csv_line_def)
next
  case (3 f g fs)
  have "csv_line (f # g # fs) @ rest = csv_field f @ CHR '','' # (csv_line (g # fs) @ rest)"
    by (simp add: csv_line_def)
  then show ?case using read_field [of "CHR '',''" row f] 3(2) [of "row @ [f]"] by simp
qed simp

lemma read_WriteAll: "[] \<notin> set records \<Longrightarrow> csv_read AtStart [] (csv_WriteAll records) = Some records"
proof (induction records)
  case (Cons r rs)
  have "csv_WriteAll (r # rs) = csv_line r @ csv_WriteAll rs" by (simp add: csv_WriteAll_def)
  then show ?case using read_line [of r "[]" "csv_WriteAll rs"] Cons by auto
qed (simp add: csv_WriteAll_def)

section \<open>Downloads\<close>

lemma download_rows:
  assumes "produceCSV query m = Returned (Csv f rows) m'"
  shows "[] \<notin> set rows"
  using assms
  by (auto simp: produceCSV_def csv_under_lock_def header_records_def meta_records_def header_row_def
      meta_row_def headerInformationCSVHeader_def nodeMetadataCSVHeader_def Let_def
      split: option.splits if_splits sum.splits)



end
