(* ===== verification/JsonText.thy ===== *)
theory JsonText
  imports Json
begin

text \<open>
  Reading back what \<^verbatim>\<open>json.Marshal\<close> wrote: the parser of \<open>Json\<close> on the text of a value gives that
  value, with every string repaired to UTF-8.
\<close>

section \<open>Strings\<close>

lemma rune_tail_ascii: "(of_char c :: nat) < 128 \<Longrightarrow> rune_tail c cs = Some 0"
  by (simp add: rune_tail_def utf8_lead_def)

lemma utf8_lead_ascii: "utf8_lead n = Some (k, lo, hi) \<Longrightarrow> k = 0 \<longleftrightarrow> n < 128"
  by (auto simp: utf8_lead_def split: if_splits)

lemma rune_tail_Some:
  assumes "rune_tail c cs = Some k"
  shows "k \<le> length cs" and "k = 0 \<longleftrightarrow> (of_char c :: nat) < 128" and "rune_tail c (take k cs @ ds) = Some k"
proof -
  obtain lo hi where l: "utf8_lead (of_char c) = Some (k, lo, hi)"
    and k: "k \<le> length cs" "list_all is_cont (take k cs)"
      "k = 0 \<or> lo \<le> (of_char (hd cs) :: nat) \<and> (of_char (hd cs) :: nat) \<le> hi"
    using assms by (auto simp: rune_tail_def split: option.splits if_splits)
  show "k \<le> length cs" by (rule k(1))
  show "k = 0 \<longleftrightarrow> (of_char c :: nat) < 128" by (rule utf8_lead_ascii [OF l])
  have "k = 0 \<or> hd (take k cs @ ds) = hd cs" using k(1) by (cases k; cases cs) auto
  then show "rune_tail c (take k cs @ ds) = Some k" using k by (auto simp: rune_tail_def l)
qed

lemma hex_val_digit: "n < 16 \<Longrightarrow> hex_val (hex_digit n) = Some n"
  by (auto simp: hex_val_def hex_digit_def Let_def of_char_of)

lemma hex_val_0: "hex_val (CHR ''0'') = Some 0"
  by (simp add: hex_val_def)

lemma utf8_separators:
  "utf8 8232 = [CHR 0xE2, CHR 0x80, CHR 0xA8]" "utf8 8233 = [CHR 0xE2, CHR 0x80, CHR 0xA9]" "utf8 65533 = replacement"
  by (simp_all add: utf8_def replacement_def char_of_def bit_iff_odd)

text \<open>A short escape and a plain character.\<close>

lemma read_str_simple:
  "simple_escape e = Some d \<Longrightarrow> e \<noteq> CHR ''u'' \<Longrightarrow> read_str acc (CHR 0x5C # e # s) = read_str (d # acc) s"
  by simp

lemma read_str_unicode:
  "read_unicode s = Some (u, r) \<Longrightarrow> read_str acc (CHR 0x5C # CHR ''u'' # s) = read_str (rev u @ acc) r"
  by simp

lemma read_unicode_ascii:
  assumes "(n :: nat) < 128"
  shows "read_unicode (CHR ''0'' # CHR ''0'' # hex_digit (n div 16) # hex_digit (n mod 16) # s) = Some ([char_of n], s)"
proof -
  have "n div 16 < 16" "n mod 16 < 16" using assms by simp_all
  then show ?thesis
    using assms by (simp add: read_unicode_def hex_val_0 hex_val_digit utf8_def)
qed

declare read_str.simps [simp del]

lemma read_str_escape:
  assumes "(of_char c :: nat) < 128"
  shows "read_str acc (escape c @ s) = read_str (c # acc) s"
proof -
  have long: "read_str acc ([CHR 0x5C, CHR ''u'', CHR ''0'', CHR ''0'', hex_digit (of_char c div 16),
      hex_digit (of_char c mod 16)] @ s) = read_str (c # acc) s"
    unfolding append_Cons append_Nil read_str_unicode [OF read_unicode_ascii [OF assms]] by simp
  have short: "read_str acc (CHR 0x5C # e # s) = read_str (c # acc) s" if "(e, c) \<in> {(CHR 0x22, CHR 0x22),
      (CHR 0x5C, CHR 0x5C), (CHR ''n'', CHR 0x0A), (CHR ''r'', CHR 0x0D), (CHR ''t'', CHR 0x09)}" for e
    by (rule read_str_simple) (use that in \<open>auto simp: simple_escape_def\<close>)
  consider (simple) "c \<in> {CHR 0x22, CHR 0x5C, CHR 0x0A, CHR 0x0D, CHR 0x09}"
    | (unicode) "c \<notin> {CHR 0x22, CHR 0x5C, CHR 0x0A, CHR 0x0D, CHR 0x09}"
        "(of_char c :: nat) < 32 \<or> c = CHR ''<'' \<or> c = CHR ''>'' \<or> c = CHR ''&''"
    | (plain) "c \<notin> {CHR 0x22, CHR 0x5C, CHR 0x0A, CHR 0x0D, CHR 0x09}"
        "\<not> ((of_char c :: nat) < 32 \<or> c = CHR ''<'' \<or> c = CHR ''>'' \<or> c = CHR ''&'')" by blast
  then show ?thesis
  proof cases
    case simple
    then show ?thesis using short by (auto simp: escape_def)
  next
    case unicode
    then show ?thesis using long by (simp add: escape_def)
  next
    case plain
    then have "escape c = [c]" by (simp add: escape_def)
    with plain show ?thesis by (simp add: read_str.simps rune_tail_ascii [OF assms])
  qed
qed

lemma escape_rune_separators:
  "escape_rune (Some [CHR 0xE2, CHR 0x80, CHR 0xA8]) = [CHR 0x5C] @ ''u2028''"
  "escape_rune (Some [CHR 0xE2, CHR 0x80, CHR 0xA9]) = [CHR 0x5C] @ ''u2029''"
  by (simp_all add: escape_rune_def)

lemma escape_rune_raw:
  "t \<noteq> [] \<Longrightarrow> \<not> (c # t = [CHR 0xE2, CHR 0x80, CHR 0xA8] \<or> c # t = [CHR 0xE2, CHR 0x80, CHR 0xA9]) \<Longrightarrow>
   escape_rune (Some (c # t)) = c # t"
  by (simp add: escape_rune_def)

lemma read_str_rune:
  assumes "rune_tail c cs = Some k"
  shows "read_str acc (escape_rune (Some (c # take k cs)) @ s) = read_str (rev (c # take k cs) @ acc) s"
proof (cases "k = 0")
  case True
  then show ?thesis using rune_tail_Some(2) [OF assms] read_str_escape [of c acc s] by (simp add: escape_rune_def)
next
  case False
  have len: "length (take k cs) = k" using rune_tail_Some(1) [OF assms] by simp
  have big: "128 \<le> (of_char c :: nat)" using rune_tail_Some(2) [OF assms] False by simp
  then have c: "c \<noteq> CHR 0x22" "c \<noteq> CHR 0x5C" by auto
  have u: "read_str acc (([CHR 0x5C] @ ''u2028'') @ s) = read_str (rev [CHR 0xE2, CHR 0x80, CHR 0xA8] @ acc) s"
    "read_str acc (([CHR 0x5C] @ ''u2029'') @ s) = read_str (rev [CHR 0xE2, CHR 0x80, CHR 0xA9] @ acc) s"
    unfolding append_Cons append_Nil
    by (rule read_str_unicode, simp add: read_unicode_def hex_val_def utf8_separators)+
  have raw: "read_str acc ((c # take k cs) @ s) = read_str (rev (c # take k cs) @ acc) s"
    using c big len rune_tail_Some(3) [OF assms, of s] by (simp add: read_str.simps)
  show ?thesis
  proof (cases "c # take k cs = [CHR 0xE2, CHR 0x80, CHR 0xA8] \<or> c # take k cs = [CHR 0xE2, CHR 0x80, CHR 0xA9]")
    case True
    then show ?thesis using u unfolding escape_rune_separators [symmetric] by metis
  next
    case f: False
    have "take k cs \<noteq> []" using len False by auto
    then have "escape_rune (Some (c # take k cs)) = c # take k cs" by (rule escape_rune_raw [OF _ f])
    then show ?thesis using raw by simp
  qed
qed

lemma read_str_bad: "read_str acc (escape_rune None @ s) = read_str (rev replacement @ acc) s"
proof -
  have "read_unicode (''fffd'' @ s) = Some (replacement, s)"
    by (simp add: read_unicode_def hex_val_def utf8_separators)
  from read_str_unicode [OF this, of acc] show ?thesis by (simp add: escape_rune_def)
qed

lemma read_escaped: "read_str acc (concat (map escape_rune (runes s)) @ CHR 0x22 # r) = Some (rev acc @ repair s, r)"
proof (induction s arbitrary: acc rule: runes.induct)
  case 1
  then show ?case by (simp add: repair_def read_str.simps)
next
  case (2 c cs)
  show ?case
  proof (cases "rune_tail c cs")
    case None
    with 2(1) show ?thesis by (simp add: read_str_bad repair_def)
  next
    case (Some k)
    with 2(2) show ?thesis
      by (simp add: read_str_rune [OF Some] repair_def)
  qed
qed

lemma read_quote_json: "next_tok (quote_json s @ r) = Some (CHR 0x22, concat (map escape_rune (runes s)) @ CHR 0x22 # r)"
  by (simp add: quote_json_def next_tok_def skip_ws_def is_space_def)

subsection \<open>Repaired strings\<close>

definition is_ascii :: "string \<Rightarrow> bool" where
  "is_ascii s \<longleftrightarrow> list_all (\<lambda>c. (of_char c :: nat) < 128) s"

definition utf8_valid :: "string \<Rightarrow> bool" where
  "utf8_valid s \<longleftrightarrow> None \<notin> set (runes s)"

lemma repair_valid: "utf8_valid s \<Longrightarrow> repair s = s"
  unfolding utf8_valid_def repair_def
  by (induction s rule: runes.induct) (auto split: option.splits)

lemma ascii_valid: "is_ascii s \<Longrightarrow> utf8_valid s"
  unfolding utf8_valid_def is_ascii_def
  by (induction s) (auto simp: rune_tail_ascii)

lemmas repair_ascii = repair_valid [OF ascii_valid]

text \<open>Only an ASCII string itself is repaired to it.\<close>

lemma repair_ascii_iff:
  assumes "is_ascii k"
  shows "repair s = k \<longleftrightarrow> s = k"
proof
  show "repair s = k \<Longrightarrow> s = k"
    using assms
  proof (induction s arbitrary: k rule: runes.induct)
    case 1
    then show ?case by (simp add: repair_def)
  next
    case (2 c cs)
    show ?case
    proof (cases "rune_tail c cs")
      case None
      then have "k = CHR 0xEF # CHR 0xBF # CHR 0xBD # repair cs"
        using 2(3) by (simp add: repair_def replacement_def)
      with 2(4) show ?thesis by (simp add: is_ascii_def)
    next
      case (Some j)
      then have k: "k = c # take j cs @ repair (drop j cs)" using 2(3) by (simp add: repair_def)
      moreover have "is_ascii (repair (drop j cs))" using 2(4) by (simp add: k is_ascii_def)
      then have "drop j cs = repair (drop j cs)" by (rule 2(2) [OF Some refl])
      ultimately show ?thesis by (metis append_take_drop_id)
    qed
  qed
qed (simp add: repair_ascii [OF assms])

lemma digits_ascii: "is_ascii (FormatUint w)"
  unfolding is_ascii_def FormatUint_def list_all_iff
proof
  fix c assume "c \<in> set (fmt_dec (uint w))"
  then have "is_digit c" by (rule fmt_dec_digits [rotated]) simp
  then have "(of_char c :: int) \<le> 57" by (simp add: is_digit_def)
  then show "(of_char c :: nat) < 128" using of_nat_of_char [of c, where 'a = int] by linarith
qed

section \<open>Numbers\<close>

text \<open>The text after a number does not go on with it.\<close>

definition stops :: "string \<Rightarrow> bool" where
  "stops r \<longleftrightarrow> (case r of [] \<Rightarrow> True | c # cs \<Rightarrow> \<not> is_digit c \<and> c \<notin> {CHR ''.'', CHR ''e'', CHR ''E''})"

lemma stops_after [simp]: "stops []" "stops (CHR '','' # r)" "stops (CHR '']'' # r)" "stops (CHR ''}'' # r)" "stops (CHR 0x0A # r)"
  by (simp_all add: stops_def is_digit_def)

lemma stops_end: "stops r \<Longrightarrow> read_frac r = Some ([], r) \<and> read_exp r = Some ([], r)"
  by (cases r) (auto simp: stops_def read_frac_def read_exp_def)

lemma fmt_dec_zero: "0 \<le> n \<Longrightarrow> fmt_dec n = CHR ''0'' # cs \<Longrightarrow> cs = []"
proof (induction n arbitrary: cs rule: fmt_dec.induct)
  case (1 n)
  show ?case
  proof (cases "n < 10")
    case True
    with 1(3) show ?thesis by (simp add: fmt_dec.simps [of n])
  next
    case False
    obtain d ds where d: "fmt_dec (n div 10) = d # ds" by (cases "fmt_dec (n div 10)") auto
    have eq: "fmt_dec n = fmt_dec (n div 10) @ [digit (n mod 10)]" using False by (simp add: fmt_dec.simps [of n])
    have "d = CHR ''0''" using 1(3) unfolding eq d by simp
    moreover have "ds = []" using 1(1) [OF False] 1(2) d calculation by (simp add: pos_imp_zdiv_nonneg_iff)
    ultimately have "read_dec 0 (fmt_dec (n div 10)) = Some 0" by (simp add: d is_digit_def digit_val_def)
    then have "n div 10 = 0" using read_fmt_dec [of "n div 10"] 1(2) by (simp add: pos_imp_zdiv_nonneg_iff)
    with False 1(2) show ?thesis by (simp add: div_eq_0_iff)
  qed
qed

lemma digits_then:
  assumes "0 \<le> n" and "stops r"
  shows "take_digits (fmt_dec n @ r) = (fmt_dec n, r)"
proof -
  have "takeWhile is_digit r = []" "dropWhile is_digit r = r" using assms(2) by (cases r; simp add: stops_def)+
  then show ?thesis using fmt_dec_digits [OF assms(1)] by (simp add: take_digits_def takeWhile_append dropWhile_append)
qed

lemma read_digits:
  assumes "0 \<le> n" and "stops r"
  shows "(case fmt_dec n @ r of c # cs \<Rightarrow> if c = CHR ''0'' then ([c], cs) else take_digits (fmt_dec n @ r)
     | [] \<Rightarrow> ([], fmt_dec n @ r)) = (fmt_dec n, r)"
proof -
  obtain d ds where d: "fmt_dec n = d # ds" by (cases "fmt_dec n") auto
  show ?thesis
    using digits_then [OF assms] fmt_dec_zero [OF assms(1), of ds] by (auto simp: d)
qed

lemma read_int:
  assumes "stops r"
  shows "read_num (FormatInt i @ r) = Some (FormatInt i, r)"
proof -
  note e = stops_end [OF assms]
  show ?thesis
  proof (cases "i < 0")
    case True
    then show ?thesis
      using read_digits [of "- i", OF _ assms] e
      by (simp add: FormatInt_def read_num_def Let_def case_prod_beta)
  next
    case False
    obtain d ds where d: "fmt_dec i = d # ds" by (cases "fmt_dec i") auto
    then have "d \<noteq> CHR ''-''" using fmt_dec_hd [of i d ds] False by simp
    then have "(case fmt_dec i @ r of c # cs \<Rightarrow> if c = CHR ''-'' then ([c], cs) else ([], fmt_dec i @ r)
        | [] \<Rightarrow> ([], fmt_dec i @ r)) = ([], fmt_dec i @ r)" by (simp add: d)
    then show ?thesis
      using read_digits [of i, OF _ assms] e False
      by (simp add: FormatInt_def read_num_def Let_def case_prod_beta)
  qed
qed

section \<open>Values\<close>

text \<open>The numbers of the value are printed integers.\<close>

fun int_numbers :: "json \<Rightarrow> bool" where
  "int_numbers (JNum s) \<longleftrightarrow> (\<exists>i. s = FormatInt i)"
| "int_numbers (JArr xs) \<longleftrightarrow> (\<forall>x \<in> set xs. int_numbers x)"
| "int_numbers (JObj kvs) \<longleftrightarrow> (\<forall>kv \<in> set kvs. int_numbers (snd kv))"
| "int_numbers _ \<longleftrightarrow> True"

fun repair_json :: "json \<Rightarrow> json" where
  "repair_json (JStr s) = JStr (repair s)"
| "repair_json (JArr xs) = JArr (map repair_json xs)"
| "repair_json (JObj kvs) = JObj (map (\<lambda>kv. (repair (fst kv), repair_json (snd kv))) kvs)"
| "repair_json j = j"

text \<open>How the text of a value starts.\<close>

definition starts :: "string \<Rightarrow> bool" where
  "starts s \<longleftrightarrow> s \<noteq> [] \<and> \<not> is_space (hd s) \<and> hd s \<noteq> CHR '']'' \<and> hd s \<noteq> CHR ''}''"

lemma starts_int: "starts (FormatInt i)"
proof (cases "i < 0")
  case False
  obtain d ds where d: "fmt_dec i = d # ds" by (cases "fmt_dec i") auto
  then have "is_digit d" using fmt_dec_digits [of i d] False by simp
  then show ?thesis using False by (auto simp: starts_def FormatInt_def d is_space_def is_digit_def)
qed (simp add: starts_def FormatInt_def is_space_def)

lemma print_starts: "int_numbers j \<Longrightarrow> starts (print_json j)"
  using starts_int by (cases j) (auto simp: FormatBool_def quote_json_def, auto simp: starts_def is_space_def)

lemma starts_tok: "starts s \<Longrightarrow> next_tok (s @ r) = Some (hd s, tl s @ r)"
  by (cases s) (auto simp: starts_def next_tok_def skip_ws_def)

lemma starts_open: "starts s \<Longrightarrow> \<not> closes (CHR '']'') (s @ r) \<and> \<not> closes (CHR ''}'') (s @ r)"
  by (auto simp: closes_def starts_tok starts_def)

lemma delimiter_tok [simp]:
  "next_tok (CHR '','' # r) = Some (CHR '','', r)" "next_tok (CHR '']'' # r) = Some (CHR '']'', r)"
  "next_tok (CHR ''}'' # r) = Some (CHR ''}'', r)" "next_tok (CHR '':'' # r) = Some (CHR '':'', r)"
  "next_tok (CHR ''['' # r) = Some (CHR ''['', r)" "next_tok (CHR ''{'' # r) = Some (CHR ''{'', r)"
  by (simp_all add: next_tok_def skip_ws_def is_space_def)

lemma closes_delimiter [simp]: "closes (CHR '']'') (CHR '']'' # r)" "closes (CHR ''}'') (CHR ''}'' # r)"
  by (simp_all add: closes_def)

lemma pkey_quoted: "pkey (quote_json k @ CHR '':'' # r) = Some (repair k, r)"
  by (simp add: pkey_def read_quote_json read_escaped)

text \<open>What the parser makes of the text of one value, for every continuation.\<close>

definition reads_back :: "json \<Rightarrow> bool" where
  "reads_back j \<longleftrightarrow> (\<forall>n r. stops r \<longrightarrow> 2 * length (print_json j @ r) < n \<longrightarrow>
     pvalue n (print_json j @ r) = Some (repair_json j, r))"

lemma reads_backD:
  "reads_back j \<Longrightarrow> stops r \<Longrightarrow> 2 * length (print_json j @ r) < n \<Longrightarrow> pvalue n (print_json j @ r) = Some (repair_json j, r)"
  by (simp add: reads_back_def)

lemma reads_scalar:
  assumes "\<And>r. stops r \<Longrightarrow> pscalar (hd (print_json j)) (tl (print_json j) @ r) = Some (repair_json j, r)"
    and "starts (print_json j)" and "hd (print_json j) \<noteq> CHR ''{''" and "hd (print_json j) \<noteq> CHR ''[''"
  shows "reads_back j"
  unfolding reads_back_def
proof (intro allI impI)
  fix n r assume r: "stops r" and "2 * length (print_json j @ r) < n"
  then obtain k where "n = Suc k" by (cases n) auto
  then show "pvalue n (print_json j @ r) = Some (repair_json j, r)"
    using assms r by (simp add: starts_tok)
qed

lemma reads_elems:
  assumes "xs \<noteq> []" and "\<forall>x \<in> set xs. reads_back x"
    and "2 * length (Join (map print_json xs) '','' @ CHR '']'' # r) + 1 < n"
  shows "pelems n (Join (map print_json xs) '','' @ CHR '']'' # r) = Some (map repair_json xs, r)"
  using assms
proof (induction xs arbitrary: n)
  case (Cons x xs)
  obtain k where n: "n = Suc k" using Cons.prems(3) by (cases n) auto
  have x: "reads_back x" using Cons.prems(2) by simp
  show ?case
  proof (cases xs)
    case Nil
    then show ?thesis
      using reads_backD [OF x, of "CHR '']'' # r" k] Cons.prems(3) n by simp
  next
    case (Cons y ys)
    let ?t = "Join (map print_json xs) '','' @ CHR '']'' # r"
    have t: "Join (map print_json (x # xs)) '','' @ CHR '']'' # r = print_json x @ CHR '','' # ?t" by (simp add: Cons)
    have "pelems k ?t = Some (map repair_json xs, r)"
      by (rule Cons.IH) (use Cons.prems Cons n t in \<open>simp_all\<close>)
    moreover have "pvalue k (print_json x @ CHR '','' # ?t) = Some (repair_json x, CHR '','' # ?t)"
      by (rule reads_backD [OF x]) (use Cons.prems(3) n t in \<open>simp_all\<close>)
    ultimately show ?thesis unfolding t n by simp
  qed
qed simp

lemma reads_members:
  assumes "kvs \<noteq> []" and "\<forall>kv \<in> set kvs. reads_back (snd kv)"
    and "2 * length (Join (map (\<lambda>kv. quote_json (fst kv) @ '':'' @ print_json (snd kv)) kvs) '','' @ CHR ''}'' # r) + 1 < n"
  shows "pmembers n (Join (map (\<lambda>kv. quote_json (fst kv) @ '':'' @ print_json (snd kv)) kvs) '','' @ CHR ''}'' # r) =
    Some (map (\<lambda>kv. (repair (fst kv), repair_json (snd kv))) kvs, r)"
  using assms
proof (induction kvs arbitrary: n)
  case (Cons x xs)
  let ?f = "\<lambda>kv. quote_json (fst kv) @ '':'' @ print_json (snd kv)"
  obtain k where n: "n = Suc k" using Cons.prems(3) by (cases n) auto
  have x: "reads_back (snd x)" using Cons.prems(2) by simp
  show ?case
  proof (cases xs)
    case Nil
    then show ?thesis
      using reads_backD [OF x, of "CHR ''}'' # r" k] Cons.prems(3) n by (simp add: pkey_quoted)
  next
    case (Cons y ys)
    let ?t = "Join (map ?f xs) '','' @ CHR ''}'' # r"
    have t: "Join (map ?f (x # xs)) '','' @ CHR ''}'' # r =
        quote_json (fst x) @ CHR '':'' # print_json (snd x) @ CHR '','' # ?t" by (simp add: Cons)
    have "pmembers k ?t = Some (map (\<lambda>kv. (repair (fst kv), repair_json (snd kv))) xs, r)"
      by (rule Cons.IH) (use Cons.prems Cons n t in \<open>simp_all\<close>)
    moreover have "pvalue k (print_json (snd x) @ CHR '','' # ?t) = Some (repair_json (snd x), CHR '','' # ?t)"
      by (rule reads_backD [OF x]) (use Cons.prems(3) n t in \<open>simp_all\<close>)
    ultimately show ?thesis unfolding t n by (simp add: pkey_quoted)
  qed
qed simp

lemma reads_array:
  assumes "\<forall>x \<in> set xs. reads_back x" and "\<forall>x \<in> set xs. starts (print_json x)"
  shows "reads_back (JArr xs)"
  unfolding reads_back_def
proof (intro allI impI)
  fix n r assume "stops r" and n: "2 * length (print_json (JArr xs) @ r) < n"
  obtain k where k: "n = Suc k" using n by (cases n) auto
  show "pvalue n (print_json (JArr xs) @ r) = Some (repair_json (JArr xs), r)"
  proof (cases xs)
    case (Cons x ys)
    have o: "\<not> closes (CHR '']'') (Join (map print_json xs) '','' @ CHR '']'' # r)"
      using starts_open [of "print_json x"] assms(2) by (cases ys) (auto simp: Cons)
    have "pelems k (Join (map print_json xs) '','' @ CHR '']'' # r) = Some (map repair_json xs, r)"
      by (rule reads_elems) (use assms(1) Cons n k in \<open>simp_all\<close>)
    with o show ?thesis by (simp add: k)
  qed (simp add: k)
qed

lemma reads_object:
  assumes "\<forall>kv \<in> set kvs. reads_back (snd kv)"
  shows "reads_back (JObj kvs)"
  unfolding reads_back_def
proof (intro allI impI)
  let ?f = "\<lambda>kv. quote_json (fst kv) @ '':'' @ print_json (snd kv)"
  fix n r assume "stops r" and n: "2 * length (print_json (JObj kvs) @ r) < n"
  obtain k where k: "n = Suc k" using n by (cases n) auto
  show "pvalue n (print_json (JObj kvs) @ r) = Some (repair_json (JObj kvs), r)"
  proof (cases kvs)
    case (Cons x ys)
    have "starts (?f x)" by (simp add: starts_def quote_json_def is_space_def)
    then have o: "\<not> closes (CHR ''}'') (Join (map ?f kvs) '','' @ CHR ''}'' # r)"
      using starts_open [of "?f x"] by (cases ys) (auto simp: Cons)
    have "pmembers k (Join (map ?f kvs) '','' @ CHR ''}'' # r) = Some (map (\<lambda>kv. (repair (fst kv), repair_json (snd kv))) kvs, r)"
      by (rule reads_members) (use assms Cons n k in \<open>simp_all\<close>)
    with o show ?thesis by (simp add: k)
  qed (simp add: k)
qed

lemma reads_number: "reads_back (JNum (FormatInt i))"
proof (rule reads_scalar)
  obtain c cs where c: "FormatInt i = c # cs" and d: "is_digit c \<or> c = CHR ''-''"
  proof (cases "i < 0")
    case False
    obtain d ds where "fmt_dec i = d # ds" by (cases "fmt_dec i") auto
    with False that show thesis using fmt_dec_digits [of i d] by (simp add: FormatInt_def)
  qed (simp add: FormatInt_def)
  then show "hd (print_json (JNum (FormatInt i))) \<noteq> CHR ''{''" and "hd (print_json (JNum (FormatInt i))) \<noteq> CHR ''[''"
    by (auto simp: is_digit_def)
  fix r assume "stops r"
  from read_int [OF this, of i] d show "pscalar (hd (print_json (JNum (FormatInt i)))) (tl (print_json (JNum (FormatInt i))) @ r) =
      Some (repair_json (JNum (FormatInt i)), r)"
    by (auto simp: c pscalar_def is_digit_def)
qed (simp add: starts_int)

lemma print_reads_back: "int_numbers j \<Longrightarrow> reads_back j"
proof (induction j rule: print_json.induct)
  case 1
  then show ?case by (intro reads_scalar) (simp_all add: pscalar_def read_word_def starts_def is_space_def)
next
  case (2 b)
  then show ?case
    by (intro reads_scalar) (simp_all add: pscalar_def read_word_def starts_def is_space_def FormatBool_def split: if_splits)
next
  case (3 s)
  then show ?case using reads_number by auto
next
  case (4 s)
  then show ?case
    by (intro reads_scalar) (simp_all add: pscalar_def starts_def is_space_def quote_json_def read_escaped)
next
  case (5 xs)
  then show ?case by (intro reads_array) (auto intro: print_starts)
next
  case (6 kvs)
  then show ?case by (intro reads_object) auto
qed

text \<open>What the writer wrote is read back; a newline at the end, as \<^verbatim>\<open>Encoder.Encode\<close> adds it, makes no difference.\<close>

theorem parse_print:
  assumes "int_numbers j" and "set ws \<subseteq> {CHR 0x0A}"
  shows "parse_json (print_json j @ ws) = Some (repair_json j)"
proof -
  have "stops ws" using assms(2) by (cases ws) auto
  moreover have "skip_ws ws = []" using assms(2) by (auto simp: skip_ws_def is_space_def)
  ultimately show ?thesis
    using reads_backD [OF print_reads_back [OF assms(1)], of ws "Suc (2 * length (print_json j @ ws))"]
    by (simp add: parse_json_def del: pvalue.simps)
qed

end
