(* ===== verification/JsonReport.thy ===== *)
theory JsonReport
  imports Report JsonText
begin

text \<open>
  The two JSON reports of the server, \<^verbatim>\<open>networkSnapshotJSON\<close> and \<^verbatim>\<open>statusJSON\<close>: what
  \<^verbatim>\<open>json.NewEncoder(w).Encode\<close> writes for the structures of \<^verbatim>\<open>rpc.go\<close> and \<^verbatim>\<open>reporting-server.go\<close>, the
  readers a client with the same structures has, and that such a client gets the report back.
\<close>

section \<open>Writers\<close>

definition enc_int :: "int \<Rightarrow> json" where "enc_int i = JNum (FormatInt i)"

definition enc_uint :: "'a::len word \<Rightarrow> json" where "enc_uint w = JNum (FormatUint w)"

definition enc_ChainConfig :: "ChainConfig \<Rightarrow> json" where
  "enc_ChainConfig c = JObj
    [(''chain-id'', enc_int (cc_ChainID c)), (''cross-link-epoch'', enc_int (cc_CrossLinkEpoch c)),
     (''cross-tx-epoch'', enc_int (cc_CrossTxEpoch c)), (''eip155-epoch'', enc_int (cc_Eip155Epoch c)),
     (''prestaking-epoch'', enc_int (cc_PreStakingEpoch c)), (''s3-epoch'', enc_int (cc_S3Epoch c)),
     (''staking-epoch'', enc_int (cc_StakingEpoch c))]"

definition enc_P2P :: "P2PConnectivity \<Rightarrow> json" where
  "enc_P2P p = JObj
    [(''connected'', enc_int (p2p_Connected p)), (''not-connected'', enc_int (p2p_NotConnected p)),
     (''total-known-peers'', enc_int (p2p_TotalKnown p))]"

text \<open>
  A slice that was never assigned is written as \<^verbatim>\<open>null\<close>, an empty one as \<^verbatim>\<open>[]\<close>. Lists do not tell the
  two apart: \<open>unset\<close> says it of the keys of a node.
\<close>

definition enc_keys :: "bool \<Rightarrow> string list \<Rightarrow> json" where
  "enc_keys unset ks = (if unset \<and> ks = [] then JNull else JArr (map JStr ks))"

text \<open>The tags of \<^verbatim>\<open>DNSZone\<close> and \<^verbatim>\<open>ArchivalNode\<close> have \<^verbatim>\<open>omitempty\<close>.\<close>

definition enc_NodeMetadataReply :: "bool \<Rightarrow> NodeMetadataReply \<Rightarrow> json" where
  "enc_NodeMetadataReply unset r = JObj
    ([(''blskey'', enc_keys unset (nm_BLSPublicKey r)), (''version'', JStr (nm_Version r)),
      (''network'', JStr (nm_NetworkType r)), (''is-leader'', JBool (nm_IsLeader r)),
      (''shard-id'', enc_uint (nm_ShardID r)), (''role'', JStr (nm_NodeRole r)),
      (''blocks-per-epoch'', enc_int (nm_BlocksPerEpoch r))] @
     (if nm_DNSZone r = [] then [] else [(''dns-zone'', JStr (nm_DNSZone r))]) @
     (if nm_ArchivalNode r then [(''is-archival'', JBool True)] else []) @
     [(''node-unix-start-time'', enc_int (nm_NodeStartTime r)),
      (''chain-config'', enc_ChainConfig (nm_ChainConfig r)),
      (''p2p-connectivity'', enc_P2P (nm_P2PConnectivity r))])"

definition enc_NodeMetadata :: "(NodeMetadata \<Rightarrow> bool) \<Rightarrow> NodeMetadata \<Rightarrow> json" where
  "enc_NodeMetadata unset d = JObj
    [(''Payload'', enc_NodeMetadataReply (unset d) (md_Payload d)), (''IP'', JStr (md_IP d))]"

definition enc_BlockHeaderReply :: "BlockHeaderReply \<Rightarrow> json" where
  "enc_BlockHeaderReply r = JObj
    [(''blockHash'', JStr (bh_BlockHash r)), (''blockNumber'', enc_uint (bh_BlockNumber r)),
     (''shardID'', enc_uint (bh_ShardID r)), (''leader'', JStr (bh_Leader r)), (''viewID'', enc_uint (bh_ViewID r)),
     (''epoch'', enc_uint (bh_Epoch r)), (''timestamp'', JStr (bh_Timestamp r)), (''unixtime'', enc_int (bh_UnixTime r)),
     (''lastCommitSig'', JStr (bh_LastCommitSig r)), (''lastCommitBitmap'', JStr (bh_LastCommitBitmap r))]"

definition enc_BlockHeader :: "BlockHeader \<Rightarrow> json" where
  "enc_BlockHeader h = JObj [(''Payload'', enc_BlockHeaderReply (hd_Payload h)), (''IP'', JStr (hd_IP h))]"

definition enc_noReply :: "noReply \<Rightarrow> json" where
  "enc_noReply n = JObj
    [(''IP'', JStr (nr_IP n)), (''FailureReason'', JStr (nr_FailureReason n)), (''RPCPayload'', JStr (nr_RPCPayload n)),
     (''ShardID'', enc_int (nr_ShardID n))]"

fun enc_ival :: "(NodeMetadata \<Rightarrow> bool) \<Rightarrow> ival \<Rightarrow> json" where
  "enc_ival unset VNil = JNull"
| "enc_ival unset (VBool b) = JBool b"
| "enc_ival unset (VInt i) = enc_int i"
| "enc_ival unset (VUint w) = enc_uint w"
| "enc_ival unset (VStr s) = JStr s"
| "enc_ival unset (VUints ws) = JArr (map enc_uint ws)"
| "enc_ival unset (VStrs ss) = JArr (map JStr ss)"
| "enc_ival unset (VHeader h) = enc_BlockHeader h"
| "enc_ival unset (VMeta d) = enc_NodeMetadata unset d"
| "enc_ival unset (VSlice vs) = JArr (map (enc_ival unset) vs)"
| "enc_ival unset (VAny m) = json_of_map (map (\<lambda>kv. (fst kv, enc_ival unset (snd kv))) m)"
| "enc_ival unset (VMap m) = json_of_map (map (\<lambda>kv. (fst kv, enc_ival unset (snd kv))) m)"

definition enc_summary :: "(NodeMetadata \<Rightarrow> bool) \<Rightarrow> summary \<Rightarrow> json" where
  "enc_summary unset sm =
     json_of_map (map (\<lambda>km. (fst km, json_of_map (map (\<lambda>kv. (fst kv, enc_ival unset (snd kv))) (snd km)))) sm)"

definition enc_networkReport :: "(NodeMetadata \<Rightarrow> bool) \<Rightarrow> networkReport \<Rightarrow> json" where
  "enc_networkReport unset r = JObj
    [(''watchdog-build-version'', JStr (nr_Build r)), (''chain-name'', JStr (nr_Chain r)),
     (''consensus-liviness'', json_of_map (map (\<lambda>kv. (fst kv, JBool (snd kv))) (nr_ConsensusProgress r))),
     (''summary-maps'', enc_summary unset (nr_Summary r)),
     (''no-reply-machines'', JArr (map enc_noReply (nr_NoReplies r)))]"

definition enc_shardStatus :: "shardStatus \<Rightarrow> json" where
  "enc_shardStatus s = JObj
    [(''shard-id'', JStr (ss_ShardID s)), (''consensus-status'', JBool (ss_Consensus s)),
     (''current-block-number'', enc_uint (ss_Block s)), (''block-timestamp'', JStr (ss_BlockTimestamp s)),
     (''current-epoch'', enc_uint (ss_Epoch s)), (''leader-address'', JStr (ss_LeaderAddress s))]"

definition enc_statusReport :: "statusReport \<Rightarrow> json" where
  "enc_statusReport r = JObj
    [(''shard-status'', JArr (map enc_shardStatus (sr_Shards r))), (''commit-version'', JArr (map JStr (sr_Versions r))),
     (''avail-seats'', enc_int (sr_AvailSeats r)), (''used-seats'', enc_int (sr_ElectedSeats r)),
     (''validators'', enc_int (sr_Validators r))]"

section \<open>Handlers\<close>

text \<open>\<^verbatim>\<open>Encode\<close> ends the value with a newline.\<close>

definition Encode :: "json \<Rightarrow> string" where
  "Encode j = print_json j @ [CHR 0x0A]"

definition networkSnapshotJSON where
  "networkSnapshotJSON unset lq ord ord' ord'' build other m =
     (case networkSnapshot lq ord ord' ord'' build other m of
        Returned r m \<Rightarrow> Returned (Encode (enc_networkReport unset r)) m
      | Panicked p m \<Rightarrow> Panicked p m
      | Waits m \<Rightarrow> Waits m)"

definition statusJSON where
  "statusJSON lq ord ord' ord'' other m =
     (case statusSnapshot lq ord ord' ord'' other m of
        Returned r m \<Rightarrow> Returned (Encode (enc_statusReport r)) m
      | Panicked p m \<Rightarrow> Panicked p m
      | Waits m \<Rightarrow> Waits m)"

section \<open>What a client reads\<close>

definition zero_NodeMetadata :: NodeMetadata where
  "zero_NodeMetadata = \<lparr>md_Payload = zero_NodeMetadataReply, md_IP = []\<rparr>"

definition dec_NodeMetadata :: "NodeMetadata decoder" where
  "dec_NodeMetadata = dec_struct
    [(''Payload'', \<lambda>j x. x\<lparr>md_Payload := dec_NodeMetadataReply j (md_Payload x)\<rparr>),
     (''IP'', \<lambda>j x. x\<lparr>md_IP := dec_string j (md_IP x)\<rparr>)]"

definition zero_BlockHeader :: BlockHeader where
  "zero_BlockHeader = \<lparr>hd_Payload = zero_BlockHeaderReply, hd_IP = []\<rparr>"

definition dec_BlockHeader :: "BlockHeader decoder" where
  "dec_BlockHeader = dec_struct
    [(''Payload'', \<lambda>j x. x\<lparr>hd_Payload := dec_BlockHeaderReply j (hd_Payload x)\<rparr>),
     (''IP'', \<lambda>j x. x\<lparr>hd_IP := dec_string j (hd_IP x)\<rparr>)]"

definition zero_noReply :: noReply where
  "zero_noReply = \<lparr>nr_IP = [], nr_FailureReason = [], nr_RPCPayload = [], nr_ShardID = 0\<rparr>"

definition dec_noReply :: "noReply decoder" where
  "dec_noReply = dec_struct
    [(''IP'', \<lambda>j x. x\<lparr>nr_IP := dec_string j (nr_IP x)\<rparr>),
     (''FailureReason'', \<lambda>j x. x\<lparr>nr_FailureReason := dec_string j (nr_FailureReason x)\<rparr>),
     (''RPCPayload'', \<lambda>j x. x\<lparr>nr_RPCPayload := dec_string j (nr_RPCPayload x)\<rparr>),
     (''ShardID'', \<lambda>j x. x\<lparr>nr_ShardID := dec_int j (nr_ShardID x)\<rparr>)]"

definition zero_shardStatus :: shardStatus where
  "zero_shardStatus = \<lparr>ss_ShardID = [], ss_Consensus = False, ss_Block = 0, ss_BlockTimestamp = [], ss_Epoch = 0,
     ss_LeaderAddress = []\<rparr>"

definition dec_shardStatus :: "shardStatus decoder" where
  "dec_shardStatus = dec_struct
    [(''shard-id'', \<lambda>j x. x\<lparr>ss_ShardID := dec_string j (ss_ShardID x)\<rparr>),
     (''consensus-status'', \<lambda>j x. x\<lparr>ss_Consensus := dec_bool j (ss_Consensus x)\<rparr>),
     (''current-block-number'', \<lambda>j x. x\<lparr>ss_Block := dec_uint j (ss_Block x)\<rparr>),
     (''block-timestamp'', \<lambda>j x. x\<lparr>ss_BlockTimestamp := dec_string j (ss_BlockTimestamp x)\<rparr>),
     (''current-epoch'', \<lambda>j x. x\<lparr>ss_Epoch := dec_uint j (ss_Epoch x)\<rparr>),
     (''leader-address'', \<lambda>j x. x\<lparr>ss_LeaderAddress := dec_string j (ss_LeaderAddress x)\<rparr>)]"

definition zero_statusReport :: statusReport where
  "zero_statusReport = \<lparr>sr_Shards = [], sr_Versions = [], sr_AvailSeats = 0, sr_ElectedSeats = 0, sr_Validators = 0\<rparr>"

definition dec_statusReport :: "statusReport decoder" where
  "dec_statusReport = dec_struct
    [(''shard-status'', \<lambda>j x. x\<lparr>sr_Shards := dec_slice zero_shardStatus dec_shardStatus j (sr_Shards x)\<rparr>),
     (''commit-version'', \<lambda>j x. x\<lparr>sr_Versions := dec_slice [] dec_string j (sr_Versions x)\<rparr>),
     (''avail-seats'', \<lambda>j x. x\<lparr>sr_AvailSeats := dec_int j (sr_AvailSeats x)\<rparr>),
     (''used-seats'', \<lambda>j x. x\<lparr>sr_ElectedSeats := dec_int j (sr_ElectedSeats x)\<rparr>),
     (''validators'', \<lambda>j x. x\<lparr>sr_Validators := dec_int j (sr_Validators x)\<rparr>)]"

text \<open>The value at a path of member names.\<close>

fun jget :: "json \<Rightarrow> string list \<Rightarrow> json option" where
  "jget j [] = Some j"
| "jget (JObj kvs) (k # ks) = (case map_of kvs k of None \<Rightarrow> None | Some j \<Rightarrow> jget j ks)"
| "jget _ (k # ks) = None"

subsection \<open>Repaired records\<close>

definition repair_header :: "BlockHeaderReply \<Rightarrow> BlockHeaderReply" where
  "repair_header p = p\<lparr>bh_BlockHash := repair (bh_BlockHash p), bh_Leader := repair (bh_Leader p),
     bh_Timestamp := repair (bh_Timestamp p), bh_LastCommitSig := repair (bh_LastCommitSig p),
     bh_LastCommitBitmap := repair (bh_LastCommitBitmap p)\<rparr>"

definition repair_BlockHeader :: "BlockHeader \<Rightarrow> BlockHeader" where
  "repair_BlockHeader h = \<lparr>hd_Payload = repair_header (hd_Payload h), hd_IP = repair (hd_IP h)\<rparr>"

definition repair_reply :: "NodeMetadataReply \<Rightarrow> NodeMetadataReply" where
  "repair_reply p = p\<lparr>nm_BLSPublicKey := map repair (nm_BLSPublicKey p), nm_Version := repair (nm_Version p),
     nm_NetworkType := repair (nm_NetworkType p), nm_NodeRole := repair (nm_NodeRole p),
     nm_DNSZone := repair (nm_DNSZone p)\<rparr>"

definition repair_NodeMetadata :: "NodeMetadata \<Rightarrow> NodeMetadata" where
  "repair_NodeMetadata d = \<lparr>md_Payload = repair_reply (md_Payload d), md_IP = repair (md_IP d)\<rparr>"

definition repair_noReply :: "noReply \<Rightarrow> noReply" where
  "repair_noReply n = n\<lparr>nr_IP := repair (nr_IP n), nr_FailureReason := repair (nr_FailureReason n),
     nr_RPCPayload := repair (nr_RPCPayload n)\<rparr>"

definition repair_shardStatus :: "shardStatus \<Rightarrow> shardStatus" where
  "repair_shardStatus s = s\<lparr>ss_ShardID := repair (ss_ShardID s), ss_BlockTimestamp := repair (ss_BlockTimestamp s),
     ss_LeaderAddress := repair (ss_LeaderAddress s)\<rparr>"

definition repair_statusReport :: "statusReport \<Rightarrow> statusReport" where
  "repair_statusReport r = r\<lparr>sr_Shards := map repair_shardStatus (sr_Shards r), sr_Versions := map repair (sr_Versions r)\<rparr>"

section \<open>Every member name is plain, every number an integer\<close>

lemma int_numbers_scalars [simp]: "int_numbers (enc_int i)" "int_numbers (enc_uint w)"
  by (auto simp: enc_int_def enc_uint_def simp flip: Itoa_uint)

lemma repair_scalars [simp]: "repair_json (enc_int i) = enc_int i" "repair_json (enc_uint w) = enc_uint w"
  by (simp_all add: enc_int_def enc_uint_def)

lemma int_numbers_map [simp]: "int_numbers (json_of_map m) \<longleftrightarrow> (\<forall>kv \<in> set m. int_numbers (snd kv))"
  by (simp add: json_of_map_def)

lemma int_numbers_records [simp]:
  "int_numbers (enc_BlockHeaderReply q)" "int_numbers (enc_NodeMetadataReply b p)"
  "int_numbers (enc_BlockHeader h)" "int_numbers (enc_NodeMetadata unset d)" "int_numbers (enc_noReply n)"
  "int_numbers (enc_shardStatus s)"
  by (simp_all add: enc_BlockHeader_def enc_BlockHeaderReply_def enc_NodeMetadata_def enc_NodeMetadataReply_def
      enc_keys_def enc_ChainConfig_def enc_P2P_def enc_noReply_def enc_shardStatus_def)

lemma int_numbers_ival [simp]: "int_numbers (enc_ival unset v)"
  by (induction unset v rule: enc_ival.induct) auto

lemma int_numbers_reports [simp]: "int_numbers (enc_networkReport unset r)" "int_numbers (enc_statusReport s)"
  by (auto simp: enc_networkReport_def enc_summary_def enc_statusReport_def)

lemma parse_Encode: "int_numbers j \<Longrightarrow> parse_json (Encode j) = Some (repair_json j)"
  unfolding Encode_def by (rule parse_print) auto

section \<open>Records are read back\<close>

lemma dec_scalars [simp]:
  "dec_string (JStr s) s' = s" "dec_bool (JBool b) b' = b" "dec_uint (enc_uint w) w' = w"
  "in_int64 i \<Longrightarrow> dec_int (enc_int i) i' = i"
  by (simp_all add: dec_string_def dec_bool_def dec_uint_def enc_uint_def dec_int_def enc_int_def
      Atoi_Itoa ParseUint_FormatUint)

lemma dec_slice_new [simp]: "dec_slice zero d (JArr js) [] = map (\<lambda>j. d j zero) js"
proof -
  have "map (\<lambda>(i, x). d x zero) (enumerate n js) = map (\<lambda>j. d j zero) js" for n by (induction js arbitrary: n) simp_all
  then show ?thesis by (simp add: dec_slice_def)
qed

lemma dec_keys [simp]: "dec_slice [] dec_string (repair_json (enc_keys unset ks)) [] = map repair ks"
  by (simp add: enc_keys_def) (simp add: dec_slice_def)

lemmas reading = dec_struct_def dec_member_def find_field_def repair_ascii is_ascii_def

lemma dec_enc_BlockHeaderReply:
  assumes "in_int64 (bh_UnixTime p)"
  shows "dec_BlockHeaderReply (repair_json (enc_BlockHeaderReply p)) zero_BlockHeaderReply = repair_header p"
  using assms
  by (simp add: dec_BlockHeaderReply_def enc_BlockHeaderReply_def zero_BlockHeaderReply_def repair_header_def reading)

lemma dec_enc_BlockHeader:
  assumes "in_int64 (bh_UnixTime (hd_Payload h))"
  shows "dec_BlockHeader (repair_json (enc_BlockHeader h)) zero_BlockHeader = repair_BlockHeader h"
  using dec_enc_BlockHeaderReply [OF assms]
  by (simp add: dec_BlockHeader_def enc_BlockHeader_def zero_BlockHeader_def repair_BlockHeader_def reading)

lemma dec_enc_noReply:
  assumes "in_int64 (nr_ShardID n)"
  shows "dec_noReply (repair_json (enc_noReply n)) zero_noReply = repair_noReply n"
  using assms by (simp add: dec_noReply_def enc_noReply_def zero_noReply_def repair_noReply_def reading)

lemma dec_enc_shardStatus: "dec_shardStatus (repair_json (enc_shardStatus s)) zero_shardStatus = repair_shardStatus s"
  by (simp add: dec_shardStatus_def enc_shardStatus_def zero_shardStatus_def repair_shardStatus_def reading)

definition meta_ints :: "NodeMetadataReply \<Rightarrow> bool" where
  "meta_ints r \<longleftrightarrow> in_int64 (nm_BlocksPerEpoch r) \<and> in_int64 (nm_NodeStartTime r) \<and>
     (let c = nm_ChainConfig r in list_all in_int64 [cc_ChainID c, cc_CrossLinkEpoch c, cc_CrossTxEpoch c, cc_Eip155Epoch c,
        cc_PreStakingEpoch c, cc_S3Epoch c, cc_StakingEpoch c]) \<and>
     (let p = nm_P2PConnectivity r in list_all in_int64 [p2p_Connected p, p2p_NotConnected p, p2p_TotalKnown p])"

lemma dec_enc_ChainConfig:
  assumes "meta_ints r"
  shows "dec_ChainConfig (repair_json (enc_ChainConfig (nm_ChainConfig r))) zero_ChainConfig = nm_ChainConfig r"
  using assms
  by (simp add: meta_ints_def Let_def dec_ChainConfig_def enc_ChainConfig_def zero_ChainConfig_def reading)

lemma dec_enc_P2P:
  assumes "meta_ints r"
  shows "dec_P2P (repair_json (enc_P2P (nm_P2PConnectivity r))) zero_P2P = nm_P2PConnectivity r"
  using assms by (simp add: meta_ints_def Let_def dec_P2P_def enc_P2P_def zero_P2P_def reading)

lemma dec_enc_NodeMetadataReply:
  assumes "meta_ints r"
  shows "dec_NodeMetadataReply (repair_json (enc_NodeMetadataReply unset r)) zero_NodeMetadataReply = repair_reply r"
proof -
  have "in_int64 (nm_BlocksPerEpoch r)" "in_int64 (nm_NodeStartTime r)" using assms by (simp_all add: meta_ints_def)
  moreover note dec_enc_ChainConfig [OF assms] dec_enc_P2P [OF assms]
  ultimately show ?thesis
    by (simp add: dec_NodeMetadataReply_def enc_NodeMetadataReply_def zero_NodeMetadataReply_def repair_reply_def reading)
qed

lemma dec_enc_NodeMetadata:
  assumes "meta_ints (md_Payload d)"
  shows "dec_NodeMetadata (repair_json (enc_NodeMetadata unset d)) zero_NodeMetadata = repair_NodeMetadata d"
  using dec_enc_NodeMetadataReply [OF assms, of "unset d"]
  by (simp add: dec_NodeMetadata_def enc_NodeMetadata_def zero_NodeMetadata_def repair_NodeMetadata_def reading)

lemma dec_enc_statusReport:
  assumes "in_int64 (sr_AvailSeats r)" and "in_int64 (sr_ElectedSeats r)" and "in_int64 (sr_Validators r)"
  shows "dec_statusReport (repair_json (enc_statusReport r)) zero_statusReport = repair_statusReport r"
  using assms
  by (simp add: dec_statusReport_def enc_statusReport_def zero_statusReport_def repair_statusReport_def
      dec_enc_shardStatus reading)

text \<open>The answer of a node: its result in the envelope of JSON-RPC.\<close>

definition rpc_answer :: "json \<Rightarrow> string" where
  "rpc_answer result = Encode (JObj [(''jsonrpc'', JStr JSONVersion), (''id'', JStr ''1''), (''result'', result)])"

lemma Unmarshal_answer:
  assumes "int_numbers j"
  shows "Unmarshal (dec_result d) (rpc_answer j) x = d (repair_json j) x"
proof -
  have "int_numbers (JObj [(''jsonrpc'', JStr JSONVersion), (''id'', JStr ''1''), (''result'', j)])" using assms by simp
  from parse_Encode [OF this] show ?thesis
    unfolding rpc_answer_def by (simp add: Unmarshal_def dec_result_def equal_fold_def to_lower_def reading)
qed

section \<open>The contract of a written record\<close>

text \<open>
  What a writer and the reader of the same structure promise together: every number is an integer,
  and for a record whose numbers fit their types the reader gives the record, repaired.
\<close>

locale record_codec =
  fixes enc :: "'a \<Rightarrow> json" and dec :: "'a decoder" and zero :: 'a and rep :: "'a \<Rightarrow> 'a" and fits :: "'a \<Rightarrow> bool"
  assumes ints: "int_numbers (enc x)"
    and reads: "fits x \<Longrightarrow> dec (repair_json (enc x)) zero = rep x"
begin

lemma body_read: "fits x \<Longrightarrow> Unmarshal dec (Encode (enc x)) zero = rep x"
  by (simp add: Unmarshal_def parse_Encode ints reads)

lemma answer_read: "fits x \<Longrightarrow> Unmarshal (dec_result dec) (rpc_answer (enc x)) zero = rep x"
  by (simp add: Unmarshal_answer ints reads)

lemma list_read: "\<forall>x \<in> set xs. fits x \<Longrightarrow> map (\<lambda>j. dec j zero) (map (\<lambda>x. repair_json (enc x)) xs) = map rep xs"
  by (simp add: reads)

lemma group_read:
  assumes "mset xs = mset ys" and "\<forall>y \<in> set ys. fits y"
  shows "mset (map (\<lambda>j. dec j zero) (map (\<lambda>x. repair_json (enc x)) xs)) = mset (map rep ys)"
proof -
  have "\<forall>x \<in> set xs. fits x" using assms mset_eq_setD by blast
  from list_read [OF this] show ?thesis using assms(1) by (simp only: mset_map)
qed

end

interpretation hr: record_codec enc_BlockHeaderReply dec_BlockHeaderReply zero_BlockHeaderReply repair_header
  "\<lambda>p. in_int64 (bh_UnixTime p)"
  by unfold_locales (simp_all add: dec_enc_BlockHeaderReply)

interpretation bh: record_codec enc_BlockHeader dec_BlockHeader zero_BlockHeader repair_BlockHeader
  "\<lambda>h. in_int64 (bh_UnixTime (hd_Payload h))"
  by unfold_locales (simp_all add: dec_enc_BlockHeader)

interpretation nr: record_codec "enc_NodeMetadataReply b" dec_NodeMetadataReply zero_NodeMetadataReply repair_reply meta_ints
  for b
  by unfold_locales (simp_all add: dec_enc_NodeMetadataReply)

interpretation nm: record_codec "enc_NodeMetadata unset" dec_NodeMetadata zero_NodeMetadata repair_NodeMetadata
  "\<lambda>d. meta_ints (md_Payload d)" for unset
  by unfold_locales (simp_all add: dec_enc_NodeMetadata)

interpretation dn: record_codec enc_noReply dec_noReply zero_noReply repair_noReply "\<lambda>n. in_int64 (nr_ShardID n)"
  by unfold_locales (simp_all add: dec_enc_noReply)

interpretation sr: record_codec enc_statusReport dec_statusReport zero_statusReport repair_statusReport
  "\<lambda>r. in_int64 (sr_AvailSeats r) \<and> in_int64 (sr_ElectedSeats r) \<and> in_int64 (sr_Validators r)"
  by unfold_locales (simp_all add: dec_enc_statusReport)

section \<open>Paths\<close>

lemma map_of_filter: "map_of xs k = (case filter (\<lambda>x. fst x = k) xs of [] \<Rightarrow> None | x # _ \<Rightarrow> Some (snd x))"
  by (induction xs) auto

lemma map_of_sorted: "map_of (sort_key fst xs) k = map_of xs k"
  by (simp add: map_of_filter sort_key_stable)

lemma map_of_repaired:
  assumes "is_ascii k"
  shows "map_of (map (\<lambda>kv. (repair (fst kv), f (snd kv))) kvs) k = map_option f (map_of kvs k)"
proof (induction kvs)
  case (Cons kv kvs)
  show ?case
  proof (cases "fst kv = k")
    case True
    then show ?thesis by (simp add: repair_ascii [OF assms])
  next
    case False
    then have "repair (fst kv) \<noteq> k" by (simp add: repair_ascii_iff [OF assms])
    with False Cons show ?thesis by simp
  qed
qed simp

lemma jget_map:
  assumes "is_ascii k"
  shows "jget (repair_json (json_of_map m)) (k # ks) =
    (case map_of m k of None \<Rightarrow> None | Some j \<Rightarrow> jget (repair_json j) ks)"
  by (simp add: json_of_map_def map_of_repaired [OF assms] map_of_sorted split: option.splits)

lemma map_of_encoded: "map_of (map (\<lambda>kv. (fst kv, f (snd kv))) m) k = map_option f (map_of m k)"
  by (induction m) auto

lemma jget_struct:
  "is_ascii k \<Longrightarrow> jget (repair_json (JObj kvs)) (k # ks) = (case map_of kvs k of None \<Rightarrow> None | Some j \<Rightarrow> jget (repair_json j) ks)"
  by (simp add: map_of_repaired split: option.splits)

lemma sumry_ascii: "is_ascii metaSumry" "is_ascii headerSumry" "is_ascii ''records''" "is_ascii ''summary-maps''"
  by (simp_all add: is_ascii_def sumry_names)

text \<open>The value of one entry of one of the summary's maps.\<close>

lemma jget_entry:
  assumes "is_ascii key" and "is_ascii k" and "map_of (sget (nr_Summary r) key) k = Some v"
  shows "jget (repair_json (enc_networkReport unset r)) (''summary-maps'' # key # k # ks) =
    jget (repair_json (enc_ival unset v)) ks"
proof -
  obtain inner where i: "map_of (nr_Summary r) key = Some inner" "map_of inner k = Some v"
    using assms(3) by (auto simp: sget_def split: option.splits)
  show ?thesis
    unfolding enc_networkReport_def jget_struct [OF sumry_ascii(4)]
    by (simp add: enc_summary_def jget_map assms(1,2) i map_of_encoded [where f = "enc_ival unset"]
        map_of_encoded [where f = "\<lambda>m. json_of_map (map (\<lambda>kv. (fst kv, enc_ival unset (snd kv))) m)"])
qed

lemma jget_records:
  assumes "iget e ''records'' = VSlice vs" and "v = VAny e \<or> v = VMap e"
  shows "jget (repair_json (enc_ival unset v)) [''records''] = Some (JArr (map (\<lambda>x. repair_json (enc_ival unset x)) vs))"
proof -
  have "map_of e ''records'' = Some (VSlice vs)" using assms(1) by (auto simp: iget_def split: option.splits)
  moreover have "enc_ival unset v = json_of_map (map (\<lambda>kv. (fst kv, enc_ival unset (snd kv))) e)" using assms(2) by auto
  ultimately show ?thesis by (simp add: jget_map [OF sumry_ascii(3)] map_of_encoded)
qed

lemma short_hdr_fields [simp]:
  "hdr_shard (short_hdr h) = hdr_shard h" "bh_UnixTime (hd_Payload (short_hdr h)) = bh_UnixTime (hd_Payload h)"
  by (simp_all add: short_hdr_def split: sum.splits)

lemma header_path:
  assumes "summary_of metas (map short_hdr hs) (nr_Summary r)" and "h \<in> set hs"
    and "\<forall>x \<in> set hs. in_int64 (bh_UnixTime (hd_Payload x))"
  shows "\<exists>js. jget (repair_json (enc_networkReport unset r))
         [''summary-maps'', headerSumry, FormatUint (hdr_shard h), ''records''] = Some (JArr js) \<and>
       mset (map (\<lambda>x. dec_BlockHeader x zero_BlockHeader) js) =
       mset (map (\<lambda>x. repair_BlockHeader (short_hdr x)) (filter (\<lambda>x. hdr_shard x = hdr_shard h) hs))"
proof -
  let ?g = "filter (\<lambda>x. hdr_shard x = hdr_shard h) (map short_hdr hs)"
  obtain e rs where e: "map_of (sget (nr_Summary r) headerSumry) (FormatUint (hdr_shard h)) = Some (VAny e)"
    and rs: "iget e ''records'' = VSlice (map VHeader rs)" "mset rs = mset ?g"
    using assms(1,2) unfolding summary_of_def summarises_def by fastforce
  have "\<forall>x \<in> set ?g. in_int64 (bh_UnixTime (hd_Payload x))" using assms(3) by auto
  note bh.group_read [OF rs(2) this]
  also have "map repair_BlockHeader ?g = map (\<lambda>x. repair_BlockHeader (short_hdr x)) (filter (\<lambda>x. hdr_shard x = hdr_shard h) hs)"
    by (simp add: filter_map o_def)
  finally show ?thesis
    unfolding jget_entry [OF sumry_ascii(2) digits_ascii e] jget_records [OF rs(1) disjI1 [OF refl]]
    by - (intro exI conjI, rule refl, simp only: map_map o_def enc_ival.simps)
qed

lemma node_path:
  assumes "summary_of metas hs (nr_Summary r)" and "d \<in> set metas" and "is_ascii (meta_version d)"
    and "\<forall>x \<in> set metas. meta_ints (md_Payload x)"
  shows "\<exists>js. jget (repair_json (enc_networkReport unset r))
         [''summary-maps'', metaSumry, meta_version d, ''records''] = Some (JArr js) \<and>
       mset (map (\<lambda>x. dec_NodeMetadata x zero_NodeMetadata) js) =
       mset (map repair_NodeMetadata (filter (\<lambda>x. meta_version x = meta_version d) metas))"
proof -
  let ?g = "filter (\<lambda>x. meta_version x = meta_version d) metas"
  obtain rs where e: "map_of (sget (nr_Summary r) metaSumry) (meta_version d) = Some (VMap [(''records'', VSlice (map VMeta rs))])"
    and rs: "mset rs = mset ?g"
    using summary_version [OF assms(1)] assms(2) by blast
  have i: "iget [(''records'', VSlice (map VMeta rs))] ''records'' = VSlice (map VMeta rs)" by (simp add: iget_def)
  have "\<forall>x \<in> set ?g. meta_ints (md_Payload x)" using assms(4) by auto
  from nm.group_read [OF rs this, of unset] show ?thesis
    unfolding jget_entry [OF sumry_ascii(1) assms(3) e] jget_records [OF i disjI2 [OF refl]]
    by - (intro exI conjI, rule refl, simp only: map_map o_def enc_ival.simps)
qed

lemma silent_path:
  assumes "\<forall>n \<in> set (nr_NoReplies r). in_int64 (nr_ShardID n)"
  shows "\<exists>js. jget (repair_json (enc_networkReport unset r)) [''no-reply-machines''] = Some (JArr js) \<and>
    map (\<lambda>x. dec_noReply x zero_noReply) js = map repair_noReply (nr_NoReplies r)"
proof -
  have "is_ascii ''no-reply-machines''" by (simp add: is_ascii_def)
  then show ?thesis
    unfolding enc_networkReport_def using assms by (simp add: jget_struct dec_enc_noReply del: repair_json.simps(3))
qed

section \<open>Answers are read\<close>



section \<open>Reports are read back\<close>

lemma distinct_seats:
  assumes "linq_laws lq"
  shows "length (lq_distinct_string lq xs) \<le> length xs"
proof -
  have "length (lq_distinct_string lq xs) = card (set xs)"
    using linq_simps(10,11) [OF assms, of xs] by (metis distinct_card)
  then show ?thesis by (simp add: card_length)
qed

text \<open>
  (C32) A client that asks for \<^verbatim>\<open>/status-...\<close> and decodes the body into the same structure gets the
  report back, byte for byte except that a byte which is not UTF-8 becomes U+FFFD.
\<close>

theorem status_json_roundtrip:
  assumes "linq_laws lq" and "range_order ord'" and "\<not> m_inUse m" and "\<forall>h \<in> set (snap_headers m). sig_ok h"
    and com: "com = sc_CurrentCommittee (m_SuperCommittee (other (shortened m)))"
    and "in_int64 (qc_ExternalCount com)" and "in_int64 (int (length (external_members (ord'' (qc_Deciders com)))))"
  shows "\<exists>r body. statusSnapshot lq ord ord' ord'' other m = Returned r (other (shortened m)) \<and>
    statusJSON lq ord ord' ord'' other m = Returned body (other (shortened m)) \<and>
    Unmarshal dec_statusReport body zero_statusReport = repair_statusReport r"
proof -
  obtain sm where sm: "take_summary lq m = Returned sm (shortened m)" "summary_of (snap_metas m) (map short_hdr (snap_headers m)) sm"
    using take_summary_ok [OF assms(1,3,4)] by blast
  obtain sts where sts: "assert_all (shard_status (fold (\<lambda>kv. AList.update (fst kv) (snd kv)) (ord (m_consensusProgress (shortened m))) []))
      (ord' (sget sm headerSumry)) = Inr sts"
    using status_list [OF sm(2) assms(2)] by blast
  let ?as = "map cm_Address (external_members (ord'' (qc_Deciders com)))"
  have "in_int64 (int (length (lq_distinct_string lq ?as)))"
    using distinct_seats [OF assms(1), of ?as] assms(7) by (simp add: in_int64_def)
  then show ?thesis
    using assms(6,7) com by (simp add: statusJSON_def statusSnapshot_def sm(1) Let_def sts sr.body_read)
qed

theorem status_json_roundtrip_witness:
  "\<exists>r body. statusSnapshot linq_ref rev rev rev (\<lambda>m. m) sample_monitor = Returned r (shortened sample_monitor) \<and>
    statusJSON linq_ref rev rev rev (\<lambda>m. m) sample_monitor = Returned body (shortened sample_monitor) \<and>
    Unmarshal dec_statusReport body zero_statusReport = repair_statusReport r"
proof -
  have "in_int64 (qc_ExternalCount (sc_CurrentCommittee (m_SuperCommittee (shortened sample_monitor))))"
    "in_int64 (int (length (external_members (rev (qc_Deciders (sc_CurrentCommittee (m_SuperCommittee (shortened sample_monitor))))))))"
    by (simp_all add: sample_monitor_def new_monitor_def shortened_def zero_SuperCommitteeReply_def zero_QuorumCommittee_def
        external_members_def in_int64_def)
  then show ?thesis
    using status_json_roundtrip [where other = "\<lambda>m. m" and ord = rev, OF linq_ref_laws range_order_rev sample_monitor_ok(1,2) refl]
    by blast
qed



end
