(* ===== verification/Daemon.thy ===== *)
theory Daemon
  imports Report Config
begin

text \<open>
  \<^verbatim>\<open>daemon-cmds.go\<close>, \<^verbatim>\<open>main.go\<close> and the command part of \<^verbatim>\<open>root.go\<close>: the handlers of the
  commands, \<^verbatim>\<open>preRunInit\<close>, \<^verbatim>\<open>monitorNetwork\<close>, \<^verbatim>\<open>acceptConnection\<close>, the sample configuration; and
  \<^verbatim>\<open>startReportingHTTPServer\<close> of \<^verbatim>\<open>reporting-server.go\<close>. The service manager of the
  operating system (github.com/takama/daemon), the network and the YAML package are
  parameters.
\<close>

section \<open>The server\<close>

text \<open>
  \<^verbatim>\<open>http.HandleFunc\<close> on the default mux: an empty or registered pattern panics. A request for a
  registered path goes to its handler.
\<close>

type_synonym mux = "(string, route) gomap"

definition HandleFunc :: "string \<times> route \<Rightarrow> mux \<Rightarrow> mux result" where
  "HandleFunc ph mux =
     (if fst ph = [] \<or> fst ph \<in> set (keys mux) then Inl DuplicatePattern else Inr (ph # mux))"

record http_server =
  hs_DialTimeout :: int
  hs_MaxConnsPerHost :: int
  hs_update :: "pool \<times> call list"
  hs_mux :: mux
  hs_addr :: string

text \<open>
  The client of all requests, the goroutine \<^verbatim>\<open>update\<close>, the four handlers and the address that is
  served. The timeout is a product of 64-bit integers, in nanoseconds.
\<close>

definition startReportingHTTPServer ::
  "((int \<times> committee) list \<Rightarrow> (int \<times> committee) list) \<Rightarrow> ((string \<times> int) list \<Rightarrow> (string \<times> int) list) \<Rightarrow>
   instruction \<Rightarrow> http_server result" where
  "startReportingHTTPServer ord ord' instrs =
     (let params = in_watchParams instrs
      in case fold_result HandleFunc (routes params) [] of
           Inl p \<Rightarrow> Inl p
         | Inr mux \<Rightarrow>
             Inr \<lparr>hs_DialTimeout = sint (1000000000 * word_of_int (wp_HTTPTimeout params) :: 64 word),
                  hs_MaxConnsPerHost = 2048,
                  hs_update = update ord ord' params (in_superCommittee instrs) [BlockHeaderRPC, NodeMetadataRPC],
                  hs_mux = mux,
                  hs_addr = '':'' @ Itoa (wp_Port params)\<rparr>)"

section \<open>The service\<close>

text \<open>
  The service manager: making a handle for a service, and the operations on a handle. Each gives
  an error or a message.
\<close>

record 'd daemon_lib =
  dl_New :: "string \<Rightarrow> string \<Rightarrow> string list \<Rightarrow> string + 'd"
  dl_Install :: "'d \<Rightarrow> string list \<Rightarrow> string + string"
  dl_Remove :: "'d \<Rightarrow> string + string"
  dl_Start :: "'d \<Rightarrow> string + string"
  dl_Stop :: "'d \<Rightarrow> string + string"
  dl_Status :: "'d \<Rightarrow> string + string"

record 'd Service =
  sv_Daemon :: 'd
  sv_monitor :: "monitor option"
  sv_instruction :: instruction

text \<open>The wrapper \<^verbatim>\<open>w\<close> (a nil pointer at first) and the variable that the flag sets.\<close>

record 'd cobraSrvWrapper =
  cw_Service :: "'d Service option"
  cw_monitorNodeYAML :: string

definition new_wrapper :: "string \<Rightarrow> 'd cobraSrvWrapper" where
  "new_wrapper yaml = \<lparr>cw_Service = None, cw_monitorNodeYAML = yaml\<rparr>"

datatype cmd_error =
    ConfigError config_error
  | DaemonError string
  | ListenError string
  | MarshalError string
  | SysIntrpt
  | DaemonKilled

definition nameFMT :: string where "nameFMT = ''harmony-watchdogd@%s''"
definition description :: string where "description = ''Monitor the Harmony blockchain -- `%i`''"
definition dependencies :: "string list" where "dependencies = []"
definition mCmd :: string where "mCmd = ''monitor''"
definition mFlag :: string where "mFlag = ''yaml-config''"

text \<open>
  An operation on the embedded daemon, whose message is printed. The selector goes through the
  embedded pointer.
\<close>

definition on_daemon :: "('d \<Rightarrow> string + string) \<Rightarrow> 'd cobraSrvWrapper \<Rightarrow> (cmd_error + string) result" where
  "on_daemon f cw =
     (case cw_Service cw of
        None \<Rightarrow> Inl NilDereference
      | Some s \<Rightarrow> Inr (case f (sv_Daemon s) of Inl err \<Rightarrow> Inl (DaemonError err) | Inr r \<Rightarrow> Inr r))"

definition install :: "'d daemon_lib \<Rightarrow> 'd cobraSrvWrapper \<Rightarrow> (cmd_error + string) result" where
  "install lib cw = on_daemon (\<lambda>d. dl_Install lib d [mCmd, ''--'' @ mFlag, cw_monitorNodeYAML cw]) cw"

definition remove :: "'d daemon_lib \<Rightarrow> 'd cobraSrvWrapper \<Rightarrow> (cmd_error + string) result" where
  "remove lib cw = on_daemon (dl_Remove lib) cw"

definition stop :: "'d daemon_lib \<Rightarrow> 'd cobraSrvWrapper \<Rightarrow> (cmd_error + string) result" where
  "stop lib cw = on_daemon (dl_Stop lib) cw"

definition status :: "'d daemon_lib \<Rightarrow> 'd cobraSrvWrapper \<Rightarrow> (cmd_error + string) result" where
  "status lib cw = on_daemon (dl_Status lib) cw"

definition start :: "'d daemon_lib \<Rightarrow> 'd cobraSrvWrapper \<Rightarrow> (cmd_error + string) result" where
  "start lib cw = on_daemon (dl_Start lib) cw"

text \<open>
  \<^verbatim>\<open>instr\<close> is a nil pointer when \<^verbatim>\<open>newInstructions\<close> returns neither an error nor an
  instruction.
\<close>

definition preRunInit ::
  "env \<Rightarrow> ((int \<times> committee) list \<Rightarrow> (int \<times> committee) list) \<Rightarrow> 'd daemon_lib \<Rightarrow> 'd cobraSrvWrapper \<Rightarrow>
   (cmd_error + 'd cobraSrvWrapper) result" where
  "preRunInit e ord lib cw =
     (case newInstructions e ord (cw_monitorNodeYAML cw) of
        Inl p \<Rightarrow> Inl p
      | Inr (Inl err) \<Rightarrow> Inr (Inl (ConfigError err))
      | Inr (Inr None) \<Rightarrow> Inl NilDereference
      | Inr (Inr (Some instr)) \<Rightarrow>
          (case dl_New lib (Sprintf nameFMT [AStr (wp_TargetChain (in_watchParams instr))]) description dependencies of
             Inl err \<Rightarrow> Inr (Inl (DaemonError err))
           | Inr dm \<Rightarrow>
               Inr (Inr (cw\<lparr>cw_Service := Some \<lparr>sv_Daemon = dm, sv_monitor = None, sv_instruction = instr\<rparr>\<rparr>))))"

section \<open>monitorNetwork\<close>

datatype sys_signal = Interrupt | SIGTERM

text \<open>What \<^verbatim>\<open>monitorNetwork\<close> does until the signal that ends it.\<close>

datatype devent =
    Listened string
  | Go_startReportingHTTPServer instruction
  | Go_acceptConnection nat
  | GotSignal sys_signal
  | ClosedListener

definition monitorNetwork ::
  "(string \<Rightarrow> string option) \<Rightarrow> sys_signal \<Rightarrow> instruction \<Rightarrow> devent list \<times> cmd_error" where
  "monitorNetwork listen killSignal instrs =
     (let addr = '':'' @ Itoa (wp_Port (in_watchParams instrs) + 1)
      in case listen addr of
           Some err \<Rightarrow> ([], ListenError err)
         | None \<Rightarrow>
             ([Listened addr, Go_startReportingHTTPServer instrs, Go_acceptConnection 100,
               GotSignal killSignal, ClosedListener],
              (if killSignal = Interrupt then SysIntrpt else DaemonKilled)))"

text \<open>
  The loop of \<^verbatim>\<open>acceptConnection\<close> on the results of \<^verbatim>\<open>Accept\<close>, with what the channel of capacity
  \<open>cap\<close> holds. Nothing in the program receives from it: \<open>Some (c, rest)\<close> stands for the loop
  blocked in the send of \<open>c\<close>.
\<close>

fun acceptConnection ::
  "nat \<Rightarrow> 'c list \<Rightarrow> (string + 'c) list \<Rightarrow> 'c list \<times> ('c \<times> (string + 'c) list) option" where
  "acceptConnection cap held [] = (held, None)"
| "acceptConnection cap held (Inl err # rs) = acceptConnection cap held rs"
| "acceptConnection cap held (Inr conn # rs) =
     (if length held < cap then acceptConnection cap (held @ [conn]) rs else (held, Some (conn, rs)))"

definition doMonitor ::
  "(string \<Rightarrow> string option) \<Rightarrow> sys_signal \<Rightarrow> 'd cobraSrvWrapper \<Rightarrow>
   ('d cobraSrvWrapper \<times> devent list \<times> cmd_error) result" where
  "doMonitor listen sig cw =
     (case cw_Service cw of
        None \<Rightarrow> Inl NilDereference
      | Some s \<Rightarrow>
          (let instrs = sv_instruction s
           in Inr (cw\<lparr>cw_Service := Some (s\<lparr>sv_monitor :=
                     Some (new_monitor (wp_TargetChain (in_watchParams instrs)))\<rparr>)\<rparr>,
                   monitorNetwork listen sig instrs)))"

section \<open>Commands\<close>

text \<open>
  The commands that run \<^verbatim>\<open>preRunInit\<close> first. The flag \<^verbatim>\<open>yaml-config\<close> belongs to \<^verbatim>\<open>monitor\<close> and to
  \<^verbatim>\<open>service install\<close>; for the others the variable keeps its zero value.
\<close>

datatype service_command = Install | Start | Remove | Stop | Status

fun service_handler :: "service_command \<Rightarrow> 'd daemon_lib \<Rightarrow> 'd cobraSrvWrapper \<Rightarrow> (cmd_error + string) result" where
  "service_handler Install = install"
| "service_handler Start = start"
| "service_handler Remove = remove"
| "service_handler Stop = stop"
| "service_handler Status = status"

definition after_init ::
  "(cmd_error + 'd cobraSrvWrapper) result \<Rightarrow> ('d cobraSrvWrapper \<Rightarrow> (cmd_error + 'a) result) \<Rightarrow>
   (cmd_error + 'a) result" where
  "after_init r run =
     (case r of Inl p \<Rightarrow> Inl p | Inr (Inl err) \<Rightarrow> Inr (Inl err) | Inr (Inr cw) \<Rightarrow> run cw)"

definition serviceCmd ::
  "env \<Rightarrow> ((int \<times> committee) list \<Rightarrow> (int \<times> committee) list) \<Rightarrow> 'd daemon_lib \<Rightarrow> service_command \<Rightarrow>
   string \<Rightarrow> (cmd_error + string) result" where
  "serviceCmd e ord lib c yaml =
     (let cw = new_wrapper (if c = Install then yaml else [])
      in after_init (preRunInit e ord lib cw) (service_handler c lib))"

definition monitorCmd ::
  "env \<Rightarrow> ((int \<times> committee) list \<Rightarrow> (int \<times> committee) list) \<Rightarrow> 'd daemon_lib \<Rightarrow>
   (string \<Rightarrow> string option) \<Rightarrow> sys_signal \<Rightarrow> string \<Rightarrow> (cmd_error + devent list) result" where
  "monitorCmd e ord lib listen sig yaml =
     after_init (preRunInit e ord lib (new_wrapper yaml))
       (\<lambda>cw. case doMonitor listen sig cw of
          Inl p \<Rightarrow> Inl p
        | Inr (cw, evs, err) \<Rightarrow> Inr (Inl err))"

text \<open>The status \<^verbatim>\<open>main\<close> exits with.\<close>

definition exit_status :: "cmd_error + 'a \<Rightarrow> int" where
  "exit_status r = (case r of Inl err \<Rightarrow> - 1 | Inr x \<Rightarrow> 0)"

definition versionS :: "string \<Rightarrow> string \<Rightarrow> string \<Rightarrow> string \<Rightarrow> string \<Rightarrow> string" where
  "versionS arg0 version commit builtBy builtAt =
     Sprintf ''Harmony (C) 2020. %v, version %v-%v (%v %v)''
       [AStr (path_Base arg0), AStr version, AStr commit, AStr builtBy, AStr builtAt]"

section \<open>generate-sample\<close>

definition sampleParams :: watchParams where
  "sampleParams =
     \<lparr>wp_EventServiceKey = ''YOUR_PAGERDUTY_KEY'', wp_TargetChain = ''mainnet'', wp_RPCPort = 9500,
      wp_Inspect_BlockHeader = 15, wp_Inspect_NodeMetadata = 30, wp_Inspect_CxPending = 300,
      wp_Inspect_CrossLink = 30, wp_WorkerPoolSize = 32, wp_HTTPTimeout = 1, wp_Port = 8080,
      wp_Consensus_Interval = 30, wp_Consensus_Warning = 70, wp_CxPending_Warning = 1000,
      wp_CrossLink_Warning = 600, wp_ShardHeight_Warning = 1000, wp_Connectivity_Warning = 33,
      wp_MachineIPList =
        [''/home/ec2_user/mainnet/shard0.txt'', ''/home/ec2_user/mainnet/shard1.txt'',
         ''/home/ec2_user/mainnet/shard2.txt'', ''/home/ec2_user/mainnet/shard3.txt'']\<rparr>"

definition generateSampleYAML :: "(watchParams \<Rightarrow> string + string) \<Rightarrow> cmd_error + string" where
  "generateSampleYAML yaml_Marshal =
     (case yaml_Marshal sampleParams of
        Inl err \<Rightarrow> Inl (MarshalError err)
      | Inr sampleConfig \<Rightarrow> Inr (sampleConfig @ [CHR 0x0A]))"

section \<open>Lemmas\<close>

lemma after_init_simps [simp]:
  "after_init (Inl p) run = Inl p"
  "after_init (Inr (Inl err)) run = Inr (Inl err)"
  "after_init (Inr (Inr cw)) run = run cw"
  by (simp_all add: after_init_def)

lemma routes_distinct: "distinct (keys (routes params))"
  by (auto simp: routes_def dest: arg_cong [where f = length])

lemma HandleFunc_fold:
  "distinct (keys rs @ keys mux) \<Longrightarrow> [] \<notin> set (keys rs) \<Longrightarrow>
   fold_result HandleFunc rs mux = Inr (rev rs @ mux)"
proof (induction rs arbitrary: mux)
  case (Cons r rs)
  then show ?case by (auto simp: HandleFunc_def)
qed simp

lemma routes_registered: "fold_result HandleFunc (routes params) [] = Inr (rev (routes params))"
proof -
  have "[] \<notin> set (keys (routes params))" by (auto simp: routes_def)
  then show ?thesis using HandleFunc_fold [of "routes params" "[]"] routes_distinct by simp
qed

lemma map_of_rev: "distinct (keys xs) \<Longrightarrow> map_of (rev xs) = map_of xs"
  by (metis distinct_rev map_of_inject_set rev_map set_rev)

text \<open>What the initialisation gives, by what reading the configuration gives.\<close>

lemma preRunInit_ok:
  assumes "newInstructions e ord (cw_monitorNodeYAML cw) = Inr (Inr (Some instr))"
    and "dl_New lib (''harmony-watchdogd@'' @ wp_TargetChain (in_watchParams instr)) description dependencies = Inr d"
  shows "preRunInit e ord lib cw =
    Inr (Inr (cw\<lparr>cw_Service := Some \<lparr>sv_Daemon = d, sv_monitor = None, sv_instruction = instr\<rparr>\<rparr>))"
  using assms by (simp add: preRunInit_def nameFMT_def fmt_verb_def)

lemma serviceCmd_without_flag:
  assumes "env_ReadFile e [] = Inl err" and "c \<noteq> Install"
  shows "serviceCmd e ord lib c yaml = Inr (Inl (ConfigError (ReadError err)))"
  using assms by (simp add: serviceCmd_def new_wrapper_def preRunInit_def newInstructions_def)

text \<open>The connections among the results of \<^verbatim>\<open>Accept\<close>.\<close>

definition conns :: "(string + 'c) list \<Rightarrow> 'c list" where
  "conns rs = concat (map (\<lambda>r. case r of Inl err \<Rightarrow> [] | Inr c \<Rightarrow> [c]) rs)"

lemma accept_from:
  "length held \<le> cap \<Longrightarrow>
   fst (acceptConnection cap held rs) = take cap (held @ conns rs) \<and>
   (snd (acceptConnection cap held rs) = None \<longleftrightarrow> length (held @ conns rs) \<le> cap)"
  by (induction cap held rs rule: acceptConnection.induct) (auto simp: conns_def)

text \<open>
  The listener of \<^verbatim>\<open>monitorNetwork\<close> keeps the first hundred connections open without ever
  answering, and stops accepting at the next one.
\<close>

lemma accept_backlog:
  "fst (acceptConnection 100 [] rs) = take 100 (conns rs)"
  "snd (acceptConnection 100 [] rs) = None \<longleftrightarrow> length (conns rs) \<le> 100"
  using accept_from [of "[]" 100 rs] by simp_all

text \<open>Reading machine lists whose names end in the digits of their shards.\<close>

lemma read_one:
  assumes "env_Open e (stem @ [c] @ ''.txt'') = Some f" and "scan_lines f = Inr ls"
    and "c \<noteq> CHR ''/''" and "Atoi [c] = Some k"
  shows "read_committees e port ((stem @ [c] @ ''.txt'') # files) byShard =
    read_committees e port files (AList.update k
      \<lparr>com_file = stem @ [c] @ ''.txt'', com_members = map (\<lambda>l. l @ '':'' @ Itoa port) ls\<rparr> byShard)"
  using assms shard_of_file_last [OF assms(3), of stem] by simp

lemma digit_Atoi:
  "Atoi ''0'' = Some 0" "Atoi ''1'' = Some 1" "Atoi ''2'' = Some 2" "Atoi ''3'' = Some 3"
  by (simp_all add: Atoi_def is_digit_def digit_val_def in_int64_def)

definition sample_file :: "nat \<Rightarrow> string" where
  "sample_file i = ''/home/ec2_user/mainnet/shard'' @ [''0123'' ! i] @ ''.txt''"

definition sample_lists :: "(nat \<Rightarrow> string list) \<Rightarrow> (int, committee) gomap" where
  "sample_lists ls =
     map (\<lambda>i. (int i, \<lparr>com_file = sample_file i, com_members = map (\<lambda>l. l @ '':9500'') (ls i)\<rparr>)) [0, 1, 2, 3]"

lemma read_sample:
  assumes "\<And>i. i < 4 \<Longrightarrow> \<exists>f. env_Open e (sample_file i) = Some f \<and> scan_lines f = Inr (ls i)"
  shows "read_committees e 9500 (wp_MachineIPList sampleParams) [] = Inr (Inr (Some (sample_lists ls)))"
proof -
  let ?s = "''/home/ec2_user/mainnet/shard''"
  obtain f0 f1 f2 f3 where f:
    "env_Open e (?s @ [CHR ''0''] @ ''.txt'') = Some f0" "scan_lines f0 = Inr (ls 0)"
    "env_Open e (?s @ [CHR ''1''] @ ''.txt'') = Some f1" "scan_lines f1 = Inr (ls 1)"
    "env_Open e (?s @ [CHR ''2''] @ ''.txt'') = Some f2" "scan_lines f2 = Inr (ls 2)"
    "env_Open e (?s @ [CHR ''3''] @ ''.txt'') = Some f3" "scan_lines f3 = Inr (ls 3)"
    using assms [of 0] assms [of 1] assms [of 2] assms [of 3] by (auto simp: sample_file_def)
  have names: "wp_MachineIPList sampleParams =
      [?s @ [CHR ''0''] @ ''.txt'', ?s @ [CHR ''1''] @ ''.txt'', ?s @ [CHR ''2''] @ ''.txt'', ?s @ [CHR ''3''] @ ''.txt'']"
    by (simp add: sampleParams_def)
  have port: "Itoa 9500 = ''9500''" by code_simp
  show ?thesis
    unfolding names
    by (subst read_one [OF f(1,2)], simp, rule digit_Atoi, subst read_one [OF f(3,4)], simp, rule digit_Atoi,
        subst read_one [OF f(5,6)], simp, rule digit_Atoi, subst read_one [OF f(7,8)], simp, rule digit_Atoi)
       (simp add: sample_lists_def sample_file_def port)
qed

section \<open>Properties\<close>




definition sample_lib :: "string daemon_lib" where
  "sample_lib = \<lparr>dl_New = (\<lambda>n d deps. Inr n), dl_Install = (\<lambda>d args. Inr ''installed''),
     dl_Remove = (\<lambda>d. Inr ''removed''), dl_Start = (\<lambda>d. Inr ''started''), dl_Stop = (\<lambda>d. Inr ''stopped''),
     dl_Status = (\<lambda>d. Inr ''running'')\<rparr>"


text \<open>
  (C38) The printed sample is a working configuration: when the YAML package reads back what it
  printed, and the four machine lists it names can be read, are not all empty and name no
  machine twice, then it is accepted with exactly those machines, each list under the number in
  its name.
\<close>

theorem sample_accepted:
  assumes "generateSampleYAML yaml_Marshal = Inr out" and "env_ReadFile e path = Inr out"
    and "env_UnmarshalStrict e out = Inr sampleParams"
    and lists: "\<forall>i < 4. \<not> env_IsNotExist e (sample_file i) \<and>
      (\<exists>f. env_Open e (sample_file i) = Some f \<and> scan_lines f = Inr (ls i))"
    and "distinct (map snd (all_members (sample_lists ls)))" and "\<exists>i < 4. ls i \<noteq> []" and "range_order ord"
  shows "newInstructions e ord path =
    Inr (Inr (Some \<lparr>in_watchParams = sampleParams, in_superCommittee = sample_lists ls\<rparr>))"
proof -
  have files: "wp_MachineIPList sampleParams = map sample_file [0, 1, 2, 3]"
    by (simp add: sampleParams_def sample_file_def)
  have sane: "sanityCheck e sampleParams = None"
    unfolding sanityCheck_None files using lists by (simp add: required_fields_def sampleParams_def)
  have r: "read_committees e (wp_RPCPort sampleParams) (wp_MachineIPList sampleParams) [] = Inr (Inr (Some (sample_lists ls)))"
    using read_sample [of e ls] lists by (simp add: sampleParams_def)
  obtain i where "i < 4" "ls i \<noteq> []" using assms(6) by blast
  then have "i \<in> {0, 1, 2, 3}" by auto
  with \<open>ls i \<noteq> []\<close> have "all_members (sample_lists ls) \<noteq> []" by (auto simp: all_members_def sample_lists_def)
  with assms(5,7) have "fst (check_dups (ord (sample_lists ls))) = []" "snd (check_dups (ord (sample_lists ls))) \<noteq> []"
    by (simp_all add: check_dups_clean check_dups_nodes all_members_range_snd all_members_range_Nil)
  then show ?thesis
    using assms(2,3) sane r by (simp add: newInstructions_def case_prod_beta)
qed

definition sample_files :: env where
  "sample_files =
     \<lparr>env_ReadFile = (\<lambda>p. Inr (''sample'' @ [CHR 0x0A])), env_UnmarshalStrict = (\<lambda>s. Inr sampleParams),
      env_IsNotExist = (\<lambda>p. False),
      env_Open = (\<lambda>p. Some \<lparr>of_content = (if p = sample_file 2 then ''10.0.2.1'' else []), of_error = None\<rparr>)\<rparr>"

theorem sample_accepted_witness:
  "newInstructions sample_files rev ''watch.yaml'' =
   Inr (Inr (Some \<lparr>in_watchParams = sampleParams,
     in_superCommittee = sample_lists (\<lambda>i. if i = 2 then [''10.0.2.1''] else [])\<rparr>))"
proof (rule sample_accepted [where yaml_Marshal = "\<lambda>p. Inr ''sample''" and out = "''sample'' @ [CHR 0x0A]"])
  have "scan_lines \<lparr>of_content = [], of_error = None\<rparr> = Inr []"
    "scan_lines \<lparr>of_content = ''10.0.2.1'', of_error = None\<rparr> = Inr [''10.0.2.1'']"
    by code_simp+
  moreover have "sample_file i = sample_file 2 \<longleftrightarrow> i = 2" if "i < 4" for i :: nat
  proof -
    have "i \<in> {0, 1, 2, 3}" using that by auto
    then show ?thesis by (auto simp: sample_file_def)
  qed
  ultimately show "\<forall>i < 4. \<not> env_IsNotExist sample_files (sample_file i) \<and>
      (\<exists>f. env_Open sample_files (sample_file i) = Some f \<and>
         scan_lines f = Inr (if i = 2 then [''10.0.2.1''] else []))"
    by (simp add: sample_files_def)
  show "distinct (map snd (all_members (sample_lists (\<lambda>i. if i = 2 then [''10.0.2.1''] else []))))"
    by (simp add: all_members_def sample_lists_def)
  show "\<exists>i < (4::nat). (if i = 2 then [''10.0.2.1''] else []) \<noteq> []" by (intro exI [of _ 2]) simp
qed (simp_all add: sample_files_def generateSampleYAML_def range_order_rev)

end
