(* ===== verification/Page.thy ===== *)
theory Page
  imports Report
begin

text \<open>
  What the report page shows: the values that executing the template of \<^verbatim>\<open>html-generators.go\<close>
  on the data of \<^verbatim>\<open>renderReport\<close> writes, part by part, and when the execution stops early.
\<close>

section \<open>Executing parts\<close>

lemma seq_val [simp]: "seq ([v], True) r = (v # fst r, snd r)"
  by (cases r) simp

lemma seq_vals: "seq (vs, True) r = (vs @ fst r, snd r)"
  by (cases r) simp

lemma seq_stop [simp]: "seq (vs, False) r = (vs, False)"
  by simp

lemma shown_iterate_Nil [simp]: "shown (iterate f []) = ([], True)"
  by (simp add: shown_def)

lemma shown_iterate_Cons: "shown (iterate f (x # xs)) = seq (shown (f x)) (shown (iterate f xs))"
  by (auto simp: shown_def split: prod.splits bool.splits)

lemma shown_iterate_ok:
  "(\<And>x. x \<in> set xs \<Longrightarrow> shown (f x) = (g x, True)) \<Longrightarrow> shown (iterate f xs) = (concat (map g xs), True)"
  by (induction xs) (simp_all add: shown_iterate_Cons del: iterate.simps)

lemma shown_iterate_stop:
  assumes "\<And>x. x \<in> set xs \<Longrightarrow> shown (f x) = (g x, True)" and "shown (f y) = (vs, False)"
  shows "shown (iterate f (xs @ y # ys)) = (concat (map g xs) @ vs, False)"
  using assms by (induction xs) (simp_all add: shown_iterate_Cons seq_vals del: iterate.simps)

lemma shown_iterate_map: "iterate f (map h xs) = iterate (f \<circ> h) xs"
  by (induction xs) simp_all

lemma shown_execs_append:
  "list_all (\<lambda>n. \<not> is_let n) ns \<Longrightarrow>
   shown (execs F (ns @ ms) dot vs) = seq (shown (execs F ns dot vs)) (shown (execs F ms dot vs))"
proof (induction ns)
  case (Cons n ns)
  have "seq a (seq b c) = seq (seq a b) c" for a b c
    by (cases a; cases "snd a"; cases b; cases "snd b"; cases c) auto
  with Cons show ?case by (simp add: shown_execs_Cons del: exec.simps execs.simps)
qed (simp del: execs.simps)

section \<open>Values\<close>

lemma map_of_gv: "map_of (map (\<lambda>(k, v). (k, f v)) m) k = map_option f (map_of m k)"
  by (induction m) auto

lemma index_gv [simp]: "t_index [GMap (map (\<lambda>(k, v). (k, gv_of v)) e), GStr k] = Some (gv_of (iget e k))"
  by (simp add: map_of_gv iget_def split: option.splits)

lemma insort_gv:
  "insort_key fst (k, f v) (map (\<lambda>(k, v). (k, f v)) xs) = map (\<lambda>(k, v). (k, f v)) (insort_key fst (k, v) xs)"
  by (induction xs) auto

lemma sort_key_gv: "sort_key fst (map (\<lambda>(k, v). (k, f v)) m) = map (\<lambda>(k, v). (k, f v)) (sort_key fst m)"
  by (induction m) (auto simp: insort_gv)

definition entries :: "page \<Rightarrow> string \<Rightarrow> (string \<times> ival) list" where
  "entries pg key = sort_key fst (sget (pg_Summary pg) key)"

lemma page_fields [simp]:
  "field_of (gv_page pg) ''Summary'' = Some (gv_summary (pg_Summary pg))"
  "field_of (gv_page pg) ''NoReply'' = Some (GList (map gv_noReply (pg_NoReply pg)))"
  "field_of (gv_page pg) ''DownMachineCount'' = Some (GInt (pg_DownMachineCount pg))"
  "field_of (gv_page pg) ''LeftTitle'' = Some (GList (map GStr (pg_LeftTitle pg)))"
  "field_of (gv_page pg) ''RightTitle'' = Some (GList (map GStr (pg_RightTitle pg)))"
  "field_of (gv_page pg) ''SuperCommittee'' = Some (GStruct
         [(''PreviousCommittee'', gv_QuorumCommittee (sc_PreviousCommittee (pg_SuperCommittee pg))),
          (''CurrentCommittee'', gv_QuorumCommittee (sc_CurrentCommittee (pg_SuperCommittee pg)))])"
  by (simp_all add: gv_page_def)

lemma index_summary:
  "t_index [gv_summary sm, GStr key] =
     Some (case map_of sm key of None \<Rightarrow> GNil | Some m \<Rightarrow> GMap (map (\<lambda>(k, v). (k, gv_of v)) m))"
  by (simp add: gv_summary_def map_of_gv split: option.splits)

lemma call_builtin [simp]:
  "call_fun F ''index'' = t_index" "call_fun F ''len'' = t_len" "call_fun F ''ne'' = t_ne"
  by (simp_all add: call_fun_def fun_eq_iff)

text \<open>A part of the page that goes over the entries of a map of the summary, in the order of their keys.\<close>

lemma exec_table:
  "shown (exec F (NWith (ECall ''index'' [EField [''Summary''], EStr key]) [NRange [''$key'', ''$value''] EDot body])
      (gv_page pg) vs) =
   shown (iterate (\<lambda>kv. execs F body (gv_of (snd kv)) ((''$value'', gv_of (snd kv)) # (''$key'', GStr (fst kv)) # vs))
      (entries pg key))"
proof (cases "sget (pg_Summary pg) key")
  case Nil
  then show ?thesis
    by (simp add: shown_exec index_summary entries_def sget_def del: exec.simps execs.simps iterate.simps
        split: option.splits)
next
  case (Cons x xs)
  then have m: "map_of (pg_Summary pg) key = Some (sget (pg_Summary pg) key)" and ne: "sget (pg_Summary pg) key \<noteq> []"
    by (simp_all add: sget_def split: option.splits)
  then show ?thesis
    by (simp add: shown_exec index_summary entries_def sort_key_gv shown_iterate_map o_def case_prod_beta
        del: exec.simps execs.simps iterate.simps t_index.simps)
qed

lemmas run = shown_execs_Cons shown_execs_let shown_exec

declare exec.simps [simp del] execs.simps [simp del] iterate.simps [simp del]

text \<open>A range without variables over a slice.\<close>

lemma exec_slice:
  assumes "eval_expr F dot vs e = Some (GList xs)"
  shows "shown (exec F (NRange [] e body) dot vs) = shown (iterate (\<lambda>x. execs F body x vs) xs)"
proof -
  have "iterate (\<lambda>kx. execs F body (snd kx) vs) (zip (map (GInt \<circ> int) [0..<length xs]) xs) =
      iterate (\<lambda>x. execs F body x vs) (map snd (zip (map (GInt \<circ> int) [0..<length xs]) xs))"
    by (simp only: shown_iterate_map o_def)
  then show ?thesis using assms by (simp add: shown_exec)
qed

section \<open>Entries of the summary\<close>

definition entry_map :: "ival \<Rightarrow> (string \<times> ival) list" where
  "entry_map v = (case v of VAny e \<Rightarrow> e | VMap e \<Rightarrow> e | _ \<Rightarrow> [])"

text \<open>A value of an entry, and its records.\<close>

definition item :: "ival \<Rightarrow> string \<Rightarrow> gv" where
  "item v k = gv_of (iget (entry_map v) k)"

definition header_list :: "ival \<Rightarrow> BlockHeader list" where
  "header_list v = (case iget (entry_map v) ''records'' of
     VSlice rs \<Rightarrow> concat (map (\<lambda>r. case r of VHeader h \<Rightarrow> [h] | _ \<Rightarrow> []) rs) | _ \<Rightarrow> [])"

definition node_list :: "ival \<Rightarrow> NodeMetadata list" where
  "node_list v = (case iget (entry_map v) ''records'' of
     VSlice rs \<Rightarrow> concat (map (\<lambda>r. case r of VMeta d \<Rightarrow> [d] | _ \<Rightarrow> []) rs) | _ \<Rightarrow> [])"

text \<open>The dynamic types of the entries.\<close>

definition header_entry_ok :: "ival \<Rightarrow> bool" where
  "header_entry_ok v \<longleftrightarrow> (\<exists>e. v = VAny e \<and> iget e ''records'' = VSlice (map VHeader (header_list v)))"

definition node_entry_ok :: "ival \<Rightarrow> bool" where
  "node_entry_ok v \<longleftrightarrow> (\<exists>e. v = VMap e \<and> iget e ''records'' = VSlice (map VMeta (node_list v)))"

definition chain_entry_ok :: "ival \<Rightarrow> bool" where
  "chain_entry_ok v \<longleftrightarrow> (\<exists>e. v = VAny e)"

lemma index_item:
  "header_entry_ok v \<or> node_entry_ok v \<or> chain_entry_ok v \<Longrightarrow> t_index [gv_of v, GStr k] = Some (item v k)"
  by (auto simp: header_entry_ok_def node_entry_ok_def chain_entry_ok_def item_def entry_map_def simp del: t_index.simps)

lemma header_records_item: "header_entry_ok v \<Longrightarrow> item v ''records'' = GList (map gv_BlockHeader (header_list v))"
  by (auto simp: header_entry_ok_def item_def entry_map_def)

lemma node_records_item: "node_entry_ok v \<Longrightarrow> item v ''records'' = GList (map gv_NodeMetadata (node_list v))"
  by (auto simp: node_entry_ok_def item_def entry_map_def)

lemmas entry_items = index_item header_records_item node_records_item

section \<open>Style and titles\<close>

definition style_values :: "page \<Rightarrow> gv list" where
  "style_values pg = concat (map (\<lambda>kv. replicate 8 (GStr (fst kv))) (entries pg headerSumry))"

lemma exec_style: "shown (execs F style_nodes (gv_page pg) vs) = (style_values pg, True)"
proof -
  have "shown (execs F style_body (gv_of (snd kv)) ((''$value'', gv_of (snd kv)) # (''$key'', GStr (fst kv)) # vs)) =
      (replicate 8 (GStr (fst kv)), True)" for kv :: "string \<times> ival"
    by (simp add: run numeral_nat style_body_def)
  then show ?thesis
    unfolding style_values_def style_nodes_def
    by (simp add: exec_table headerSumry_def [symmetric] shown_iterate_ok)
qed

lemma exec_titles:
  assumes "field_of (gv_page pg) f = Some (GList (map GStr ts))"
  shows "shown (exec F (NRange [] (EField [f]) [NOut EDot]) (gv_page pg) vs) = (map GStr ts, True)"
proof -
  have "shown (iterate (\<lambda>x. execs F [NOut EDot] x vs) (map GStr ts)) = (concat (map (\<lambda>x. [x]) (map GStr ts)), True)"
    by (intro shown_iterate_ok) (simp add: run)
  moreover have "concat (map (\<lambda>x. [x]) xs) = xs" for xs :: "gv list" by (induction xs) simp_all
  ultimately show ?thesis using assms by (simp only: exec_slice eval_expr.simps fields_of.simps option.case)
qed

section \<open>Boxes\<close>

definition committee_link :: "string \<Rightarrow> QuorumCommittee \<Rightarrow> string \<Rightarrow> gv list" where
  "committee_link n q k = (if qc_Deciders q = [] then [] else [GStr k, GStr n])"

definition chain_items :: "string \<times> ival \<Rightarrow> gv list" where
  "chain_items kv = [GStr (fst kv), GStr (fst kv)] @
     map (item (snd kv)) [''consensus-status'', ''chain-id'', ''cross-link-epoch'', ''cross-tx-epoch'', ''eip155-epoch'',
       ''s3-epoch'', ''pre-staking-epoch'', ''staking-epoch'', ''blocks-per-epoch'', ''dns-zone'']"

definition chain_box :: "monitor \<Rightarrow> page \<Rightarrow> string \<times> ival \<Rightarrow> gv list" where
  "chain_box m pg kv = chain_items kv @
     [item (iget (sget (pg_Summary pg) headerSumry) (fst kv)) ''last-crosslink''] @
     committee_link (currentCommitteeCount m (fst kv)) (sc_CurrentCommittee (pg_SuperCommittee pg)) (fst kv) @
     committee_link (previousCommitteeCount m (fst kv)) (sc_PreviousCommittee (pg_SuperCommittee pg)) (fst kv)"

definition header_box :: "string \<times> ival \<Rightarrow> gv list" where
  "header_box kv = [GStr (fst kv), GStr (fst kv), GInt (int (length (header_list (snd kv))))] @
     map (item (snd kv)) [''block-max'', ''epoch-max'', ''shard-leader'']"

definition version_box :: "string \<times> ival \<Rightarrow> gv list" where
  "version_box kv = [GStr (fst kv), GStr (fst kv), GInt (int (length (node_list (snd kv))))] @
     (if getCommitID (fst kv) = [] then [] else [GStr (getCommitID (fst kv))])"

abbreviation entry_vars :: "string \<times> ival \<Rightarrow> (string \<times> gv) list \<Rightarrow> (string \<times> gv) list" where
  "entry_vars kv vs \<equiv> (''$value'', gv_of (snd kv)) # (''$key'', GStr (fst kv)) # vs"

lemma exec_header_box:
  assumes "header_entry_ok (snd kv)"
  shows "shown (execs F header_box_body (gv_of (snd kv)) (entry_vars kv vs)) = (header_box kv, True)"
  using assms by (simp add: header_box_body_def run header_box_def entry_items del: t_index.simps)

lemma strings_of_map: "strings_of (map GStr ss) = Some ss"
  by (induction ss) simp_all

lemma getShardID_last: "s \<noteq> [] \<Longrightarrow> getShardID s = Inr [last s]"
  by (cases s rule: rev_cases) (simp_all add: getShardID_def slice_def)

lemma call_funs:
  "call_fun (FuncMap m) ''getCommitID'' [GStr s] = Some (GStr (getCommitID s))"
  "call_fun (FuncMap m) ''currentCommitteeCount'' [GStr s] = Some (GStr (currentCommitteeCount m s))"
  "call_fun (FuncMap m) ''previousCommitteeCount'' [GStr s] = Some (GStr (previousCommitteeCount m s))"
  "call_fun (FuncMap m) ''calcConnectivity'' [GInt i, GInt j] = Some (GStr (calcConnectivity i j))"
  "call_fun (FuncMap m) ''convertUnixTime'' [GInt i] = Some (GStr (convertUnixTime i))"
  "s \<noteq> [] \<Longrightarrow> call_fun (FuncMap m) ''getShardID'' [GStr s] = Some (GStr [last s])"
  "call_fun (FuncMap m) ''getShortBLSKey'' [GList (map GStr ks)] = Some (GStr (getShortBLSKey ks))"
  by (simp_all add: call_fun_def FuncMap_def string_fun_def getShardID_last strings_of_map)

lemma exec_version_box:
  assumes "node_entry_ok (snd kv)"
  shows "shown (execs (FuncMap m) version_box_body (gv_of (snd kv)) (entry_vars kv vs)) = (version_box kv, True)"
  using assms by (simp add: version_box_body_def run version_box_def entry_items call_funs del: t_index.simps)

text \<open>The box of a shard stops at the last cross link when there is no header of that shard.\<close>

lemma index_root:
  assumes "map_of vs ''$root'' = Some (gv_page pg)"
  shows "eval_expr F dot (entry_vars kv vs)
     (ECall ''index'' [ECall ''index'' [ECall ''index'' [EVar ''$root'' [''Summary''], EStr ''block-header''], EVar ''$key'' []], EStr ''last-crosslink'']) =
   (case map_of (sget (pg_Summary pg) headerSumry) (fst kv) of
      None \<Rightarrow> None
    | Some v \<Rightarrow> t_index [gv_of v, GStr ''last-crosslink''])"
proof (cases "map_of (pg_Summary pg) headerSumry")
  case None
  then show ?thesis
    using assms by (simp add: index_summary headerSumry_def [symmetric] sget_def)
next
  case (Some h)
  then show ?thesis
    using assms by (simp add: index_summary headerSumry_def [symmetric] sget_def map_of_gv split: option.splits)
qed

lemma eval_item:
  "chain_entry_ok (snd kv) \<Longrightarrow>
   eval_expr F dot (entry_vars kv vs) (ECall ''index'' [EVar ''$value'' [], EStr k]) = Some (item (snd kv) k)"
  by (simp add: entry_items del: t_index.simps)

lemma exec_chain_box:
  assumes "chain_entry_ok (snd kv)" and "map_of vs ''$root'' = Some (gv_page pg)"
  shows "map_of (sget (pg_Summary pg) headerSumry) (fst kv) = Some v \<Longrightarrow> header_entry_ok v \<Longrightarrow>
      shown (execs (FuncMap m) chain_box_body (gv_of (snd kv)) (entry_vars kv vs)) = (chain_box m pg kv, True)"
    and "map_of (sget (pg_Summary pg) headerSumry) (fst kv) = None \<Longrightarrow>
      shown (execs (FuncMap m) chain_box_body (gv_of (snd kv)) (entry_vars kv vs)) = (chain_items kv, False)"
proof -
  note root = index_root [OF assms(2)]
  have d: "shown (exec (FuncMap m) (NIf (EVar ''$root'' [''SuperCommittee'', ''CurrentCommittee'', ''Deciders''])
       [NLet ''$externCount'' (ECall ''currentCommitteeCount'' [EVar ''$key'' []]),
        NOut (EVar ''$key'' []), NOut (EVar ''$externCount'' [])]) dot (entry_vars kv vs)) =
     (committee_link (currentCommitteeCount m (fst kv)) (sc_CurrentCommittee (pg_SuperCommittee pg)) (fst kv), True)"
    "shown (exec (FuncMap m) (NIf (EVar ''$root'' [''SuperCommittee'', ''PreviousCommittee'', ''Deciders''])
       [NLet ''$externCount'' (ECall ''previousCommitteeCount'' [EVar ''$key'' []]),
        NOut (EVar ''$key'' []), NOut (EVar ''$externCount'' [])]) dot (entry_vars kv vs)) =
     (committee_link (previousCommitteeCount m (fst kv)) (sc_PreviousCommittee (pg_SuperCommittee pg)) (fst kv), True)" for dot
    using assms(2) by (simp_all add: run gv_QuorumCommittee_def committee_link_def call_funs)
  show "map_of (sget (pg_Summary pg) headerSumry) (fst kv) = Some v \<Longrightarrow> header_entry_ok v \<Longrightarrow>
      shown (execs (FuncMap m) chain_box_body (gv_of (snd kv)) (entry_vars kv vs)) = (chain_box m pg kv, True)"
    using assms(1) by (simp add: chain_box_body_def shown_execs_Cons shown_exec(1) d root eval_item entry_items chain_box_def
        chain_items_def iget_def seq_vals del: t_index.simps eval_expr.simps(6))
  show "map_of (sget (pg_Summary pg) headerSumry) (fst kv) = None \<Longrightarrow>
      shown (execs (FuncMap m) chain_box_body (gv_of (snd kv)) (entry_vars kv vs)) = (chain_items kv, False)"
    using assms(1) by (simp add: chain_box_body_def shown_execs_Cons shown_exec(1) d root eval_item
        chain_items_def del: t_index.simps eval_expr.simps(6))
qed

section \<open>Tables\<close>

definition down_values :: "page \<Rightarrow> gv list" where
  "down_values pg =
     (if pg_NoReply pg = [] then []
      else GInt (pg_DownMachineCount pg) # concat (map (\<lambda>n.
        [GStr (nr_IP n), GInt (nr_ShardID n), GStr (nr_RPCPayload n), GStr (nr_FailureReason n)]) (pg_NoReply pg)))"

lemma exec_down: "shown (execs F down_nodes (gv_page pg) vs) = (down_values pg, True)"
proof -
  let ?row = "[NOut (EField [''IP'']), NOut (EField [''ShardID'']), NOut (EField [''RPCPayload'']), NOut (EField [''FailureReason''])]"
  have r: "shown (iterate (\<lambda>x. execs F ?row x vs) (map gv_noReply ns)) =
      (concat (map (\<lambda>n. [GStr (nr_IP n), GInt (nr_ShardID n), GStr (nr_RPCPayload n), GStr (nr_FailureReason n)]) ns), True)" for ns
    unfolding shown_iterate_map by (intro shown_iterate_ok) (simp add: run gv_noReply_def)
  show ?thesis
    by (simp add: down_nodes_def shown_exec(4) shown_execs_Cons shown_exec(1) exec_slice r down_values_def)
qed

definition header_cells :: "BlockHeader \<Rightarrow> gv list" where
  "header_cells h =
     (let p = hd_Payload h
      in [GStr (hd_IP h), GStr (bh_BlockHash p), GInt (uint (bh_Epoch p)), GInt (uint (bh_BlockNumber p)),
          GStr (bh_Leader p), GInt (uint (bh_ViewID p)), GStr (convertUnixTime (bh_UnixTime p)),
          GStr (bh_LastCommitSig p), GStr (bh_LastCommitBitmap p)])"

definition header_table :: "string \<times> ival \<Rightarrow> gv list" where
  "header_table kv =
     replicate 3 (GStr (fst kv)) @ [GInt (int (length (header_list (snd kv))))] @
     map (item (snd kv)) [''block-max'', ''block-min'', ''epoch-max'', ''epoch-min'', ''uniq-blocks'', ''uniq-epochs''] @
     concat (map header_cells (header_list (snd kv)))"

text \<open>A table of records: nothing is written when there are none.\<close>

lemma exec_records:
  assumes "eval_expr F dot vs e = Some (GList (map f xs))"
    and "\<And>x. shown (execs F body (f x) vs) = (g x, True)"
  shows "shown (exec F (NWith e [NRange [] EDot body]) dot vs) = (concat (map g xs), True)"
proof -
  have "shown (iterate (\<lambda>x. execs F body x vs) (map f xs)) = (concat (map g xs), True)"
    unfolding shown_iterate_map using assms(2) by (intro shown_iterate_ok) simp
  then show ?thesis using assms(1) by (simp add: shown_exec(3) exec_slice)
qed

lemma exec_header_table:
  assumes "header_entry_ok (snd kv)"
  shows "shown (execs (FuncMap m) header_body (gv_of (snd kv)) (entry_vars kv vs)) = (header_table kv, True)"
proof -
  let ?row = "[NOut (EField [''IP'']), NOut (EField [''Payload'', ''BlockHash'']), NOut (EField [''Payload'', ''Epoch'']),
     NOut (EField [''Payload'', ''BlockNumber'']), NOut (EField [''Payload'', ''Leader'']), NOut (EField [''Payload'', ''ViewID'']),
     NOut (ECall ''convertUnixTime'' [EField [''Payload'', ''UnixTime'']]), NOut (EField [''Payload'', ''LastCommitSig'']),
     NOut (EField [''Payload'', ''LastCommitBitmap''])]"
  have "shown (execs (FuncMap m) ?row (gv_BlockHeader h) vs) = (header_cells h, True)" for h vs
    by (simp add: run gv_BlockHeader_def Let_def header_cells_def call_funs)
  then have "shown (exec (FuncMap m) (NWith (ECall ''index'' [EVar ''$value'' [], EStr ''records'']) [NRange [] EDot ?row])
      (gv_of (snd kv)) (entry_vars kv vs)) = (concat (map header_cells (header_list (snd kv))), True)"
    using assms by (intro exec_records [where f = gv_BlockHeader]) (simp_all add: entry_items del: t_index.simps)
  with assms show ?thesis
    by (simp add: header_body_def shown_execs_Cons shown_exec(1) header_table_def entry_items numeral_nat del: t_index.simps)
qed

definition node_cells :: "NodeMetadata \<Rightarrow> gv list" where
  "node_cells d =
     (let p = md_Payload d; c = nm_P2PConnectivity p
      in [GStr (md_IP d), GStr (getShortBLSKey (nm_BLSPublicKey p)), GStr (nm_Version p), GStr (nm_NetworkType p),
          GInt (cc_ChainID (nm_ChainConfig p)), GInt (uint (nm_ShardID p)), GStr (nm_NodeRole p),
          GBool (nm_ArchivalNode p), GInt (p2p_Connected c), GInt (p2p_TotalKnown c),
          GStr (calcConnectivity (p2p_Connected c) (p2p_TotalKnown c)), GStr (convertUnixTime (nm_NodeStartTime p))])"

definition node_table :: "string \<times> ival \<Rightarrow> gv list" where
  "node_table kv =
     replicate 3 (GStr (fst kv)) @ [GInt (int (length (node_list (snd kv))))] @ concat (map node_cells (node_list (snd kv)))"

lemma exec_node_table:
  assumes "node_entry_ok (snd kv)"
  shows "shown (execs (FuncMap m) node_body (gv_of (snd kv)) (entry_vars kv vs)) = (node_table kv, True)"
proof -
  let ?row = "[NIf (EField [''Payload'', ''IsLeader'']) [],
     NOut (EField [''IP'']), NOut (ECall ''getShortBLSKey'' [EField [''Payload'', ''BLSPublicKey'']]),
     NOut (EField [''Payload'', ''Version'']), NOut (EField [''Payload'', ''NetworkType'']),
     NOut (EField [''Payload'', ''ChainConfig'', ''ChainID'']), NOut (EField [''Payload'', ''ShardID'']),
     NOut (EField [''Payload'', ''NodeRole'']), NOut (EField [''Payload'', ''ArchivalNode'']),
     NOut (EField [''Payload'', ''P2PConnectivity'', ''Connected'']), NOut (EField [''Payload'', ''P2PConnectivity'', ''TotalKnown'']),
     NOut (ECall ''calcConnectivity'' [EField [''Payload'', ''P2PConnectivity'', ''Connected''], EField [''Payload'', ''P2PConnectivity'', ''TotalKnown'']]),
     NOut (ECall ''convertUnixTime'' [EField [''Payload'', ''NodeStartTime'']])]"
  have "shown (execs (FuncMap m) ?row (gv_NodeMetadata d) vs) = (node_cells d, True)" for d vs
    by (simp add: run gv_NodeMetadata_def Let_def node_cells_def call_funs)
  then have "shown (exec (FuncMap m) (NWith (ECall ''index'' [EVar ''$value'' [], EStr ''records'']) [NRange [] EDot ?row])
      (gv_of (snd kv)) (entry_vars kv vs)) = (concat (map node_cells (node_list (snd kv))), True)"
    using assms by (intro exec_records [where f = gv_NodeMetadata]) (simp_all add: entry_items del: t_index.simps)
  with assms show ?thesis
    by (simp add: node_body_def shown_execs_Cons shown_exec(1) node_table_def entry_items numeral_nat del: t_index.simps)
qed

section \<open>Committees\<close>

definition member_cells :: "gv \<Rightarrow> CommitteeMember \<Rightarrow> gv list" where
  "member_cells shard c =
     [shard, GBool (cm_IsHarmonyNode c), GStr (cm_Address c), GStr (cm_BLSKey c), GBool (cm_IsHarmonyNode c),
      GStr (cm_VotingPower c), GStr (cm_RawPercent c), GStr (cm_EffectiveStake c)]"

definition committee_table :: "string \<times> CommitteeInfo \<Rightarrow> gv list" where
  "committee_table kc =
     (let shard = GStr [last (fst kc)]; c = snd kc
      in replicate 4 shard @
         [GStr (ci_PolicyType c), GInt (ci_MemberCount c), GStr (ci_HarmonyPower c), GStr (ci_StakedPower c), GStr (ci_TotalRawStake c)] @
         concat (map (member_cells shard) (ci_Committee c)))"

definition committee_values :: "QuorumCommittee \<Rightarrow> gv list" where
  "committee_values q = concat (map committee_table (sort_key fst (qc_Deciders q)))"

lemma exec_committee:
  assumes "k \<noteq> []"
  shows "shown (execs (FuncMap m) current_body (gv_CommitteeInfo c) ((''$value'', gv_CommitteeInfo c) # (''$key'', GStr k) # vs)) =
    (committee_table (k, c), True)"
proof -
  let ?row = "[NWith EDot [NOut (EVar ''$shard'' []), NOut (EField [''IsHarmonyNode'']), NOut (EField [''Address'']),
      NOut (EField [''BLSKey'']), NOut (EField [''IsHarmonyNode'']), NOut (EField [''VotingPower'']),
      NOut (EField [''RawPercent'']), NOut (EField [''EffectiveStake''])]]"
  have "shown (iterate (\<lambda>x. execs F ?row x ((''$shard'', s) # vs)) (map gv_CommitteeMember cs)) =
      (concat (map (member_cells s) cs), True)" for F s vs cs
    unfolding shown_iterate_map by (intro shown_iterate_ok) (simp add: run gv_CommitteeMember_def member_cells_def)
  then show ?thesis
    using assms by (simp add: current_body_def run exec_slice call_funs gv_CommitteeInfo_def committee_table_def numeral_nat
        Let_def del: shown_exec(2))
qed

lemma previous_body: "previous_body = current_body"
  by (simp add: previous_body_def current_body_def)

lemma exec_deciders:
  assumes "eval_expr (FuncMap m) dot vs e = Some (GMap (map (\<lambda>(k, c). (k, gv_CommitteeInfo c)) (qc_Deciders q)))"
    and "[] \<notin> fst ` set (qc_Deciders q)"
  shows "shown (exec (FuncMap m) (NRange [''$key'', ''$value''] e current_body) dot vs) = (committee_values q, True)"
proof -
  have "shown (iterate (\<lambda>kc. execs (FuncMap m) current_body (gv_CommitteeInfo (snd kc))
        ((''$value'', gv_CommitteeInfo (snd kc)) # (''$key'', GStr (fst kc)) # vs)) (sort_key fst (qc_Deciders q))) =
      (committee_values q, True)"
    unfolding committee_values_def using assms(2)
    by (intro shown_iterate_ok) (metis (no_types, lifting) exec_committee imageI prod.collapse set_sort)
  then show ?thesis
    using assms(1) by (simp add: shown_exec(2) sort_key_gv shown_iterate_map o_def case_prod_beta)
qed

lemma exec_committees:
  assumes "[] \<notin> fst ` set (qc_Deciders (sc_CurrentCommittee (pg_SuperCommittee pg)))"
    and "[] \<notin> fst ` set (qc_Deciders (sc_PreviousCommittee (pg_SuperCommittee pg)))"
  shows "shown (execs (FuncMap m) current_nodes (gv_page pg) vs) = (committee_values (sc_CurrentCommittee (pg_SuperCommittee pg)), True)"
    and "shown (execs (FuncMap m) previous_nodes (gv_page pg) vs) = (committee_values (sc_PreviousCommittee (pg_SuperCommittee pg)), True)"
  by (simp_all add: current_nodes_def previous_nodes_def previous_body shown_exec(3) exec_deciders [OF _ assms(1)]
      exec_deciders [OF _ assms(2)] gv_QuorumCommittee_def)

section \<open>The whole page\<close>

definition page_ok :: "page \<Rightarrow> bool" where
  "page_ok pg \<longleftrightarrow>
     (\<forall>kv \<in> set (sget (pg_Summary pg) headerSumry). header_entry_ok (snd kv)) \<and>
     (\<forall>kv \<in> set (sget (pg_Summary pg) metaSumry). node_entry_ok (snd kv)) \<and>
     (\<forall>kv \<in> set (sget (pg_Summary pg) chainSumry). chain_entry_ok (snd kv)) \<and>
     [] \<notin> fst ` set (qc_Deciders (sc_CurrentCommittee (pg_SuperCommittee pg))) \<and>
     [] \<notin> fst ` set (qc_Deciders (sc_PreviousCommittee (pg_SuperCommittee pg)))"

definition header_known :: "page \<Rightarrow> string \<times> ival \<Rightarrow> bool" where
  "header_known pg kv \<longleftrightarrow> fst kv \<in> fst ` set (sget (pg_Summary pg) headerSumry)"

definition top_values :: "page \<Rightarrow> gv list" where
  "top_values pg = style_values pg @ map GStr (pg_LeftTitle pg) @ map GStr (pg_RightTitle pg)"

definition page_values :: "monitor \<Rightarrow> page \<Rightarrow> gv list" where
  "page_values m pg =
     top_values pg @
     concat (map (chain_box m pg) (entries pg chainSumry)) @
     concat (map header_box (entries pg headerSumry)) @
     concat (map version_box (entries pg metaSumry)) @
     down_values pg @
     concat (map header_table (entries pg headerSumry)) @
     concat (map node_table (entries pg metaSumry)) @
     committee_values (sc_CurrentCommittee (pg_SuperCommittee pg)) @
     committee_values (sc_PreviousCommittee (pg_SuperCommittee pg))"

lemma set_entries [simp]: "set (entries pg key) = set (sget (pg_Summary pg) key)"
  by (simp add: entries_def)

text \<open>The page up to the boxes of the shards, and after them.\<close>

definition root_vars :: "page \<Rightarrow> (string \<times> gv) list" where
  "root_vars pg = [(''$root'', gv_page pg), (''$'', gv_page pg)]"

definition chain_part :: "monitor \<Rightarrow> page \<Rightarrow> gv list \<times> bool" where
  "chain_part m pg = shown (iterate (\<lambda>kv. execs (FuncMap m) chain_box_body (gv_of (snd kv)) (entry_vars kv (root_vars pg)))
     (entries pg chainSumry))"

lemma exec_after_boxes:
  assumes "page_ok pg"
  shows "shown (execs (FuncMap m) (down_nodes @ header_nodes @ node_nodes @ current_nodes @ previous_nodes) (gv_page pg) vs) =
    (down_values pg @ concat (map header_table (entries pg headerSumry)) @ concat (map node_table (entries pg metaSumry)) @
     committee_values (sc_CurrentCommittee (pg_SuperCommittee pg)) @
     committee_values (sc_PreviousCommittee (pg_SuperCommittee pg)), True)"
proof -
  have lets: "list_all (\<lambda>n. \<not> is_let n) down_nodes" "list_all (\<lambda>n. \<not> is_let n) header_nodes"
    "list_all (\<lambda>n. \<not> is_let n) node_nodes" "list_all (\<lambda>n. \<not> is_let n) current_nodes"
    by (simp_all add: down_nodes_def header_nodes_def node_nodes_def current_nodes_def)
  have h: "shown (execs (FuncMap m) header_nodes (gv_page pg) vs) = (concat (map header_table (entries pg headerSumry)), True)"
    unfolding header_nodes_def headerSumry_def [symmetric] shown_single [OF not_let(4)] exec_table
    using assms by (intro shown_iterate_ok exec_header_table) (simp add: page_ok_def)
  have n: "shown (execs (FuncMap m) node_nodes (gv_page pg) vs) = (concat (map node_table (entries pg metaSumry)), True)"
    unfolding node_nodes_def metaSumry_def [symmetric] shown_single [OF not_let(4)] exec_table
    using assms by (intro shown_iterate_ok exec_node_table) (simp add: page_ok_def)
  show ?thesis
    using assms by (simp add: shown_execs_append lets exec_down h n exec_committees page_ok_def seq_vals)
qed

lemma exec_page:
  assumes "page_ok pg"
  shows "shown (execs (FuncMap m) report_nodes (gv_page pg) [(''$'', gv_page pg)]) =
    seq (top_values pg, True) (seq (chain_part m pg) (seq (concat (map header_box (entries pg headerSumry)), True)
      (seq (concat (map version_box (entries pg metaSumry)), True) (down_values pg @
      concat (map header_table (entries pg headerSumry)) @ concat (map node_table (entries pg metaSumry)) @
     committee_values (sc_CurrentCommittee (pg_SuperCommittee pg)) @
     committee_values (sc_PreviousCommittee (pg_SuperCommittee pg)), True))))"
proof -
  have lets: "list_all (\<lambda>n. \<not> is_let n) style_nodes" by (simp add: style_nodes_def)
  have h: "shown (iterate (\<lambda>kv. execs (FuncMap m) header_box_body (gv_of (snd kv)) (entry_vars kv vs)) (entries pg headerSumry)) =
      (concat (map header_box (entries pg headerSumry)), True)" for vs
    using assms by (intro shown_iterate_ok exec_header_box) (simp add: page_ok_def)
  have v: "shown (iterate (\<lambda>kv. execs (FuncMap m) version_box_body (gv_of (snd kv)) (entry_vars kv vs)) (entries pg metaSumry)) =
      (concat (map version_box (entries pg metaSumry)), True)" for vs
    using assms by (intro shown_iterate_ok exec_version_box) (simp add: page_ok_def)
  note names = headerSumry_def [symmetric] metaSumry_def [symmetric] chainSumry_def [symmetric]
  show ?thesis
    by (simp add: report_nodes_def shown_execs_append lets exec_style box_nodes_def shown_execs_Cons shown_execs_let exec_titles
        exec_table names h v exec_after_boxes [OF assms] chain_part_def root_vars_def top_values_def seq_vals)
qed

lemma page_chain_box:
  assumes "page_ok pg" and "kv \<in> set (sget (pg_Summary pg) chainSumry)"
  shows "header_known pg kv \<Longrightarrow>
      shown (execs (FuncMap m) chain_box_body (gv_of (snd kv)) (entry_vars kv (root_vars pg))) = (chain_box m pg kv, True)"
    and "\<not> header_known pg kv \<Longrightarrow>
      shown (execs (FuncMap m) chain_box_body (gv_of (snd kv)) (entry_vars kv (root_vars pg))) = (chain_items kv, False)"
proof -
  have c: "chain_entry_ok (snd kv)" and r: "map_of (root_vars pg) ''$root'' = Some (gv_page pg)"
    using assms by (simp_all add: page_ok_def root_vars_def)
  have h: "header_entry_ok v" if "map_of (sget (pg_Summary pg) headerSumry) k = Some v" for k v
    using bspec [OF _ map_of_SomeD [OF that], of "\<lambda>kv. header_entry_ok (snd kv)"] assms(1) by (simp add: page_ok_def)
  show "header_known pg kv \<Longrightarrow>
      shown (execs (FuncMap m) chain_box_body (gv_of (snd kv)) (entry_vars kv (root_vars pg))) = (chain_box m pg kv, True)"
    using exec_chain_box(1) [OF c r _ h] unfolding header_known_def
    by (metis domIff dom_map_of_conv_image_fst not_Some_eq)
  show "\<not> header_known pg kv \<Longrightarrow>
      shown (execs (FuncMap m) chain_box_body (gv_of (snd kv)) (entry_vars kv (root_vars pg))) = (chain_items kv, False)"
    using exec_chain_box(2) [OF c r] unfolding header_known_def by (simp add: map_of_eq_None_iff)
qed

lemma exec_page_ok:
  assumes "page_ok pg" and "\<forall>kv \<in> set (sget (pg_Summary pg) chainSumry). header_known pg kv"
  shows "shown (execs (FuncMap m) report_nodes (gv_page pg) [(''$'', gv_page pg)]) = (page_values m pg, True)"
proof -
  have "chain_part m pg = (concat (map (chain_box m pg) (entries pg chainSumry)), True)"
    unfolding chain_part_def using assms by (intro shown_iterate_ok page_chain_box(1)) simp_all
  then show ?thesis by (simp add: exec_page [OF assms(1)] page_values_def seq_vals)
qed

lemma exec_page_cut:
  assumes "page_ok pg" and "entries pg chainSumry = kvs @ kv # kvs'" and "\<forall>x \<in> set kvs. header_known pg x" and "\<not> header_known pg kv"
  shows "shown (execs (FuncMap m) report_nodes (gv_page pg) [(''$'', gv_page pg)]) =
    (top_values pg @ concat (map (chain_box m pg) kvs) @ chain_items kv, False)"
proof -
  have "set (kvs @ kv # kvs') = set (sget (pg_Summary pg) chainSumry)" using set_entries assms(2) by metis
  then have m: "x \<in> set (sget (pg_Summary pg) chainSumry)" if "x \<in> set (kvs @ [kv])" for x using that by auto
  have "chain_part m pg = (concat (map (chain_box m pg) kvs) @ chain_items kv, False)"
    unfolding chain_part_def assms(2)
    using assms(1,3,4) m by (intro shown_iterate_stop page_chain_box) simp_all
  then show ?thesis by (simp add: exec_page [OF assms(1)] seq_vals)
qed

section \<open>The data of a report\<close>

lemma header_list_VAny: "iget e ''records'' = VSlice (map VHeader rs) \<Longrightarrow> header_list (VAny e) = rs"
  by (simp add: header_list_def entry_map_def o_def)

lemma node_list_VMap: "node_list (VMap [(''records'', VSlice (map VMeta rs))]) = rs"
  by (simp add: node_list_def entry_map_def iget_def o_def)

lemma gomap_entry: "gomap m \<Longrightarrow> kv \<in> set m \<Longrightarrow> map_of m (fst kv) = Some (snd kv)"
  by (cases kv) (simp add: gomap_def)

lemma report_header_entries:
  assumes s: "summary_of metas hs sm" and kv: "kv \<in> set (sget sm headerSumry)"
  shows "header_entry_ok (snd kv) \<and>
    (\<exists>h \<in> set hs. fst kv = FormatUint (hdr_shard h) \<and>
       mset (header_list (snd kv)) = mset (filter (\<lambda>x. hdr_shard x = hdr_shard h) hs))"
proof -
  have "fst kv \<in> (\<lambda>h. FormatUint (hdr_shard h)) ` set hs"
    using imageI [OF kv, of fst] unfolding summary_keys(3) [OF s] .
  then obtain h where h: "h \<in> set hs" "fst kv = FormatUint (hdr_shard h)" by blast
  obtain e where e: "map_of (sget sm headerSumry) (FormatUint (hdr_shard h)) = Some (VAny e)"
    "summarises e (filter (\<lambda>x. hdr_shard x = hdr_shard h) hs)" using summary_header [OF s h(1)] by blast
  have v: "snd kv = VAny e" using gomap_entry [OF summary_keys(6) [OF s] kv] e(1) h(2) by simp
  obtain rs where rs: "iget e ''records'' = VSlice (map VHeader rs)" "mset rs = mset (filter (\<lambda>x. hdr_shard x = hdr_shard h) hs)"
    using e(2) unfolding summarises_def by (elim conjE exE)
  have l: "header_list (snd kv) = rs" unfolding v by (rule header_list_VAny [OF rs(1)])
  have "header_entry_ok (snd kv)" unfolding header_entry_ok_def l using v rs(1) by simp
  then show ?thesis using h l rs(2) by auto
qed

lemma report_node_entries:
  assumes s: "summary_of metas hs sm" and kv: "kv \<in> set (sget sm metaSumry)"
  shows "node_entry_ok (snd kv) \<and> mset (node_list (snd kv)) = mset (filter (\<lambda>d. meta_version d = fst kv) metas)"
proof -
  have "fst kv \<in> meta_version ` set metas"
    using imageI [OF kv, of fst] unfolding summary_keys(1) [OF s] .
  then obtain rs where rs: "map_of (sget sm metaSumry) (fst kv) = Some (VMap [(''records'', VSlice (map VMeta rs))])"
    "mset rs = mset (filter (\<lambda>d. meta_version d = fst kv) metas)" using summary_version [OF s] by blast
  have v: "snd kv = VMap [(''records'', VSlice (map VMeta rs))]"
    using gomap_entry [OF summary_keys(4) [OF s] kv] rs(1) by simp
  have l: "node_list (snd kv) = rs" unfolding v by (rule node_list_VMap)
  have "node_entry_ok (snd kv)" unfolding node_entry_ok_def l using v by (simp add: iget_def)
  then show ?thesis using l rs(2) by simp
qed

lemma report_page_ok:
  assumes s: "summary_of metas hs sm"
    and dec: "[] \<notin> fst ` set (qc_Deciders (sc_CurrentCommittee (m_SuperCommittee m)))"
      "[] \<notin> fst ` set (qc_Deciders (sc_PreviousCommittee (m_SuperCommittee m)))"
    and pg_def: "pg = report_page build now m (fold (\<lambda>kv. put_field chainSumry (f kv) ''consensus-status'' (g kv)) xs sm)"
  shows "page_ok pg" and "header_known pg kv \<longleftrightarrow> fst kv \<in> (\<lambda>h. FormatUint (hdr_shard h)) ` set hs"
    and "fst ` set (sget (pg_Summary pg) chainSumry) = (\<lambda>d. FormatUint (meta_shard d)) ` set metas"
    and "sget (pg_Summary pg) headerSumry = sget sm headerSumry" and "sget (pg_Summary pg) metaSumry = sget sm metaSumry"
proof -
  let ?sm = "fold (\<lambda>kv. put_field chainSumry (f kv) ''consensus-status'' (g kv)) xs sm"
  have p: "pg_Summary pg = ?sm" "pg_SuperCommittee pg = m_SuperCommittee m"
    by (simp_all add: pg_def report_page_def Let_def)
  show hd: "sget (pg_Summary pg) headerSumry = sget sm headerSumry" and mt: "sget (pg_Summary pg) metaSumry = sget sm metaSumry"
    unfolding p by (simp_all add: put_fold_frame)
  have ch: "chain_entry_ok (snd kv)" if kv: "kv \<in> set (sget ?sm chainSumry)" for kv
  proof -
    have "gomap (sget ?sm chainSumry)" "any_entries ?sm chainSumry"
      using put_fold_frame(3,4) [of sm] summary_keys(5) [OF s] summary_any(2) [OF s] by blast+
    then show ?thesis using gomap_entry [OF _ kv] unfolding any_entries_def chain_entry_ok_def by blast
  qed
  show "page_ok pg"
    unfolding page_ok_def hd mt unfolding p
    using report_header_entries [OF s] report_node_entries [OF s] ch dec by simp
  show "header_known pg kv \<longleftrightarrow> fst kv \<in> (\<lambda>h. FormatUint (hdr_shard h)) ` set hs"
    unfolding header_known_def hd summary_keys(3) [OF s] by simp
  show "fst ` set (sget (pg_Summary pg) chainSumry) = (\<lambda>d. FormatUint (meta_shard d)) ` set metas"
    unfolding p by (simp add: put_fold_frame summary_keys(2) [OF s])
qed

lemma split_first: "\<exists>x \<in> set xs. \<not> P x \<Longrightarrow> \<exists>as b cs. xs = as @ b # cs \<and> (\<forall>x \<in> set as. P x) \<and> \<not> P b"
  using split_list_first_prop [of xs "\<lambda>x. \<not> P x"] by auto

lemma exec_page_cases:
  fixes m :: monitor
  assumes "page_ok pg"
  defines "r \<equiv> shown (execs (FuncMap m) report_nodes (gv_page pg) [(''$'', gv_page pg)])"
  shows "snd r \<longleftrightarrow> (\<forall>kv \<in> set (sget (pg_Summary pg) chainSumry). header_known pg kv)"
    and "if snd r then fst r = page_values m pg
      else \<exists>kvs kv kvs'. entries pg chainSumry = kvs @ kv # kvs' \<and>
        fst r = top_values pg @ concat (map (chain_box m pg) kvs) @ chain_items kv"
proof -
  have "(\<forall>kv \<in> set (sget (pg_Summary pg) chainSumry). header_known pg kv) \<and> r = (page_values m pg, True) \<or>
    (\<exists>kv \<in> set (sget (pg_Summary pg) chainSumry). \<not> header_known pg kv) \<and> \<not> snd r \<and>
    (\<exists>kvs kv kvs'. entries pg chainSumry = kvs @ kv # kvs' \<and>
        fst r = top_values pg @ concat (map (chain_box m pg) kvs) @ chain_items kv)"
  proof (cases "\<forall>kv \<in> set (entries pg chainSumry). header_known pg kv")
    case True
    then show ?thesis using exec_page_ok [OF assms(1)] by (simp add: r_def)
  next
    case False
    then obtain kvs kv kvs' where c: "entries pg chainSumry = kvs @ kv # kvs'" "\<forall>x \<in> set kvs. header_known pg x" "\<not> header_known pg kv"
      using split_first [of "entries pg chainSumry" "header_known pg"] by blast
    from exec_page_cut [OF assms(1) this, of m] have r: "r = (top_values pg @ concat (map (chain_box m pg) kvs) @ chain_items kv, False)"
      by (simp add: r_def)
    have "\<exists>kv \<in> set (sget (pg_Summary pg) chainSumry). \<not> header_known pg kv" using False by simp
    then show ?thesis using c(1) r by (intro disjI2 conjI exI [of _ kvs] exI [of _ kv] exI [of _ kvs']) simp_all
  qed
  then show "snd r \<longleftrightarrow> (\<forall>kv \<in> set (sget (pg_Summary pg) chainSumry). header_known pg kv)"
    and "if snd r then fst r = page_values m pg
      else \<exists>kvs kv kvs'. entries pg chainSumry = kvs @ kv # kvs' \<and>
        fst r = top_values pg @ concat (map (chain_box m pg) kvs) @ chain_items kv"
    by (elim disjE; force)+
qed

lemma known_shards:
  assumes "fst ` set ch = (\<lambda>d. FormatUint (meta_shard d)) ` set metas"
  shows "(\<forall>kv \<in> set ch. fst kv \<in> (\<lambda>h. FormatUint (hdr_shard h)) ` set (map short_hdr hs)) \<longleftrightarrow>
    meta_shard ` set metas \<subseteq> hdr_shard ` set hs"
proof -
  have "(\<forall>kv \<in> set ch. fst kv \<in> S) \<longleftrightarrow> fst ` set ch \<subseteq> S" for S by auto
  moreover have "(\<lambda>h. FormatUint (hdr_shard h)) ` set (map short_hdr hs) = FormatUint ` hdr_shard ` set hs"
    by (force simp: image_image)
  moreover have "(\<lambda>d. FormatUint (meta_shard d)) ` set metas = FormatUint ` meta_shard ` set metas" by (simp add: image_image)
  ultimately show ?thesis using assms by (simp add: inj_image_subset_iff inj_def)
qed

section \<open>Properties\<close>



text \<open>
  (C30) For every chain whose name has no braces the template of the page parses, that is its
  actions are well formed, its blocks are closed and the functions and variables it uses exist;
  and the two download links of the page lead to the route of \<^verbatim>\<open>produceCSV\<close> with the name of the
  report it expects.
\<close>

theorem page_links:
  assumes "CHR ''{'' \<notin> set (wp_TargetChain params)"
  shows \<open>\<exists>t path text1 text2 text3.
    template_Parse report_funs (reportPage (wp_TargetChain params)) = Some t \<and>
    reportPage (wp_TargetChain params) =
      text1 @ ''<a href="'' @ path @ ''?report='' @ blockHeaderReport @ ''&shard={{$key}}">'' @ text2 @
      ''<a href="'' @ path @ ''?report='' @ nodeMetadataReport @ ''&vrs={{$key}}">'' @ text3 \<and>
    map_of (routes params) path = Some R_produceCSV\<close>
proof -
  let ?chain = "wp_TargetChain params"
  obtain t where t: "template_Parse report_funs (reportPage ?chain) = Some t"
    using reportPage_nodes [OF assms] by blast
  have l: \<open>link_text c r p = ''            '' @ ''<a href="'' @ (''/report-download-'' @ c) @ ''?report='' @ r @
      (''&'' @ p @ ''={{$key}}">'') @ ''Download CSV</a>'' @ [CHR 0x0A]\<close> for c r p
    by (simp add: link_text_def)
  have path: "map_of (routes params) (''/report-download-'' @ ?chain) = Some R_produceCSV"
    by (auto simp: routes_def dest: arg_cong [where f = length])
  let ?text1 = "[CHR 0x0A] @ concat (plain_text page_style) @ concat (plain_text page_boxes) @
    concat (plain_text page_down) @ concat (plain_text page_headers_top) @ ''            ''"
  let ?text2 = "''Download CSV</a>'' @ [CHR 0x0A] @ concat (plain_text page_headers_table) @
    concat (plain_text page_nodes_top) @ ''            ''"
  let ?text3 = "''Download CSV</a>'' @ [CHR 0x0A] @ concat (plain_text page_nodes_table) @
    concat (plain_text page_current) @ concat (plain_text page_previous) @ concat (plain_text page_foot)"
  have \<open>reportPage ?chain = ?text1 @ ''<a href="'' @ (''/report-download-'' @ ?chain) @ ''?report='' @ blockHeaderReport @
      ''&shard={{$key}}">'' @ ?text2 @ ''<a href="'' @ (''/report-download-'' @ ?chain) @ ''?report='' @ nodeMetadataReport @
      ''&vrs={{$key}}">'' @ ?text3\<close>
    unfolding reportPage_text l append_assoc by simp
  with t path show ?thesis by blast
qed

theorem page_links_witness:
  \<open>\<exists>path text1 text2 text3.
    reportPage ''testnet'' =
      text1 @ ''<a href="'' @ path @ ''?report='' @ blockHeaderReport @ ''&shard={{$key}}">'' @ text2 @
      ''<a href="'' @ path @ ''?report='' @ nodeMetadataReport @ ''&vrs={{$key}}">'' @ text3 \<and>
    map_of (routes sample_watchParams) path = Some R_produceCSV\<close>
proof -
  have c: "CHR ''{'' \<notin> set (wp_TargetChain sample_watchParams)" and n: "wp_TargetChain sample_watchParams = ''testnet''"
    by (simp_all add: sample_watchParams_def)
  show ?thesis using page_links [OF c] unfolding n by blast
qed

end
