(* ===== verification/System.thy ===== *)
theory System
  imports Page Consensus CrossLink
begin

text \<open>
  The whole watchdog as a transition system: the rounds of the managers, the ticks of the
  monitors, committee updates and the requests of the report server act on one monitor. A
  request with several critical sections is one transition in which other transitions happen
  between its sections. A request for a JSON report does to the monitor what the snapshot it encodes
  does; the other monitors and the delayed checks do not change the monitor.
\<close>

section \<open>Transitions\<close>

record system =
  sy_mon :: monitor
  sy_epoch :: u64
  sy_cons :: consensus_state
  sy_links :: "(int, processedCrossLink) gomap"
  sy_panicked :: bool

text \<open>\<open>sy_panicked\<close> records that a handler panicked; the program has no such variable.\<close>

definition initial :: "string \<Rightarrow> system" where
  "initial chain = \<lparr>sy_mon = new_monitor chain, sy_epoch = 0, sy_cons = new_consensus, sy_links = [], sy_panicked = False\<rparr>"

fun left_monitor :: "'a handled \<Rightarrow> monitor" where
  "left_monitor (Returned x m) = m"
| "left_monitor (Panicked p m) = m"
| "left_monitor (Waits m) = m"

fun has_panicked :: "'a handled \<Rightarrow> bool" where
  "has_panicked (Panicked p m) = True"
| "has_panicked _ = False"

definition after :: "'a handled \<Rightarrow> system \<Rightarrow> system" where
  "after h s = s\<lparr>sy_mon := left_monitor h, sy_panicked := sy_panicked s \<or> has_panicked h\<rparr>"

inductive step :: "linq \<Rightarrow> system \<Rightarrow> system \<Rightarrow> bool"
  and steps :: "linq \<Rightarrow> system \<Rightarrow> system \<Rightarrow> bool"
  for lq :: linq where
  metadata_round:
    "fst (manager_round ord tolerance shardMap NodeMetadataRPC key chain now cs (sy_mon s, e)) = Some (m', e') \<Longrightarrow>
     step lq s (s\<lparr>sy_mon := m'\<rparr>)"
| header_round:
    "fst (manager_round ord tolerance shardMap BlockHeaderRPC key chain now cs (sy_mon s, sy_epoch s)) = Some (m', e') \<Longrightarrow>
     step lq s (s\<lparr>sy_mon := m', sy_epoch := e'\<rparr>)"
| consensus:
    "consensus_tick lq pd ord warning utolerance poolSize key chain shardMap now cs (sy_mon s, sy_cons s) =
       Inr (r, st', acts, calls) \<Longrightarrow> range_order ord \<Longrightarrow>
     step lq s (s\<lparr>sy_mon := (case r of None \<Rightarrow> sy_mon s | Some m' \<Rightarrow> m'), sy_cons := st'\<rparr>)"
| crosslink:
    "crosslink_tick pd warning key chain now cs (sy_mon s, sy_links s) = (r, links', acts) \<Longrightarrow>
     step lq s (s\<lparr>sy_mon := (case r of None \<Rightarrow> sy_mon s | Some m' \<Rightarrow> m'), sy_links := links'\<rparr>)"
| committee: "step lq s (s\<lparr>sy_mon := stakingCommitteeUpdate http node (sy_mon s)\<rparr>)"
| summary_panic: "take_summary lq (sy_mon s) = Panicked p m' \<Longrightarrow> step lq s (s\<lparr>sy_mon := m', sy_panicked := True\<rparr>)"
| status:
    "take_summary lq (sy_mon s) = Returned sm m1 \<Longrightarrow> steps lq (s\<lparr>sy_mon := m1\<rparr>) s1 \<Longrightarrow>
     range_order ord \<Longrightarrow> range_order ord' \<Longrightarrow> range_order ord'' \<Longrightarrow>
     step lq s (after (statusSnapshot lq ord ord' ord'' (\<lambda>m. sy_mon s1) (sy_mon s)) s1)"
| network:
    "take_summary lq (sy_mon s) = Returned sm m1 \<Longrightarrow> steps lq (s\<lparr>sy_mon := m1\<rparr>) s1 \<Longrightarrow>
     range_order ord \<Longrightarrow> range_order ord' \<Longrightarrow> range_order ord'' \<Longrightarrow>
     step lq s (after (networkSnapshot lq ord ord' ord'' build (\<lambda>m. sy_mon s1) (sy_mon s)) s1)"
| render:
    "take_summary lq (sy_mon s) = Returned sm m1 \<Longrightarrow> steps lq (s\<lparr>sy_mon := m1\<rparr>) s1 \<Longrightarrow>
     networkSnapshot lq ord ord' ord'' build (\<lambda>m. sy_mon s1) (sy_mon s) = Returned report m2 \<Longrightarrow>
     steps lq (s1\<lparr>sy_mon := m2\<rparr>) s2 \<Longrightarrow>
     range_order ord \<Longrightarrow> range_order ord' \<Longrightarrow> range_order ord'' \<Longrightarrow> range_order ords \<Longrightarrow>
     step lq s (after (renderReport lq ord ord' ord'' ords build nows (\<lambda>m. sy_mon s1) (\<lambda>m. sy_mon s2) (sy_mon s)) s2)"
| download: "step lq s (after (produceCSV query (sy_mon s)) s)"
| none: "steps lq s s"
| more: "step lq s s' \<Longrightarrow> steps lq s' s'' \<Longrightarrow> steps lq s s''"

section \<open>What an operation leaves alone\<close>

text \<open>The fields that the managers, monitors and handlers share, apart from the managers' working containers.\<close>

definition shared where
  "shared m = (m_chain m, m_inUse m, m_MetadataSnapshot m, m_BlockHeaderSnapshot m, m_SuperCommittee m, m_LastCrossLinks m,
     m_SummarySnapshot m, m_NoReplySnapshot m, m_consensusProgress m)"

lemma metadata_fold_shared: "shared (snd (fold (metadata_reply sm) cs st)) = shared (snd st)"
proof (induction cs arbitrary: st)
  case (Cons d cs)
  have "shared (snd (metadata_reply sm d st)) = shared (snd st)"
    by (auto simp: metadata_reply_def bytesToNodeMetadata_def shared_def Let_def split: prod.splits option.splits)
  with Cons show ?case by simp
qed simp

lemma header_fold_shared: "shared (snd (fold (header_reply sm) cs st)) = shared (snd st)"
proof (induction cs arbitrary: st)
  case (Cons d cs)
  have "shared (snd (header_reply sm d st)) = shared (snd st)"
    by (auto simp: header_reply_def bytesToNodeMetadata_def shared_def Let_def split: prod.splits option.splits)
  with Cons show ?case by simp
qed simp

lemma manager_round_frame:
  assumes "fst (manager_round ord tolerance shardMap rpc key chain now cs (m, e)) = Some (m', e')"
    and "rpc = NodeMetadataRPC \<or> rpc = BlockHeaderRPC"
  shows "\<not> m_inUse m \<and> \<not> m_inUse m' \<and> m_consensusProgress m' = m_consensusProgress m \<and>
    m_SummarySnapshot m' = m_SummarySnapshot m \<and> m_chain m' = m_chain m"
proof -
  let ?m1 = "m\<lparr>m_WorkingMetadata := (m_WorkingMetadata m)\<lparr>mc_TS := now\<rparr>\<rparr>"
  let ?m2 = "m\<lparr>m_WorkingBlockHeader := (m_WorkingBlockHeader m)\<lparr>bc_TS := now\<rparr>\<rparr>"
  have s1: "shared (snd (fold (metadata_reply shardMap) cs (True, ?m1))) = shared m"
    and s2: "shared (snd (fold (header_reply shardMap) cs (True, ?m2))) = shared m"
    by (simp_all add: metadata_fold_shared header_fold_shared) (simp_all add: shared_def)
  from assms(2) show ?thesis
  proof
    assume rpc: "rpc = NodeMetadataRPC"
    then show ?thesis
      using assms(1) s1
      by (auto simp: manager_round_def case_prod_beta Let_def lock_def unlock_def metadataCopy_def shared_def split: if_splits)
  next
    assume rpc: "rpc = BlockHeaderRPC"
    then show ?thesis
      using assms(1) s2
      by (auto simp: manager_round_def case_prod_beta Let_def lock_def unlock_def blockHeaderCopy_def shared_def rpc_names
          split: if_splits)
  qed
qed

lemma watch_status:
  "gomap (cs_consensusStatus st) \<Longrightarrow> gomap (cs_consensusStatus (fst (watch (consensus_shard pd warning key chain) obs st)))"
proof (induction obs arbitrary: st)
  case (Cons ob obs)
  have "gomap (cs_consensusStatus (fst (consensus_shard pd warning key chain ob st)))"
    using Cons.prems by (auto simp: consensus_shard_def Let_def split: option.splits)
  with Cons.IH show ?case by (simp add: case_prod_beta)
qed simp

lemma consensus_frame:
  assumes "linq_laws lq" and "range_order ord" and "gomap (cs_consensusStatus st)"
    and "consensus_tick lq pd ord warning tolerance poolSize key chain shardMap now cs (m, st) = Inr (r, st', acts, calls)"
  shows "r = (if m_inUse m then None else Some (m\<lparr>m_consensusProgress := cs_consensusStatus st'\<rparr>))"
    and "gomap (cs_consensusStatus st')"
  using assms(3,4) watch_status unfolding consensus_tick_eq [OF assms(1,2)]
  by (auto simp: Let_def case_prod_beta)

lemma crosslink_frame:
  assumes "crosslink_tick pd warning key chain now cs (m, st) = (r, st', acts)"
  shows "\<exists>cl. r = (if m_inUse m then None else Some (m\<lparr>m_LastCrossLinks := cl\<rparr>))"
  using assms by (cases m) (auto simp: crosslink_tick_def lock_def unlock_def Let_def split: prod.splits)

section \<open>Summaries under the lock\<close>

lemma take_summary_waits: "m_inUse m \<Longrightarrow> take_summary lq m = Waits m"
  by (simp add: take_summary_def)

lemma take_summary_panics:
  assumes "\<not> (\<forall>h \<in> set (snap_headers m). sig_ok h)" and "\<not> m_inUse m"
  shows "\<exists>hs'. take_summary lq m =
    Panicked SliceBounds (m\<lparr>m_inUse := True, m_BlockHeaderSnapshot := (m_BlockHeaderSnapshot m)\<lparr>bc_Nodes := hs'\<rparr>\<rparr>)"
proof -
  obtain q where q: "snd (shorten_sigs (snap_headers m)) = Some q" using assms(1) shorten_sigs_panic [of "snap_headers m"] by auto
  have "q = SliceBounds" using shorten_sigs_which [OF q] .
  with q show ?thesis using assms(2) by (auto simp: take_summary_def summaryMaps_def lock_def split: prod.splits)
qed

text \<open>The three ways the first critical section of a report ends.\<close>

lemma take_summary_cases:
  assumes "linq_laws lq"
  obtains (waits) "m_inUse m" "take_summary lq m = Waits m"
  | (panics) hs' where "\<not> m_inUse m" "\<not> (\<forall>h \<in> set (snap_headers m). sig_ok h)" "take_summary lq m =
      Panicked SliceBounds (m\<lparr>m_inUse := True, m_BlockHeaderSnapshot := (m_BlockHeaderSnapshot m)\<lparr>bc_Nodes := hs'\<rparr>\<rparr>)"
  | (returns) sm where "\<not> m_inUse m" "\<forall>h \<in> set (snap_headers m). sig_ok h" "take_summary lq m = Returned sm (shortened m)"
      "summary_of (snap_metas m) (map short_hdr (snap_headers m)) sm" "summary_wf sm"
  using take_summary_waits take_summary_panics take_summary_ok [OF assms] by metis

lemma take_summary_Returned:
  assumes "linq_laws lq" and "take_summary lq m = Returned sm m1"
  shows "\<not> m_inUse m" and "m1 = shortened m" and "summary_of (snap_metas m) (map short_hdr (snap_headers m)) sm" and "summary_wf sm"
  by (rule take_summary_cases [OF assms(1), of m]; use assms(2) in simp)+

lemma networkSnapshot_form:
  assumes "linq_laws lq" and "range_order ord" and "range_order ord'" and "take_summary lq m = Returned sm m1"
  obtains sm' where "networkSnapshot lq ord ord' ord'' build other m = finish_snapshot ord'' build sm' (other m1)"
    and "summary_of (snap_metas m) (map short_hdr (snap_headers m)) sm'" and "summary_wf sm'"
proof -
  note s = take_summary_Returned [OF assms(1,4)]
  obtain ns where ns: "fold_result (add_leaders lq) (ord (sget sm metaSumry)) [] = Inr (leader_map ns [])"
    using summary_versions [OF s(3) assms(1,2)] by blast
  have "networkSnapshot lq ord ord' ord'' build other m =
      finish_snapshot ord'' build (fold (\<lambda>x. put_field headerSumry (fst x) ''shard-leader'' (VStrs (snd x)))
        (ord' (leader_map ns [])) sm) (other m1)"
    by (simp add: networkSnapshot_def assms(4) ns set_field_fold [OF summary_any(1) [OF s(3)]])
  then show thesis by (rule that [OF _ summary_put_fold [OF s(3) disjI1 [OF refl]] wf_put_fold [OF s(4)]])
qed

lemma finish_cases:
  assumes "summary_of metas hs sm"
  shows "finish_snapshot ord build sm m =
    (if m_inUse m then Waits m
     else Returned \<lparr>nr_Build = build, nr_Chain = m_chain m,
       nr_ConsensusProgress = fold (\<lambda>kv. AList.update (fst kv) (snd kv)) (ord (m_consensusProgress m)) [],
       nr_Summary = fold (\<lambda>v. put_field headerSumry (Itoa (cl_ShardID v)) ''last-crosslink'' (VInt (cl_BlockNumber v)))
         (lc_CrossLinks (m_LastCrossLinks m)) sm,
       nr_NoReplies = mc_Down (m_MetadataSnapshot m) @ bc_Down (m_BlockHeaderSnapshot m)\<rparr> m)"
  using finish_snapshot_ok [OF assms] by (simp add: finish_snapshot_def)

text \<open>A report that is taken never panics any more.\<close>

lemma network_left:
  assumes "linq_laws lq" and "range_order ord" and "range_order ord'" and "take_summary lq m = Returned sm m1"
  shows "left_monitor (networkSnapshot lq ord ord' ord'' build other m) = other m1 \<and>
    \<not> has_panicked (networkSnapshot lq ord ord' ord'' build other m)"
proof (rule networkSnapshot_form [OF assms, of ord'' build other])
  fix sm' assume n: "networkSnapshot lq ord ord' ord'' build other m = finish_snapshot ord'' build sm' (other m1)"
    and s: "summary_of (snap_metas m) (map short_hdr (snap_headers m)) sm'"
  show ?thesis unfolding n finish_cases [OF s] by simp
qed

lemma network_Returned:
  assumes "linq_laws lq" and "range_order ord" and "range_order ord'" and "take_summary lq m = Returned sm m1"
    and "networkSnapshot lq ord ord' ord'' build other m = Returned report m2"
  shows "m2 = other m1" and "summary_of (snap_metas m) (map short_hdr (snap_headers m)) (nr_Summary report)"
    and "summary_wf (nr_Summary report)"
proof -
  obtain sm' where n: "networkSnapshot lq ord ord' ord'' build other m = finish_snapshot ord'' build sm' (other m1)"
    and s: "summary_of (snap_metas m) (map short_hdr (snap_headers m)) sm'" and wf: "summary_wf sm'"
    by (rule networkSnapshot_form [OF assms(1-4)])
  from assms(5)[unfolded n finish_cases [OF s]] have
    "m2 = other m1" and "nr_Summary report = fold (\<lambda>v. put_field headerSumry (Itoa (cl_ShardID v)) ''last-crosslink'' (VInt (cl_BlockNumber v)))
         (lc_CrossLinks (m_LastCrossLinks (other m1))) sm'" by (auto split: if_splits)
  then show "m2 = other m1" and "summary_of (snap_metas m) (map short_hdr (snap_headers m)) (nr_Summary report)"
    and "summary_wf (nr_Summary report)"
    using summary_put_fold [OF s disjI2 [OF refl]] wf_put_fold [OF wf] by simp_all
qed

section \<open>The last page\<close>

text \<open>The dynamic types of what \<^verbatim>\<open>renderReport\<close> keeps for the downloads.\<close>

definition snap_typed :: "summary \<Rightarrow> bool" where
  "snap_typed snap \<longleftrightarrow>
     (\<forall>k v. map_of (sget snap headerSumry) k = Some v \<longrightarrow> header_entry_ok v) \<and>
     (\<forall>k v. map_of (sget snap metaSumry) k = Some v \<longrightarrow> node_entry_ok v)"

lemma summary_typed:
  assumes s: "summary_of metas hs sm"
    and h: "\<And>k. map_of (sget snap headerSumry) k = map_of (sget sm headerSumry) k"
    and m: "\<And>k. map_of (sget snap metaSumry) k = map_of (sget sm metaSumry) k"
  shows "snap_typed snap"
  unfolding snap_typed_def h m
  using report_header_entries [OF s] report_node_entries [OF s] map_of_SomeD by (metis snd_conv)

lemma render_left:
  assumes "range_order ord" and "range_order ords"
    and n: "networkSnapshot lq ord ord' ord'' build other m = Returned report m2"
    and s: "summary_of metas hs (nr_Summary report)" and wf: "summary_wf (nr_Summary report)"
    and h_def: "h = renderReport lq ord ord' ord'' ords build nows other other' m"
  shows "\<not> has_panicked h \<and> (left_monitor h = other' m2 \<or>
    \<not> m_inUse (other' m2) \<and> \<not> m_inUse (left_monitor h) \<and>
    m_consensusProgress (left_monitor h) = m_consensusProgress (other' m2) \<and> snap_typed (m_SummarySnapshot (left_monitor h)))"
proof -
  let ?sm = "fold (\<lambda>kv. put_field chainSumry (fst kv) ''consensus-status'' (VBool (snd kv)))
    (ord'' (nr_ConsensusProgress report)) (nr_Summary report)"
  let ?m3 = "(other' m2)\<lparr>m_inUse := True\<rparr>"
  let ?m' = "unlock ((summaryCopy ords ord ?sm ?m3)\<lparr>m_NoReplySnapshot := nr_NoReplies report\<rparr>)"
  have wf': "summary_wf ?sm" by (rule wf_put_fold [OF wf])
  have c: "map_of (sget (m_SummarySnapshot ?m') key) k = map_of (sget ?sm key) k" for key k
    using summaryCopy_lookup [OF assms(2,1), of ?sm ?m3 key k] wf' summary_wf_inner [OF wf']
    by (simp add: summary_wf_def unlock_def)
  have t: "snap_typed (m_SummarySnapshot ?m')"
    by (rule summary_typed [OF s]; subst c; simp add: put_fold_frame)
  have f: "\<not> m_inUse ?m'" "m_consensusProgress ?m' = m_consensusProgress (other' m2)"
    by (simp_all add: unlock_def summaryCopy_def)
  show ?thesis
  proof (cases "template_Parse report_funs (reportPage (m_chain m2)) = None \<or> m_inUse (other' m2)")
    case True
    then show ?thesis
      by (auto simp: h_def renderReport_def n set_field_fold [OF summary_any(2) [OF s]] case_prod_beta Let_def split: option.splits)
  next
    case False
    then have "left_monitor h = ?m'" "\<not> has_panicked h"
      by (auto simp: h_def renderReport_def n set_field_fold [OF summary_any(2) [OF s]] case_prod_beta Let_def)
    with t f False show ?thesis by metis
  qed
qed

text \<open>A download for a shard that the last page does not have.\<close>

definition asks_unknown :: "(string, string list) gomap \<Rightarrow> monitor \<Rightarrow> bool" where
  "asks_unknown query m \<longleftrightarrow>
     (case (map_of query ''report'', map_of query ''shard'') of
        (Some ks, Some shard) \<Rightarrow>
          hd ks = blockHeaderReport \<and> map_of (sget (m_SummarySnapshot m) headerSumry) (hd shard) = None
      | _ \<Rightarrow> False)"

lemma typed_headers:
  assumes "snap_typed snap" and "map_of (sget snap headerSumry) k = Some v"
  shows "\<exists>rs. header_records snap k = Inr rs"
proof -
  obtain e hs where "v = VAny e" "iget e ''records'' = VSlice (map VHeader hs)"
    using assms unfolding snap_typed_def header_entry_ok_def by blast
  moreover have "assert_all as_header (map VHeader hs) = Inr hs" by (induction hs) (simp_all add: assertions)
  ultimately show ?thesis
    using assms(2) by (simp add: header_records_def assertions) (simp add: iget_def assertions)
qed

lemma typed_metas:
  assumes "snap_typed snap"
  shows "\<exists>rs. meta_records snap k = Inr rs"
proof (cases "map_of (sget snap metaSumry) k")
  case (Some v)
  obtain e ds where "v = VMap e" "iget e ''records'' = VSlice (map VMeta ds)"
    using assms Some unfolding snap_typed_def node_entry_ok_def by blast
  moreover have "assert_all as_meta (map VMeta ds) = Inr ds" by (induction ds) (simp_all add: assertions)
  ultimately show ?thesis
    using Some by (simp add: meta_records_def version_records_def assertions) (simp add: iget_def assertions)
qed (simp add: meta_records_def iget_def)

lemma csv_cases:
  assumes "snap_typed (m_SummarySnapshot m)"
  shows "if \<not> m_inUse m \<and> asks_unknown query m then produceCSV query m = Panicked BadTypeAssertion (m\<lparr>m_inUse := True\<rparr>)
    else left_monitor (produceCSV query m) = m \<and> \<not> has_panicked (produceCSV query m)"
proof -
  have lk: "left_monitor (csv_under_lock f hd rows m) = m \<and> \<not> has_panicked (csv_under_lock f hd rows m)"
    if "m_inUse m \<or> (\<exists>rs. rows (m_SummarySnapshot m) = Inr rs)" for f hd rows
    using that by (cases "m_inUse m") (auto simp: csv_under_lock_def unlock_id)
  have nm: "nodeMetadataReport \<noteq> blockHeaderReport" by (simp add: nodeMetadataReport_def blockHeaderReport_def)
  show ?thesis
  proof (cases "\<not> m_inUse m \<and> asks_unknown query m")
    case True
    then show ?thesis
      by (auto simp: asks_unknown_def produceCSV_def csv_under_lock_def header_records_unknown split: option.splits)
  next
    case False
    then show ?thesis
      using lk typed_headers [OF assms] typed_metas [OF assms]
      by (auto simp: produceCSV_def asks_unknown_def nm split: option.splits)
  qed
qed

lemma status_left:
  assumes "linq_laws lq" and "range_order ord'" and "take_summary lq m = Returned sm m1"
  shows "left_monitor (statusSnapshot lq ord ord' ord'' other m) = other m1 \<and>
    \<not> has_panicked (statusSnapshot lq ord ord' ord'' other m)"
proof -
  obtain sts where "assert_all (shard_status (fold (\<lambda>kv. AList.update (fst kv) (snd kv)) (ord (m_consensusProgress m1)) []))
      (ord' (sget sm headerSumry)) = Inr sts"
    using status_list [OF take_summary_Returned(3) [OF assms(1,3)] assms(2)] by blast
  with assms(3) show ?thesis by (simp add: statusSnapshot_def Let_def)
qed

section \<open>The invariant\<close>

text \<open>
  Between transitions the lock is held exactly if a handler panicked; maps have distinct keys;
  and what the last page left for the downloads has the types the downloads assert.
\<close>

definition system_inv :: "system \<Rightarrow> bool" where
  "system_inv s \<longleftrightarrow>
     (m_inUse (sy_mon s) \<longleftrightarrow> sy_panicked s) \<and> gomap (m_consensusProgress (sy_mon s)) \<and>
     gomap (cs_consensusStatus (sy_cons s)) \<and> snap_typed (m_SummarySnapshot (sy_mon s))"

lemma inv_initial: "system_inv (initial chain)"
  by (simp add: system_inv_def initial_def new_monitor_def new_consensus_def snap_typed_def sget_def)

lemma inv_shortened: "system_inv (s\<lparr>sy_mon := shortened (sy_mon s)\<rparr>) \<longleftrightarrow> system_inv s"
  by (simp add: system_inv_def shortened_def)

lemma section_inv:
  assumes "linq_laws lq" and "take_summary lq (sy_mon s) = Returned sm m1"
    and "system_inv (s\<lparr>sy_mon := m1\<rparr>) \<longrightarrow> system_inv s1" and "system_inv s"
  shows "system_inv s1"
  using assms(3,4) inv_shortened take_summary_Returned(2) [OF assms(1,2)] by simp

lemma inv_kept:
  assumes "linq_laws lq"
  shows "step lq s s' \<Longrightarrow> system_inv s \<longrightarrow> system_inv s'" and "steps lq s s' \<Longrightarrow> system_inv s \<longrightarrow> system_inv s'"
proof (induction rule: step_steps.inducts)
  case (metadata_round ord tolerance shardMap key chain now cs s e m' e')
  then show ?case using manager_round_frame [OF metadata_round] by (auto simp: system_inv_def)
next
  case (header_round ord tolerance shardMap key chain now cs s m' e')
  then show ?case using manager_round_frame [OF header_round] by (auto simp: system_inv_def)
next
  case (consensus pd ord warning utolerance poolSize key chain shardMap now cs s r st' acts calls)
  show ?case
    using consensus_frame [OF assms consensus(2) _ consensus(1)] by (auto simp: system_inv_def)
next
  case (crosslink pd warning key chain now cs s r links' acts)
  then show ?case using crosslink_frame [OF crosslink] by (auto simp: system_inv_def)
next
  case (committee s http node)
  then show ?case by (auto simp: system_inv_def stakingCommitteeUpdate_def Let_def split: prod.splits)
next
  case (summary_panic s p m')
  then show ?case
    by (rule_tac take_summary_cases [OF assms, of "sy_mon s"]) (auto simp: system_inv_def)
next
  case (status s sm m1 s1 ord ord' ord'')
  then show ?case
    using section_inv [OF assms status(1,3)] status_left [OF assms status(5,1)] by (simp add: after_def)
next
  case (network s sm m1 s1 ord ord' ord'' build)
  then show ?case
    using section_inv [OF assms network(1,3)] network_left [OF assms network(4,5,1)] by (simp add: after_def)
next
  case (render s sm m1 s1 ord ord' ord'' build report m2 s2 ords nows)
  note r = network_Returned [OF assms render(7,8,1,4)]
  have "system_inv s \<Longrightarrow> system_inv s2" using section_inv [OF assms render(1,3)] render(6) r(1) by simp
  then show ?case
    using render_left [OF render(7,10,4) r(2,3) refl, of nows "\<lambda>m. sy_mon s2"] by (auto simp: after_def system_inv_def)
next
  case (download s query)
  then show ?case
    using csv_cases [of "sy_mon s" query] by (auto simp: system_inv_def after_def split: if_splits)
qed auto

section \<open>A lock that is never released\<close>

text \<open>What the report server shows.\<close>

definition kept where
  "kept m = (m_inUse m, m_MetadataSnapshot m, m_BlockHeaderSnapshot m, m_LastCrossLinks m, m_SummarySnapshot m, m_NoReplySnapshot m)"

lemma csv_waits: "m_inUse m \<Longrightarrow> left_monitor (produceCSV query m) = m \<and> \<not> has_panicked (produceCSV query m)"
  by (simp add: produceCSV_def csv_under_lock_def split: option.splits)

lemma frozen:
  "step lq s s' \<Longrightarrow> m_inUse (sy_mon s) \<longrightarrow> kept (sy_mon s') = kept (sy_mon s)"
  "steps lq s s' \<Longrightarrow> m_inUse (sy_mon s) \<longrightarrow> kept (sy_mon s') = kept (sy_mon s)"
proof (induction rule: step_steps.inducts)
  case (metadata_round ord tolerance shardMap key chain now cs s e m' e')
  then show ?case using manager_round_frame [OF metadata_round] by blast
next
  case (header_round ord tolerance shardMap key chain now cs s m' e')
  then show ?case using manager_round_frame [OF header_round] by blast
next
  case (consensus pd ord warning utolerance poolSize key chain shardMap now cs s r st' acts calls)
  then show ?case by (auto simp: consensus_tick_def Let_def split: sum.splits)
next
  case (crosslink pd warning key chain now cs s r links' acts)
  then show ?case using crosslink_frame [OF crosslink] by auto
next
  case (committee s http node)
  then show ?case by (auto simp: kept_def stakingCommitteeUpdate_def Let_def split: prod.splits)
next
  case (download s query)
  then show ?case using csv_waits [of "sy_mon s" query] by (simp add: after_def)
next
  case (more s s' s'')
  then show ?case by (simp add: kept_def)
qed (auto simp: take_summary_waits)

lemma requests_wait:
  assumes "m_inUse m"
  shows "networkSnapshot lq ord ord' ord'' build other m = Waits m"
    and "statusSnapshot lq sord sord' sord'' other m = Waits m"
    and "renderReport lq ord ord' ord'' ords build nows other other' m = Waits m"
  using take_summary_waits [OF assms]
  by (simp_all add: networkSnapshot_def statusSnapshot_def renderReport_def)

section \<open>Panics\<close>

lemma summary_panic_cause:
  assumes "linq_laws lq" and "take_summary lq m = Panicked p m'"
  shows "p = SliceBounds \<and> \<not> (\<forall>h \<in> set (snap_headers m). sig_ok h)"
  by (rule take_summary_cases [OF assms(1), of m]) (use assms(2) in simp_all)

lemma network_panic_cause:
  assumes "linq_laws lq" and "range_order ord" and "range_order ord'"
    and "networkSnapshot lq ord ord' ord'' build other m = Panicked p m'"
  shows "p = SliceBounds \<and> \<not> (\<forall>h \<in> set (snap_headers m). sig_ok h)"
proof (cases "take_summary lq m")
  case (Returned sm m1)
  then show ?thesis using network_left [OF assms(1-3) Returned, of ord'' build other] assms(4) by simp
next
  case (Panicked q m1)
  then show ?thesis using summary_panic_cause [OF assms(1) Panicked] assms(4) by (simp add: networkSnapshot_def)
qed (use assms(4) in \<open>simp add: networkSnapshot_def\<close>)

lemma render_panic_cause:
  assumes "linq_laws lq" and "range_order ord" and "range_order ord'" and "range_order ords"
    and "renderReport lq ord ord' ord'' ords build nows other other' m = Panicked p m'"
  shows "p = SliceBounds \<and> \<not> (\<forall>h \<in> set (snap_headers m). sig_ok h)"
proof (cases "networkSnapshot lq ord ord' ord'' build other m")
  case (Returned report m2)
  obtain sm m1 where t: "take_summary lq m = Returned sm m1"
    using Returned by (cases "take_summary lq m") (simp_all add: networkSnapshot_def)
  note r = network_Returned [OF assms(1-3) t Returned]
  show ?thesis using render_left [OF assms(2,4) Returned r(2,3) assms(5) [symmetric]] by simp
next
  case (Panicked q m1)
  then show ?thesis using network_panic_cause [OF assms(1-3) Panicked] assms(5) by (simp add: renderReport_def)
qed (use assms(5) in \<open>simp add: renderReport_def\<close>)

lemma status_panic_cause:
  assumes "linq_laws lq" and "range_order ord'" and "statusSnapshot lq ord ord' ord'' other m = Panicked p m'"
  shows "p = SliceBounds \<and> \<not> (\<forall>h \<in> set (snap_headers m). sig_ok h)"
proof (cases "take_summary lq m")
  case (Returned sm m1)
  then show ?thesis using status_left [OF assms(1,2) Returned, of ord ord'' other] assms(3) by simp
next
  case (Panicked q m1)
  then show ?thesis using summary_panic_cause [OF assms(1) Panicked] assms(3) by (simp add: statusSnapshot_def)
qed (use assms(3) in \<open>simp add: statusSnapshot_def\<close>)

end
