(* ===== verification/Spec2Isabelle.thy ===== *)
theory Spec2Isabelle
  imports Consensus P2p CrossLink Cx Beacon Csv JsonReport Daemon Page System
begin

text \<open>
  A verification of the Harmony blockchain watchdog (\<^verbatim>\<open>src/blockchain-watchdog\<close>, Go).

  \<^bold>\<open>The program.\<close> The watchdog reads a YAML configuration and lists of machines by shard, asks every
  machine for its metadata and its latest block header at fixed intervals, keeps the last complete
  answers of all machines as snapshots, raises PagerDuty alerts (a shard that makes no blocks, nodes
  that fall behind their shard or behind the beacon chain, cross links that stop, too many pending
  cross-shard transactions, low connectivity), and serves the snapshots as a page, as two JSON
  reports and as tables for download. One record, \<^verbatim>\<open>monitor\<close>, is shared by all goroutines and guarded
  by one lock.

  \<^bold>\<open>How the code is modelled.\<close> A structure is a record, a map an association list with distinct keys
  (\<open>gomap\<close>); the order in which \<^verbatim>\<open>range\<close> visits a map is a function \<open>ord\<close> of which only \<open>range_order ord\<close>
  is known, one for each loop. A run-time panic is a value (\<open>panic\<close>), an error a value of a sum or
  option type. Unsigned integers are words; \<^verbatim>\<open>int\<close> is \<open>int\<close>, with \<open>in_int64\<close> where its width matters;
  \<^verbatim>\<open>float64\<close> is the rational it denotes with every operation rounded (\<open>fl\<close>). The lock is the field
  \<open>m_inUse\<close>; a critical section that finds it held waits, and a handler that panics in one leaves it
  held, because net/http recovers the panic and nothing releases the lock. What other goroutines do
  between two critical sections of a handler is a function \<open>other\<close> of the monitor, of which nothing or
  only that it releases the lock is assumed. A tick of a monitor is a function of the replies of its
  rounds; that a round gives one reply per job, in any order, is proved of the worker pool.

  \<^bold>\<open>Theories.\<close>
  \<^item> \<open>Prelude\<close>: Go's integers, panics, decimal printing and reading, strings, maps and \<^verbatim>\<open>range\<close>.
  \<^item> \<open>Json\<close>, \<open>JsonText\<close>, \<open>Rpc\<close>: package encoding/json (parser, decoders, writer, UTF-8), that what the
    writer wrote is read back, and the structures, tags and requests of \<^verbatim>\<open>rpc.go\<close>.
  \<^item> \<open>Float64\<close>, \<open>GoTime\<close>: rounding, durations, the format of a time; whole seconds survive the rounding
    of \<^verbatim>\<open>Seconds()\<close> up to one second, and exactly below 2 to the 22.
  \<^item> \<open>Config\<close>: \<^verbatim>\<open>watchParams\<close>, \<^verbatim>\<open>sanityCheck\<close>, \<^verbatim>\<open>newInstructions\<close> (\<^verbatim>\<open>root.go\<close>) and the map from machines to
    shards that \<^verbatim>\<open>update\<close> builds. An accepted configuration is complete and has no machine twice.
  \<^item> \<open>Server_Types\<close>, \<open>Linq\<close>, \<open>Summary\<close>: \<^verbatim>\<open>monitor\<close>, the values behind \<^verbatim>\<open>interface{}\<close>, go-linq as a parameter,
    \<^verbatim>\<open>blockHeaderSummary\<close> and \<^verbatim>\<open>summaryMaps\<close>, which refine the abstract \<open>summary_of\<close>.
  \<^item> \<open>Request\<close>, \<open>Pool\<close>: \<^verbatim>\<open>request\<close>, \<^verbatim>\<open>worker\<close> and the dispatching half of \<^verbatim>\<open>manager\<close> as a step relation of
    jobs, workers, WaitGroups and reply channels. Locale \<open>collector\<close> is the contract of a round: it
    accepts a list of jobs and gives one answer per job. \<open>Pool\<close> interprets it on the worker pool after
    proving the invariant, the bound on the number of steps and the absence of deadlock.
  \<^item> \<open>Manager\<close>: the collecting half of \<^verbatim>\<open>manager\<close>, \<^verbatim>\<open>stakingCommitteeUpdate\<close>, \<^verbatim>\<open>update\<close>, the copies into the
    snapshots. Locale \<open>reply_sink\<close> is the contract of the two loops over replies.
  \<^item> \<open>Alerts\<close>: the formats of \<^verbatim>\<open>alerts.go\<close>, \<^verbatim>\<open>fmt.Sprintf\<close> on them and \<^verbatim>\<open>notify\<close> (\<^verbatim>\<open>pager.go\<close>).
  \<^item> \<open>Stall\<close>: what the consensus and the cross link monitor share; locale \<open>stall_monitor\<close> and its
    extension \<open>stall_view\<close>, interpreted in \<open>Consensus\<close> and \<open>CrossLink\<close>.
  \<^item> \<open>P2p\<close>, \<open>Consensus\<close>, \<open>CrossLink\<close>, \<open>Cx\<close>, \<open>Beacon\<close>: one theory per monitor. \<open>Fetch\<close> is the pool of
    \<^verbatim>\<open>getBeaconHeaders\<close>, the second interpretation of \<open>collector\<close>.
  \<^item> \<open>Template\<close>, \<open>Html\<close>, \<open>Report\<close>, \<open>Page\<close>: the template language, the text of \<^verbatim>\<open>html-generators.go\<close> line by
    line, \<^verbatim>\<open>networkSnapshot\<close>, \<^verbatim>\<open>statusSnapshot\<close>, \<^verbatim>\<open>renderReport\<close> and \<^verbatim>\<open>produceCSV\<close>, and what the executed
    template shows.
  \<^item> \<open>Csv\<close>, \<open>JsonReport\<close>: the bodies of the downloads and of the JSON reports, and that a client reads
    them back. Locale \<open>record_codec\<close> is the contract of a writer with its reader.
  \<^item> \<open>Daemon\<close>: the commands (\<^verbatim>\<open>daemon-cmds.go\<close>, \<^verbatim>\<open>main.go\<close>, \<^verbatim>\<open>root.go\<close>) and the start of the server.
  \<^item> \<open>System\<close> and this theory: the whole watchdog as a transition system \<open>step\<close> on \<open>system\<close> (the monitor and
    the private state of the monitors' loops), and the properties that need all parts at once.

  \<^bold>\<open>What is shown.\<close> Rounds: one answer per job, the end of every round within a computed number of
  steps, no deadlock, no send on a closed channel; the snapshot of a round accounts for every machine
  exactly once. Monitors: each alerts about exactly the shards or machines it should, with stalls
  reported and progress never reported over any number of ticks. Reports: a summary says exactly what
  the snapshots hold; the page is complete exactly if every shard a node claims has a header, its
  links lead to the downloads, and downloads and JSON reports are read back without loss. Errors: when
  exactly \<^verbatim>\<open>summaryMaps\<close>, a request, the configuration and each command fail. System: in every reachable
  state the lock is held exactly if a handler panicked, no other type assertion fails, and one
  download for an unknown shard stops all later reports.

  \<^bold>\<open>Bounds and fuel.\<close> The JSON parser has fuel twice the length of its text; \<open>parse_fuel\<close> shows that more
  changes nothing. The bounds on the steps of a round are functions of the numbers of jobs and
  workers (\<open>pool_round_ends\<close>, \<open>fetch_returns\<close>), not assumptions. \<open>word\<close> lengths are those of the Go types.

  \<^bold>\<open>Parameters.\<close> fasthttp (\<open>http\<close>: any response or error for a request, different at each use), PagerDuty
  (\<open>pd\<close>: any error or none), go-linq (\<open>linq_laws\<close>; \<open>linq_ref\<close> satisfies them), YAML and the file system
  (\<open>env\<close>), the service manager takama/daemon, the network listener and signals, the clock.

  \<^bold>\<open>Not modelled.\<close> The escaping that html/template adds to the page (the theorems are about the values
  shown, before escaping); the parsing of flags by cobra, its help texts, the \<^verbatim>\<open>version\<close> command and the
  registration of commands (\<^verbatim>\<open>root.go\<close> 28--36, 277--291); log lines other than those that theorems
  mention; the HTTP client's timeouts. Data races: the consensus monitor publishes its own map by
  reference and goes on writing to it without the lock, while \<open>m_consensusProgress\<close> is a copy; the managers
  write their working containers, and pages read the committees, without the lock, each access
  being one step here.
  Constants and imports that nothing modelled uses are left out.
\<close>

section \<open>Properties of the whole watchdog\<close>

text \<open>
  (C6) In every state that the watchdog can reach from its start, whatever the order of rounds,
  ticks and requests and whatever happens between the critical sections of a request, the lock
  of the monitor is held exactly if some request panicked; and what the last page left for the
  downloads has the types that the downloads assert.
\<close>

theorem lock_held_iff_panicked:
  assumes "linq_laws lq" and "steps lq (initial chain) s"
  shows "(m_inUse (sy_mon s) \<longleftrightarrow> sy_panicked s) \<and> gomap (m_consensusProgress (sy_mon s)) \<and>
    snap_typed (m_SummarySnapshot (sy_mon s))"
  using inv_kept(2) [OF assms] inv_initial by (simp add: system_inv_def)

theorem lock_held_iff_panicked_witness:
  "m_inUse (sy_mon (initial ''testnet'')) \<longleftrightarrow> sy_panicked (initial ''testnet'')"
  using lock_held_iff_panicked [OF linq_ref_laws none] by blast

text \<open>
  (C7) In every reachable state in which no request has panicked yet, no type assertion on the
  values of a summary fails: a report, a status or a page can only panic on a commit signature
  of one to four bytes, and a download panics exactly if it asks for the headers of a shard that
  the last page does not have.
\<close>

theorem requests_well_typed:
  assumes "linq_laws lq" and "steps lq (initial chain) s" and "\<not> sy_panicked s"
    and "range_order ord" and "range_order ord'" and "range_order ords"
  shows "(networkSnapshot lq ord ord' ord'' build other (sy_mon s) = Panicked p m' \<longrightarrow>
      p = SliceBounds \<and> (\<exists>h \<in> set (snap_headers (sy_mon s)). \<not> sig_ok h)) \<and>
    (statusSnapshot lq ord'' ord sord other (sy_mon s) = Panicked p m' \<longrightarrow>
      p = SliceBounds \<and> (\<exists>h \<in> set (snap_headers (sy_mon s)). \<not> sig_ok h)) \<and>
    (renderReport lq ord ord' ord'' ords build now other other' (sy_mon s) = Panicked p m' \<longrightarrow>
      p = SliceBounds \<and> (\<exists>h \<in> set (snap_headers (sy_mon s)). \<not> sig_ok h)) \<and>
    (produceCSV query (sy_mon s) = Panicked p m' \<longleftrightarrow>
      p = BadTypeAssertion \<and> asks_unknown query (sy_mon s) \<and> m' = (sy_mon s)\<lparr>m_inUse := True\<rparr>)"
proof -
  have inv: "system_inv s" using inv_kept(2) [OF assms(1,2)] inv_initial by blast
  then have free: "\<not> m_inUse (sy_mon s)" and typed: "snap_typed (m_SummarySnapshot (sy_mon s))"
    using assms(3) by (simp_all add: system_inv_def)
  have "produceCSV query (sy_mon s) = Panicked p m' \<longleftrightarrow>
      p = BadTypeAssertion \<and> asks_unknown query (sy_mon s) \<and> m' = (sy_mon s)\<lparr>m_inUse := True\<rparr>"
    using csv_cases [OF typed, of query] free by (auto split: if_splits)
  then show ?thesis
    using network_panic_cause [OF assms(1,4,5), of ord'' build other "sy_mon s" p m']
      status_panic_cause [OF assms(1,4), of ord'' sord other "sy_mon s" p m']
      render_panic_cause [OF assms(1,4-6), of ord'' build now other other' "sy_mon s" p m']
    by (intro conjI) blast+
qed

theorem requests_well_typed_witness:
  "produceCSV [(''report'', [blockHeaderReport]), (''shard'', [''0''])] (new_monitor ''testnet'') =
     Panicked BadTypeAssertion ((new_monitor ''testnet'')\<lparr>m_inUse := True\<rparr>)"
proof -
  have s: "sy_mon (initial ''testnet'') = new_monitor ''testnet''" "\<not> sy_panicked (initial ''testnet'')"
    by (simp_all add: initial_def)
  have "asks_unknown [(''report'', [blockHeaderReport]), (''shard'', [''0''])] (new_monitor ''testnet'')"
    by (simp add: asks_unknown_def new_monitor_def sget_def)
  then show ?thesis
    using requests_well_typed [OF linq_ref_laws none s(2) range_order_rev range_order_rev range_order_rev] s(1) by metis
qed

text \<open>
  (C5) One download for the headers of a shard that the last page does not have (before the first
  page, any shard) stops the watchdog: whatever happens afterwards, the snapshots never change
  again, and every request for a report, a status or a page waits forever.
\<close>

theorem unknown_download_freezes:
  assumes "linq_laws lq" and "steps lq (initial chain) s" and "\<not> sy_panicked s" and "asks_unknown query (sy_mon s)"
    and "steps lq (after (produceCSV query (sy_mon s)) s) s'"
  shows "m_MetadataSnapshot (sy_mon s') = m_MetadataSnapshot (sy_mon s) \<and>
    m_BlockHeaderSnapshot (sy_mon s') = m_BlockHeaderSnapshot (sy_mon s) \<and>
    m_LastCrossLinks (sy_mon s') = m_LastCrossLinks (sy_mon s) \<and>
    networkSnapshot lq ord ord' ord'' build other (sy_mon s') = Waits (sy_mon s') \<and>
    statusSnapshot lq sord sord' sord'' other (sy_mon s') = Waits (sy_mon s') \<and>
    renderReport lq ord ord' ord'' ords build now other other' (sy_mon s') = Waits (sy_mon s')"
proof -
  have "system_inv s" using inv_kept(2) [OF assms(1,2)] inv_initial by blast
  then have "produceCSV query (sy_mon s) = Panicked BadTypeAssertion ((sy_mon s)\<lparr>m_inUse := True\<rparr>)"
    using csv_cases [of "sy_mon s" query] assms(3,4) by (simp add: system_inv_def)
  then have k: "kept (sy_mon s') = kept ((sy_mon s)\<lparr>m_inUse := True\<rparr>)"
    using frozen(2) [OF assms(5)] by (simp add: after_def)
  then have locked: "m_inUse (sy_mon s')" by (simp add: kept_def)
  from k show ?thesis unfolding requests_wait [OF locked] by (simp add: kept_def)
qed

theorem unknown_download_freezes_witness:
  "statusSnapshot linq_ref rev rev rev (\<lambda>m. m)
     (left_monitor (produceCSV [(''report'', [blockHeaderReport]), (''shard'', [''0''])] (new_monitor ''testnet''))) =
   Waits (left_monitor (produceCSV [(''report'', [blockHeaderReport]), (''shard'', [''0''])] (new_monitor ''testnet'')))"
proof -
  have s: "sy_mon (initial ''testnet'') = new_monitor ''testnet''" "\<not> sy_panicked (initial ''testnet'')"
    by (simp_all add: initial_def)
  have u: "asks_unknown [(''report'', [blockHeaderReport]), (''shard'', [''0''])] (sy_mon (initial ''testnet''))"
    by (simp add: s asks_unknown_def new_monitor_def sget_def)
  show ?thesis
    using unknown_download_freezes [OF linq_ref_laws none s(2) u none, of rev rev rev _ "\<lambda>m. m" rev rev rev]
    by (simp add: after_def s)
qed

end
